(* ===== verification/Prelude.thy ===== *)
theory Prelude
  imports Complex_Main "HOL-Library.Word" "HOL-Library.Sublist"
begin

section \<open>Prelude: Go errors, results, integers and byte strings\<close>

text \<open>
  What every component of the platform shares.  Go values that the components pass around
  are modelled once here:
  \<^item> an \<^verbatim>\<open>error\<close> interface value is \<open>gerr option\<close> (\<open>None\<close> is \<^verbatim>\<open>nil\<close>), with the wrapping that
    \<^verbatim>\<open>fmt.Errorf("... %w")\<close> and \<^verbatim>\<open>errors.Join\<close> build and \<^verbatim>\<open>errors.Is\<close> walks;
  \<^item> the result of a fallible call is \<open>'a go\<close>: a value, an error, or a run-time panic;
  \<^item> \<^verbatim>\<open>int64\<close> is \<open>int\<close> with the wrap-around written out (\<open>wrap64\<close>), \<^verbatim>\<open>%\<close> is the
    truncating remainder \<open>go_rem\<close>;
  \<^item> a Go string is its list of bytes, \<open>string\<close> (\<open>char list\<close>), and the functions of the
    packages \<^verbatim>\<open>strings\<close> and \<^verbatim>\<open>strconv\<close> that the source calls are defined on it.
\<close>

named_theorems wf_intros "introduction rules of the components' well-formedness invariants"
named_theorems frame_simps "what an operation leaves unchanged"

subsection \<open>Errors\<close>

datatype gerr =
    Sentinel string            \<comment> \<open>\<^verbatim>\<open>errors.New\<close>, or an error of a dependency\<close>
  | Wrapped string gerr        \<comment> \<open>\<^verbatim>\<open>fmt.Errorf\<close> with one \<^verbatim>\<open>%w\<close>, or an error type with \<^verbatim>\<open>Unwrap\<close>\<close>
  | Joined "gerr list"         \<comment> \<open>\<^verbatim>\<open>errors.Join\<close>\<close>

type_synonym gerror = "gerr option"

fun errors_is :: "gerr \<Rightarrow> gerr \<Rightarrow> bool" where
  "errors_is (Sentinel s) t = (t = Sentinel s)"
| "errors_is (Wrapped s e) t = (t = Wrapped s e \<or> errors_is e t)"
| "errors_is (Joined es) t = (t = Joined es \<or> list_ex (\<lambda>e. errors_is e t) es)"

definition errors_Is :: "gerror \<Rightarrow> gerr \<Rightarrow> bool" where
  "errors_Is e t = (case e of None \<Rightarrow> False | Some e' \<Rightarrow> errors_is e' t)"

definition non_nil :: "gerror list \<Rightarrow> gerr list" where
  "non_nil es = List.map_filter (\<lambda>e. e) es"

definition errors_Join :: "gerror list \<Rightarrow> gerror" where
  "errors_Join es = (case non_nil es of [] \<Rightarrow> None | x # xs \<Rightarrow> Some (Joined (x # xs)))"

lemma non_nil_simps [simp]:
  "non_nil [] = []"
  "non_nil (None # es) = non_nil es"
  "non_nil (Some e # es) = e # non_nil es"
  by (simp_all add: non_nil_def List.map_filter_def)

lemma errors_Is_simps [simp]:
  "errors_Is None t = False"
  "errors_Is (Some e) t = errors_is e t"
  by (simp_all add: errors_Is_def)

lemma errors_Join_None_iff: "errors_Join es = None \<longleftrightarrow> (\<forall>e \<in> set es. e = None)"
proof -
  have "non_nil es = [] \<longleftrightarrow> (\<forall>e \<in> set es. e = None)"
    by (induction es) (auto simp: non_nil_def List.map_filter_def split: option.splits)
  then show ?thesis by (auto simp: errors_Join_def split: list.splits)
qed

lemma errors_Join_pair_None [simp]:
  "errors_Join [a, b] = None \<longleftrightarrow> a = None \<and> b = None"
  by (simp add: errors_Join_None_iff)

lemma errors_Join_nil [simp]: "errors_Join [None, None] = None"
  by (simp add: errors_Join_def)

lemma errors_Is_Join_pair:
  assumes "t = Sentinel n"
  shows "errors_Is (errors_Join [a, b]) t \<longleftrightarrow> errors_Is a t \<or> errors_Is b t"
  using assms by (cases a; cases b) (auto simp: errors_Join_def)

subsection \<open>Results\<close>

datatype 'a go = Ok 'a | Err gerr | Panic string

fun go_bind :: "'a go \<Rightarrow> ('a \<Rightarrow> 'b go) \<Rightarrow> 'b go" where
  "go_bind (Ok x) f = f x"
| "go_bind (Err e) f = Err e"
| "go_bind (Panic p) f = Panic p"

lemma go_bind_Err_iff: "go_bind m f = Err e \<longleftrightarrow> m = Err e \<or> (\<exists>x. m = Ok x \<and> f x = Err e)"
  by (cases m) auto

lemma go_bind_Ok_iff: "go_bind m f = Ok y \<longleftrightarrow> (\<exists>x. m = Ok x \<and> f x = Ok y)"
  by (cases m) auto

lemma go_bind_Panic_iff:
  "go_bind m f = Panic p \<longleftrightarrow> m = Panic p \<or> (\<exists>x. m = Ok x \<and> f x = Panic p)"
  by (cases m) auto

definition is_ok :: "'a go \<Rightarrow> bool" where
  "is_ok r = (case r of Ok _ \<Rightarrow> True | _ \<Rightarrow> False)"

definition err_of :: "'a go \<Rightarrow> gerror" where
  "err_of r = (case r of Err e \<Rightarrow> Some e | _ \<Rightarrow> None)"

definition go_of_error :: "gerror \<Rightarrow> unit go" where
  "go_of_error e = (case e of None \<Rightarrow> Ok () | Some x \<Rightarrow> Err x)"

subsection \<open>Machine integers\<close>

definition min_int64 :: int where "min_int64 = - 9223372036854775808"
definition max_int64 :: int where "max_int64 = 9223372036854775807"

definition in_int64 :: "int \<Rightarrow> bool" where
  "in_int64 i = (min_int64 \<le> i \<and> i \<le> max_int64)"

definition wrap64 :: "int \<Rightarrow> int" where
  "wrap64 i = (i + 9223372036854775808) mod 18446744073709551616 - 9223372036854775808"

lemma wrap64_in: "in_int64 (wrap64 i)"
proof -
  have "0 \<le> (i + 9223372036854775808) mod 18446744073709551616"
    and "(i + 9223372036854775808) mod 18446744073709551616 < 18446744073709551616"
    by (rule pos_mod_sign pos_mod_bound, simp)+
  then show ?thesis
    unfolding in_int64_def wrap64_def min_int64_def max_int64_def by linarith
qed

lemma wrap64_id: "in_int64 i \<Longrightarrow> wrap64 i = i"
  unfolding in_int64_def wrap64_def min_int64_def max_int64_def by simp

lemma wrap64_word: "wrap64 i = sint (word_of_int i :: 64 word)"
  by (simp add: wrap64_def int_word_sint)

definition go_rem :: "int \<Rightarrow> int \<Rightarrow> int" where
  "go_rem a b = sgn a * (\<bar>a\<bar> mod \<bar>b\<bar>)"

lemma go_rem_nonneg: "0 \<le> a \<Longrightarrow> 0 < b \<Longrightarrow> go_rem a b = a mod b"
  by (cases "a = 0") (auto simp: go_rem_def)

subsection \<open>Byte strings\<close>

definition has_prefix :: "string \<Rightarrow> string \<Rightarrow> bool" where
  "has_prefix s p = (take (length p) s = p)"

definition has_suffix :: "string \<Rightarrow> string \<Rightarrow> bool" where
  "has_suffix s p = (length p \<le> length s \<and> drop (length s - length p) s = p)"

definition trim_prefix :: "string \<Rightarrow> string \<Rightarrow> string" where
  "trim_prefix s p = (if has_prefix s p then drop (length p) s else s)"

lemma has_prefix_append [simp]: "has_prefix (p @ s) p"
  by (simp add: has_prefix_def)

lemma trim_prefix_append [simp]: "trim_prefix (p @ s) p = s"
  by (simp add: trim_prefix_def)

fun find_index :: "('a \<Rightarrow> bool) \<Rightarrow> 'a list \<Rightarrow> nat option" where
  "find_index P [] = None"
| "find_index P (x # xs) = (if P x then Some 0 else map_option Suc (find_index P xs))"

lemma find_index_None: "find_index P xs = None \<longleftrightarrow> (\<forall>x \<in> set xs. \<not> P x)"
  by (induction xs) auto

lemma find_index_append:
  "\<forall>x \<in> set xs. \<not> P x \<Longrightarrow> P y \<Longrightarrow> find_index P (xs @ y # ys) = Some (length xs)"
  by (induction xs) auto

lemma find_index_Some_less: "find_index P xs = Some i \<Longrightarrow> i < length xs"
  by (induction xs arbitrary: i) (auto split: if_splits)

fun split_on :: "char \<Rightarrow> string \<Rightarrow> string list" where
  "split_on c [] = [[]]"
| "split_on c (x # xs) =
     (if x = c then [] # split_on c xs
      else (case split_on c xs of [] \<Rightarrow> [[x]] | w # ws \<Rightarrow> (x # w) # ws))"

fun join_with :: "string \<Rightarrow> string list \<Rightarrow> string" where
  "join_with sep [] = []"
| "join_with sep [w] = w"
| "join_with sep (w # v # ws) = w @ sep @ join_with sep (v # ws)"

text \<open>The parts around the last separator are determined by the whole.\<close>

lemma last_separator:
  assumes "c \<notin> set n" and "c \<notin> set n'"
  shows "p @ c # n = p' @ c # n' \<longleftrightarrow> p = p' \<and> n = n'"
proof
  assume eq: "p @ c # n = p' @ c # n'"
  have "takeWhile (\<lambda>x. x \<noteq> c) (rev m @ c # rev q) = rev m" if "c \<notin> set m" for q m
    using that by (subst takeWhile_append2) auto
  then have "takeWhile (\<lambda>x. x \<noteq> c) (rev (q @ c # m)) = rev m" if "c \<notin> set m" for q m
    using that by simp
  then have "rev n = rev n'" using assms eq by metis
  with eq show "p = p' \<and> n = n'" by simp
qed simp

lemma split_on_not_Nil [simp]: "split_on c s \<noteq> []"
  by (cases s) (auto split: list.splits)

lemma split_on_no_sep: "c \<notin> set w \<Longrightarrow> split_on c w = [w]"
  by (induction w) auto

lemma split_on_append: "c \<notin> set w \<Longrightarrow> split_on c (w @ c # s) = w # split_on c s"
  by (induction w) (auto split: list.splits)

lemma split_join:
  "ws \<noteq> [] \<Longrightarrow> \<forall>w \<in> set ws. c \<notin> set w \<Longrightarrow> split_on c (join_with [c] ws) = ws"
  by (induction "[c]" ws rule: join_with.induct) (auto simp: split_on_no_sep split_on_append)

lemma join_split: "join_with [c] (split_on c s) = s"
proof (induction s)
  case Nil
  show ?case by simp
next
  case (Cons x s)
  obtain w ws where ws: "split_on c s = w # ws" by (cases "split_on c s") auto
  show ?case
  proof (cases "x = c")
    case True
    with Cons ws show ?thesis by simp
  next
    case False
    with Cons ws show ?thesis by (cases ws) auto
  qed
qed

text \<open>
  \<^verbatim>\<open>strings.TrimSpace\<close> drops Unicode white space at both ends.  On the bytes of a string that is
  dropping, as long as one matches, one of the UTF-8 encodings below: the ASCII spaces, U+0085,
  U+00A0, U+1680, U+2000 to U+200A, U+2028, U+2029, U+202F, U+205F and U+3000.
\<close>

definition space_encodings :: "string list" where
  "space_encodings =
     [[CHR 0x09], [CHR 0x0A], [CHR 0x0B], [CHR 0x0C], [CHR 0x0D], [CHR 0x20],
      [CHR 0xC2, CHR 0x85], [CHR 0xC2, CHR 0xA0], [CHR 0xE1, CHR 0x9A, CHR 0x80],
      [CHR 0xE2, CHR 0x80, CHR 0x80], [CHR 0xE2, CHR 0x80, CHR 0x81],
      [CHR 0xE2, CHR 0x80, CHR 0x82], [CHR 0xE2, CHR 0x80, CHR 0x83],
      [CHR 0xE2, CHR 0x80, CHR 0x84], [CHR 0xE2, CHR 0x80, CHR 0x85],
      [CHR 0xE2, CHR 0x80, CHR 0x86], [CHR 0xE2, CHR 0x80, CHR 0x87],
      [CHR 0xE2, CHR 0x80, CHR 0x88], [CHR 0xE2, CHR 0x80, CHR 0x89],
      [CHR 0xE2, CHR 0x80, CHR 0x8A], [CHR 0xE2, CHR 0x80, CHR 0xA8],
      [CHR 0xE2, CHR 0x80, CHR 0xA9], [CHR 0xE2, CHR 0x80, CHR 0xAF],
      [CHR 0xE2, CHR 0x81, CHR 0x9F], [CHR 0xE3, CHR 0x80, CHR 0x80]]"

lemma space_encodings_not_Nil: "[] \<notin> set space_encodings"
  by (simp add: space_encodings_def)

function trim_left_of :: "string list \<Rightarrow> string \<Rightarrow> string" where
  "trim_left_of encs s =
     (case find (\<lambda>e. e \<noteq> [] \<and> has_prefix s e) encs of
        None \<Rightarrow> s
      | Some e \<Rightarrow> trim_left_of encs (drop (length e) s))"
  by pat_completeness auto
termination
proof (relation "measure (\<lambda>(encs, s). length s)", goal_cases)
  case 1
  show ?case by simp
next
  case (2 encs s e)
  then have "e \<noteq> []" and "take (length e) s = e" by (auto simp: find_Some_iff has_prefix_def)
  then have "0 < length e" and "0 < length s" by auto
  then show ?case by simp
qed

declare trim_left_of.simps [simp del]

definition trim_space_left :: "string \<Rightarrow> string" where
  "trim_space_left s = trim_left_of space_encodings s"

definition trim_space_right :: "string \<Rightarrow> string" where
  "trim_space_right s = rev (trim_left_of (map rev space_encodings) (rev s))"

definition trim_space :: "string \<Rightarrow> string" where
  "trim_space s = trim_space_right (trim_space_left s)"

text \<open>
  \<^verbatim>\<open>strings.TrimSpace\<close> cuts off bytes of the encodings only, and a string whose first and last
  byte are visible ASCII keeps every byte.
\<close>

definition space_byte :: "char \<Rightarrow> bool" where
  "space_byte c = (\<exists>e \<in> set space_encodings. c \<in> set e)"

definition visible :: "char \<Rightarrow> bool" where
  "visible c = (33 \<le> (of_char c :: nat) \<and> (of_char c :: nat) \<le> 126)"

lemma space_byte_not_visible: "space_byte c \<Longrightarrow> \<not> visible c"
  by (auto simp: space_byte_def visible_def space_encodings_def)

lemma trim_left_of_split:
  "\<exists>a. s = a @ trim_left_of encs s \<and> (\<forall>c \<in> set a. \<exists>e \<in> set encs. c \<in> set e)"
proof (induction encs s rule: trim_left_of.induct)
  case (1 encs s)
  show ?case
  proof (cases "find (\<lambda>e. e \<noteq> [] \<and> has_prefix s e) encs")
    case None
    then show ?thesis by (simp add: trim_left_of.simps)
  next
    case (Some e)
    from 1 [OF Some] obtain a where a: "drop (length e) s = a @ trim_left_of encs (drop (length e) s)"
        "\<forall>c \<in> set a. \<exists>e \<in> set encs. c \<in> set e" by blast
    from Some have e: "e \<in> set encs" "take (length e) s = e"
      by (auto simp: find_Some_iff has_prefix_def)
    have "s = e @ drop (length e) s" using append_take_drop_id [of "length e" s] e(2) by simp
    then have "s = (e @ a) @ trim_left_of encs s"
      using a(1) Some by (simp add: trim_left_of.simps [of encs s])
    then show ?thesis using a(2) e(1) by (metis Un_iff set_append)
  qed
qed

lemma trim_left_of_id:
  assumes "\<forall>e \<in> set encs. e \<noteq> [] \<longrightarrow> hd e \<noteq> c"
  shows "trim_left_of encs (c # s) = c # s"
proof -
  have "find (\<lambda>e. e \<noteq> [] \<and> has_prefix (c # s) e) encs = None"
    using assms
    by (auto simp: find_None_iff has_prefix_def take_Cons' split: if_splits) (metis list.sel(1))
  then show ?thesis by (simp add: trim_left_of.simps)
qed

lemma trim_space_split:
  "\<exists>a b. s = a @ trim_space s @ b \<and> list_all space_byte a \<and> list_all space_byte b"
proof -
  obtain a where a: "s = a @ trim_space_left s" "\<forall>c \<in> set a. \<exists>e \<in> set space_encodings. c \<in> set e"
    using trim_left_of_split [of s space_encodings] unfolding trim_space_left_def by blast
  obtain b where b: "rev (trim_space_left s) = b @ rev (trim_space s)"
      "\<forall>c \<in> set b. \<exists>e \<in> set (map rev space_encodings). c \<in> set e"
    using trim_left_of_split [of "rev (trim_space_left s)" "map rev space_encodings"]
    unfolding trim_space_def trim_space_right_def by auto
  have "trim_space_left s = trim_space s @ rev b"
    using arg_cong [OF b(1), of rev] by simp
  with a(1) have "s = a @ trim_space s @ rev b" by simp
  moreover have "list_all space_byte a" using a(2) by (simp add: list_all_iff space_byte_def)
  moreover have "list_all space_byte (rev b)" using b(2) by (simp add: list_all_iff space_byte_def)
  ultimately show ?thesis by blast
qed

lemma trim_space_Nil [simp]: "trim_space [] = []"
  using trim_space_split [of "[]"] by simp

lemma trim_space_visible:
  assumes "s \<noteq> []" and "visible (hd s)" and "visible (last s)"
  shows "trim_space s = s"
proof -
  obtain c t where s: "s = c # t" using assms(1) by (cases s) auto
  have no: "\<And>e. e \<in> set space_encodings \<Longrightarrow> e \<noteq> [] \<Longrightarrow> hd e \<noteq> hd s \<and> last e \<noteq> last s"
    using assms(2,3) space_byte_not_visible unfolding space_byte_def
    by (metis hd_in_set last_in_set)
  then have l: "trim_space_left s = s"
    unfolding trim_space_left_def s by (intro trim_left_of_id) auto
  obtain d u where r: "rev s = d # u" using assms(1) by (cases "rev s") auto
  then have d: "d = last s" by (metis hd_rev list.sel(1))
  have "trim_left_of (map rev space_encodings) (rev s) = rev s"
    unfolding r using no d by (intro trim_left_of_id) (auto simp: hd_rev)
  with l show ?thesis by (simp add: trim_space_def trim_space_right_def)
qed

text \<open>The five ASCII bytes that \<^verbatim>\<open>\s\<close> of \<^verbatim>\<open>regexp\<close> matches are tab, newline, form feed, return, space.\<close>

definition re_space :: "char \<Rightarrow> bool" where
  "re_space c =
     (c = CHR 0x09 \<or> c = CHR 0x0A \<or> c = CHR 0x0C \<or> c = CHR 0x0D \<or> c = CHR 0x20)"

subsection \<open>Numbers in strings\<close>

definition is_digit :: "char \<Rightarrow> bool" where
  "is_digit c = (48 \<le> (of_char c :: nat) \<and> (of_char c :: nat) \<le> 57)"

definition digit_val :: "char \<Rightarrow> int" where
  "digit_val c = int (of_char c) - 48"

definition dec_val :: "string \<Rightarrow> int" where
  "dec_val s = foldl (\<lambda>acc c. acc * 10 + digit_val c) 0 s"

text \<open>
  \<^verbatim>\<open>strconv.ParseInt(s, 10, 64)\<close>: an optional sign, then one or more decimal digits; a value out
  of range is an error too.
\<close>

definition parse_digits :: "string \<Rightarrow> int option" where
  "parse_digits s = (if s \<noteq> [] \<and> list_all is_digit s then Some (dec_val s) else None)"

definition parse_int_syntax :: "string \<Rightarrow> int option" where
  "parse_int_syntax s =
     (case s of
        [] \<Rightarrow> None
      | c # cs \<Rightarrow>
          if c = CHR ''+'' then parse_digits cs
          else if c = CHR ''-'' then map_option uminus (parse_digits cs)
          else parse_digits (c # cs))"

definition ErrSyntax :: gerr where "ErrSyntax = Sentinel ''invalid syntax''"
definition ErrRange :: gerr where "ErrRange = Sentinel ''value out of range''"

definition ParseInt :: "string \<Rightarrow> int go" where
  "ParseInt s =
     (case parse_int_syntax s of
        None \<Rightarrow> Err (Wrapped ''strconv.ParseInt'' ErrSyntax)
      | Some i \<Rightarrow> if in_int64 i then Ok i else Err (Wrapped ''strconv.ParseInt'' ErrRange))"

lemma dec_val_Nil [simp]: "dec_val [] = 0"
  by (simp add: dec_val_def)

lemma foldl_dec: "foldl (\<lambda>acc c. acc * 10 + digit_val c) a s = a * 10 ^ length s + dec_val s"
proof (induction s arbitrary: a)
  case Nil
  show ?case by simp
next
  case (Cons c s)
  show ?case
    using Cons [of "a * 10 + digit_val c"] Cons [of "digit_val c"]
    by (simp add: dec_val_def algebra_simps)
qed

lemma dec_val_append: "dec_val (s @ t) = dec_val s * 10 ^ length t + dec_val t"
  using foldl_dec [of "dec_val s" t] by (simp add: dec_val_def)

lemma dec_val_Cons: "dec_val (c # s) = digit_val c * 10 ^ length s + dec_val s"
  using dec_val_append [of "[c]" s] by (simp add: dec_val_def)

lemma digit_val_bounds: "is_digit c \<Longrightarrow> 0 \<le> digit_val c \<and> digit_val c \<le> 9"
  by (auto simp: is_digit_def digit_val_def)

lemma dec_val_nonneg: "list_all is_digit s \<Longrightarrow> 0 \<le> dec_val s"
  by (induction s) (auto simp: dec_val_Cons dest: digit_val_bounds)

lemma dec_val_less: "list_all is_digit s \<Longrightarrow> dec_val s < 10 ^ length s"
proof (induction s)
  case Nil
  show ?case by simp
next
  case (Cons c s)
  then have IH: "dec_val s < 10 ^ length s" and d: "digit_val c \<le> 9"
    by (auto dest: digit_val_bounds)
  have "digit_val c * 10 ^ length s \<le> 9 * 10 ^ length s"
    using d by (intro mult_right_mono) auto
  with IH have "digit_val c * 10 ^ length s + dec_val s < 9 * 10 ^ length s + 10 ^ length s"
    by linarith
  then show ?case by (simp add: dec_val_Cons)
qed

lemma digit_zero: "digit_val (CHR ''0'') = 0" "is_digit (CHR ''0'')"
  by (simp_all add: digit_val_def is_digit_def)

lemma dec_val_zeros: "dec_val (replicate n (CHR ''0'')) = 0"
  by (induction n) (simp_all add: dec_val_Cons digit_zero)

lemma digit_val_eq_0: "is_digit c \<Longrightarrow> digit_val c = 0 \<longleftrightarrow> c = CHR ''0''"
proof -
  assume "is_digit c"
  have "digit_val c = 0 \<longleftrightarrow> (of_char c :: nat) = of_char (CHR ''0'')"
    by (simp add: digit_val_def)
  then show ?thesis by (simp only: of_char_eq_iff)
qed

text \<open>A digit is neither a sign nor a dot, so an unsigned literal parses as its digits.\<close>

lemma digit_not_sign: "is_digit c \<Longrightarrow> c \<noteq> CHR ''+'' \<and> c \<noteq> CHR ''-'' \<and> c \<noteq> CHR ''.''"
  by (auto simp: is_digit_def)

lemma parse_int_syntax_digits:
  "s \<noteq> [] \<Longrightarrow> list_all is_digit s \<Longrightarrow> parse_int_syntax s = Some (dec_val s)"
  by (cases s) (auto simp: parse_int_syntax_def parse_digits_def dest: digit_not_sign)

lemma ParseInt_digits:
  "s \<noteq> [] \<Longrightarrow> list_all is_digit s \<Longrightarrow> in_int64 (dec_val s) \<Longrightarrow> ParseInt s = Ok (dec_val s)"
  by (simp add: ParseInt_def parse_int_syntax_digits)

lemma ParseInt_Ok_in: "ParseInt s = Ok i \<Longrightarrow> in_int64 i"
  by (auto simp: ParseInt_def split: option.splits if_splits)


text \<open>The verb \<^verbatim>\<open>%d\<close>, and \<^verbatim>\<open>strconv.Itoa\<close>.\<close>

definition digit_char :: "nat \<Rightarrow> char" where
  "digit_char n = char_of (48 + n mod 10)"

fun show_nat :: "nat \<Rightarrow> string" where
  "show_nat n = (if n < 10 then [digit_char n] else show_nat (n div 10) @ [digit_char n])"

declare show_nat.simps [simp del]

definition show_int :: "int \<Rightarrow> string" where
  "show_int i = (if i < 0 then CHR ''-'' # show_nat (nat (- i)) else show_nat (nat i))"

lemma digit_char: "is_digit (digit_char n)" "digit_val (digit_char n) = int (n mod 10)"
proof -
  have l: "(48 + n mod 10) mod 256 = 48 + n mod 10" by (rule mod_less) simp
  then have "(of_char (digit_char n) :: nat) = 48 + n mod 10"
    by (simp add: digit_char_def of_char_of)
  then show "is_digit (digit_char n)" "digit_val (digit_char n) = int (n mod 10)"
    by (simp_all add: is_digit_def digit_val_def)
qed

lemma show_nat_digits: "list_all is_digit (show_nat n) \<and> show_nat n \<noteq> [] \<and> dec_val (show_nat n) = int n"
proof (induction n rule: show_nat.induct)
  case (1 n)
  show ?case
  proof (cases "n < 10")
    case True
    then show ?thesis by (simp add: show_nat.simps [of n] digit_char dec_val_Cons)
  next
    case False
    have "int n = int (n div 10) * 10 + int (n mod 10)"
      by (metis div_mult_mod_eq of_nat_add of_nat_mult of_nat_numeral)
    with False 1 show ?thesis
      by (simp add: show_nat.simps [of n] digit_char dec_val_append dec_val_Cons)
  qed
qed

lemma ParseInt_show_int:
  assumes "in_int64 i"
  shows "ParseInt (show_int i) = Ok i"
proof (cases "i < 0")
  case True
  then show ?thesis
    using show_nat_digits [of "nat (- i)"] assms
    by (simp add: show_int_def ParseInt_def parse_int_syntax_def parse_digits_def)
next
  case False
  then show ?thesis
    using show_nat_digits [of "nat i"] assms by (simp add: show_int_def ParseInt_digits)
qed

end
