(* ===== verification/Plural_Operands.thy ===== *)
theory Plural_Operands
  imports Prelude
begin

section \<open>Plural operands (internal/pkg/localize/plural/operands.go, form.go)\<close>

text \<open>
  The CLDR operands of a number and how the code computes them from an integer or from a
  decimal string.  \<^verbatim>\<open>float64\<close> occurs only as the field \<^verbatim>\<open>N\<close>, which no rule reads: its type is the
  parameter \<open>'f\<close>, the conversion from \<^verbatim>\<open>int64\<close> and \<^verbatim>\<open>strconv.ParseFloat\<close> are the arguments
  \<open>f64\<close> and \<open>pf\<close> of the operations that call them.  The numeric meaning of a decimal literal is
  \<open>dec_rat\<close>, of the operands \<open>n_val\<close>; the main lemmas say that moving the decimal point
  multiplies by a power of ten and that the operands denote the literal's absolute value.
\<close>

datatype form = Invalid | Zero | One | Two | Few | Many | Other

record 'f operands =
  op_N :: 'f
  op_I :: int
  op_V :: int
  op_W :: int
  op_F :: int
  op_T :: int
  op_C :: int

definition NEqualsAny :: "'f operands \<Rightarrow> int list \<Rightarrow> bool" where
  "NEqualsAny ops args = list_ex (\<lambda>i. op_I ops = i \<and> op_T ops = 0) args"

definition NModEqualsAny :: "'f operands \<Rightarrow> int \<Rightarrow> int list \<Rightarrow> bool" where
  "NModEqualsAny ops m args =
     (let modI = go_rem (op_I ops) m in list_ex (\<lambda>i. modI = i \<and> op_T ops = 0) args)"

definition NInRange :: "'f operands \<Rightarrow> int \<Rightarrow> int \<Rightarrow> bool" where
  "NInRange ops from to = (op_T ops = 0 \<and> from \<le> op_I ops \<and> op_I ops \<le> to)"

definition NModInRange :: "'f operands \<Rightarrow> int \<Rightarrow> int \<Rightarrow> int \<Rightarrow> bool" where
  "NModInRange ops m from to =
     (let modI = go_rem (op_I ops) m in op_T ops = 0 \<and> from \<le> modI \<and> modI \<le> to)"

subsection \<open>From an integer\<close>

definition newOperandsInt64 :: "(int \<Rightarrow> 'f) \<Rightarrow> int \<Rightarrow> 'f operands" where
  "newOperandsInt64 f64 i =
     (let i = (if i < 0 then wrap64 (- i) else i)
      in \<lparr>op_N = f64 i, op_I = i, op_V = 0, op_W = 0, op_F = 0, op_T = 0, op_C = 0\<rparr>)"

subsection \<open>From a string\<close>

definition slice :: "string \<Rightarrow> int \<Rightarrow> int \<Rightarrow> string" where
  "slice s a b = take (nat (b - a)) (drop (nat a) s)"

definition splitSignificandExponent :: "string \<Rightarrow> string \<times> string" where
  "splitSignificandExponent s =
     (case find_index (\<lambda>c. c = CHR ''e'' \<or> c = CHR ''E'') s of
        None \<Rightarrow> (s, [])
      | Some i \<Rightarrow> (take i s, drop (Suc i) s))"

definition shiftDecimalLeft :: "string \<Rightarrow> int \<Rightarrow> string" where
  "shiftDecimalLeft s n =
     (if n \<le> 0 then s
      else
        let (i, tilt) =
              (case find_index (\<lambda>c. c = CHR ''.'') s of
                 None \<Rightarrow> (int (length s), - 1)
               | Some i \<Rightarrow> (int i, 0))
        in if n = i then ''0.'' @ slice s 0 i @ drop (nat (i + 1 + tilt)) s
           else if i < n
             then ''0.'' @ replicate (nat (n - i)) (CHR ''0'') @ slice s 0 i @
                  drop (nat (i + 1 + tilt)) s
             else slice s 0 (i - n) @ ''.'' @ slice s (i - n) i @ drop (nat (i + 1 + tilt)) s)"

definition shiftDecimalRight :: "string \<Rightarrow> int \<Rightarrow> string" where
  "shiftDecimalRight s n =
     (if n \<le> 0 then s
      else case find_index (\<lambda>c. c = CHR ''.'') s of
        None \<Rightarrow> s @ replicate (nat n) (CHR ''0'')
      | Some j \<Rightarrow>
          let i = int j; rest = int (length s) - i - 1
          in if n = rest then slice s 0 i @ drop (nat (i + 1)) s
             else if rest < n
               then slice s 0 i @ drop (nat (i + 1)) s @ replicate (nat (n - rest)) (CHR ''0'')
               else slice s 0 i @ slice s (i + 1) (i + 1 + n) @ ''.'' @ drop (nat (i + 1 + n)) s)"

definition applyExponent :: "string \<Rightarrow> int \<Rightarrow> string" where
  "applyExponent s exponent =
     (if 0 < exponent then shiftDecimalRight s exponent
      else if exponent < 0 then shiftDecimalLeft s (wrap64 (- exponent))
      else s)"

text \<open>\<^verbatim>\<open>strings.SplitN(value, ".", 2)\<close>: the part before the first dot, and the part after it, if any.\<close>

definition split_dot :: "string \<Rightarrow> string \<times> string option" where
  "split_dot s =
     (case find_index (\<lambda>c. c = CHR ''.'') s of
        None \<Rightarrow> (s, None)
      | Some i \<Rightarrow> (take i s, Some (drop (Suc i) s)))"

text \<open>The loop from the last fraction digit down to the first one that is not \<^verbatim>\<open>'0'\<close>.\<close>

fun fraction_W :: "string \<Rightarrow> nat \<Rightarrow> nat" where
  "fraction_W fraction 0 = 0"
| "fraction_W fraction (Suc i) =
     (if fraction ! i \<noteq> CHR ''0'' then Suc i else fraction_W fraction i)"

text \<open>The last part of \<^verbatim>\<open>newOperandsString\<close>: the operands of a value whose exponent has been applied.\<close>

definition operandsOfValue :: "'f \<Rightarrow> int \<Rightarrow> string \<Rightarrow> 'f operands go" where
  "operandsOfValue N C value =
     (let (ipart, rest) = split_dot value in
      go_bind (ParseInt ipart) (\<lambda>I.
        case rest of
          None \<Rightarrow> Ok \<lparr>op_N = N, op_I = I, op_V = 0, op_W = 0, op_F = 0, op_T = 0, op_C = C\<rparr>
        | Some fraction \<Rightarrow>
           (let V = length fraction; W = fraction_W fraction V in
            go_bind (if 0 < V then ParseInt fraction else Ok 0) (\<lambda>F.
              go_bind (if 0 < W then ParseInt (take W fraction) else Ok 0) (\<lambda>T.
                Ok \<lparr>op_N = N, op_I = I, op_V = int V, op_W = int W,
                    op_F = F, op_T = T, op_C = C\<rparr>)))))"

definition newOperandsString :: "(string \<Rightarrow> 'f go) \<Rightarrow> string \<Rightarrow> 'f operands go" where
  "newOperandsString pf s =
     (case s of
        [] \<Rightarrow> Panic ''index out of range''
      | c # cs \<Rightarrow>
         (let s = (if c = CHR ''-'' then cs else c # cs) in
          go_bind (pf s) (\<lambda>N.
            let (significand, exponent) = splitSignificandExponent s in
            go_bind (if exponent \<noteq> [] then ParseInt exponent else Ok 0) (\<lambda>C.
              operandsOfValue N C (applyExponent significand C)))))"

text \<open>The dynamic type of the plural count: any integer kind, a string, or something refused.\<close>

datatype number =
    NInt int | NInt8 int | NInt16 int | NInt32 int | NInt64 int
  | NString string | NFloat32 | NFloat64 | NOther string

definition ErrFloat :: gerr where
  "ErrFloat = Sentinel ''floats should be formatted into a string''"

definition NewOperands ::
    "(int \<Rightarrow> 'f) \<Rightarrow> (string \<Rightarrow> 'f go) \<Rightarrow> number \<Rightarrow> 'f operands go" where
  "NewOperands f64 pf number =
     (case number of
        NInt i \<Rightarrow> Ok (newOperandsInt64 f64 i)
      | NInt8 i \<Rightarrow> Ok (newOperandsInt64 f64 i)
      | NInt16 i \<Rightarrow> Ok (newOperandsInt64 f64 i)
      | NInt32 i \<Rightarrow> Ok (newOperandsInt64 f64 i)
      | NInt64 i \<Rightarrow> Ok (newOperandsInt64 f64 i)
      | NString s \<Rightarrow> newOperandsString pf s
      | NFloat32 \<Rightarrow> Err ErrFloat
      | NFloat64 \<Rightarrow> Err ErrFloat
      | NOther ty \<Rightarrow> Err (Sentinel (''invalid type '' @ ty)))"

subsection \<open>Plain decimals and their value\<close>

text \<open>\<open>frac_of\<close> keeps only what follows the dot; \<open>digits_of\<close> drops the dot.\<close>

definition plain_parts :: "string \<Rightarrow> string option \<Rightarrow> string" where
  "plain_parts ip fp = (case fp of None \<Rightarrow> ip | Some f \<Rightarrow> ip @ CHR ''.'' # f)"

definition plain :: "string \<Rightarrow> bool" where
  "plain s = (case split_dot s of (ip, fp) \<Rightarrow>
     list_all is_digit ip \<and> (case fp of None \<Rightarrow> True | Some f \<Rightarrow> list_all is_digit f))"

definition dec_rat :: "string \<Rightarrow> rat" where
  "dec_rat s = (case split_dot s of (ip, fp) \<Rightarrow>
     of_int (dec_val ip) +
     (case fp of None \<Rightarrow> 0 | Some f \<Rightarrow> of_int (dec_val f) / 10 ^ length f))"

definition n_val :: "'f operands \<Rightarrow> rat" where
  "n_val ops = of_int (op_I ops) + of_int (op_T ops) / 10 ^ nat (op_W ops)"

text \<open>What the operands of every number satisfy.\<close>

definition wf_operands :: "'f operands \<Rightarrow> bool" where
  "wf_operands ops \<longleftrightarrow>
     0 \<le> op_I ops \<and> 0 \<le> op_W ops \<and> op_W ops \<le> op_V ops \<and>
     0 \<le> op_T ops \<and> op_T ops < 10 ^ nat (op_W ops) \<and>
     op_F ops = op_T ops * 10 ^ nat (op_V ops - op_W ops) \<and>
     (op_T ops mod 10 = 0 \<longrightarrow> op_T ops = 0 \<and> op_W ops = 0)"

lemma no_dot: "list_all is_digit s \<Longrightarrow> \<forall>c \<in> set s. c \<noteq> CHR ''.''"
  by (auto simp: list_all_iff dest: digit_not_sign)

lemma find_dot_None: "list_all is_digit s \<Longrightarrow> find_index (\<lambda>c. c = CHR ''.'') s = None"
  using no_dot by (simp add: find_index_None)

lemma find_dot_Some:
  "list_all is_digit ip \<Longrightarrow> find_index (\<lambda>c. c = CHR ''.'') (ip @ CHR ''.'' # f) = Some (length ip)"
  using no_dot by (intro find_index_append) auto

lemma split_dot_plain:
  "list_all is_digit ip \<Longrightarrow> split_dot (plain_parts ip fp) = (ip, fp)"
  by (cases fp) (simp_all add: split_dot_def plain_parts_def find_dot_None find_dot_Some)

lemma split_dot_parts: "split_dot s = (ip, fp) \<Longrightarrow> s = plain_parts ip fp"
proof (induction s arbitrary: ip fp)
  case Nil
  then show ?case by (simp add: split_dot_def plain_parts_def)
next
  case (Cons c s)
  show ?case
  proof (cases "c = CHR ''.''")
    case True
    with Cons.prems show ?thesis by (auto simp: split_dot_def plain_parts_def)
  next
    case False
    obtain ip' fp' where s: "split_dot s = (ip', fp')" by (cases "split_dot s")
    with False Cons.prems have "ip = c # ip'" and "fp = fp'"
      by (auto simp: split_dot_def split: option.splits)
    with Cons.IH [OF s] show ?thesis by (simp add: plain_parts_def split: option.splits)
  qed
qed

lemma plainE:
  assumes "plain s"
  obtains ip fp where "s = plain_parts ip fp" "list_all is_digit ip" "list_all is_digit (case_option [] id fp)"
proof -
  obtain ip fp where sd: "split_dot s = (ip, fp)" by (cases "split_dot s")
  with assms have "list_all is_digit ip" "list_all is_digit (case_option [] id fp)"
    by (auto simp: plain_def split: option.splits)
  with split_dot_parts [OF sd] that show thesis by blast
qed

lemma plain_partsI:
  "list_all is_digit ip \<Longrightarrow> list_all is_digit (case_option [] id fp) \<Longrightarrow> plain (plain_parts ip fp)"
  by (auto simp: plain_def split_dot_plain split: option.splits)

lemma dec_rat_parts:
  assumes "list_all is_digit ip"
  shows "dec_rat (plain_parts ip fp) =
    of_int (dec_val (ip @ case_option [] id fp)) / 10 ^ length (case_option [] id fp)"
  using assms
  by (cases fp) (simp_all add: dec_rat_def split_dot_plain dec_val_append field_simps)

subsection \<open>Moving the decimal point\<close>

lemma slice_0: "slice s 0 (int n) = take n s"
  by (simp add: slice_def)

lemma shiftDecimalRight_parts:
  assumes "list_all is_digit ip" and "0 < n"
  shows "shiftDecimalRight (plain_parts ip fp) (int n) =
    (let f = case_option [] id fp in
     if fp = None \<or> length f \<le> n then ip @ f @ replicate (n - length f) (CHR ''0'')
     else ip @ take n f @ CHR ''.'' # drop n f)"
proof (cases fp)
  case None
  with assms show ?thesis
    by (simp add: shiftDecimalRight_def plain_parts_def find_dot_None)
next
  case (Some f)
  have d: "drop (Suc (length ip)) (ip @ CHR ''.'' # f) = f" by simp
  have sl: "slice (ip @ CHR ''.'' # f) (int (length ip) + 1) (int (length ip) + 1 + int n) = take n f"
    by (simp add: slice_def nat_add_distrib)
  have dr: "drop (nat (int (length ip) + 1 + int n)) (ip @ CHR ''.'' # f) = drop n f"
    by (simp add: nat_add_distrib)
  have sl0: "slice (ip @ CHR ''.'' # f) 0 (int (length ip)) = ip"
    by (simp add: slice_0)
  have n1: "nat (int (length ip) + 1) = Suc (length ip)" by simp
  have nn: "nat (int n - int (length f)) = n - length f" by simp
  have nd: "nat (int (length ip) + 1 + int n) - length ip = Suc n" by (simp add: nat_add_distrib)
  show ?thesis
    using assms Some
    by (simp add: shiftDecimalRight_def plain_parts_def find_dot_Some Let_def sl dr sl0 n1 nn nd
        del: append.simps)
qed

lemma shiftDecimalLeft_parts:
  assumes "list_all is_digit ip" and "0 < n"
  shows "shiftDecimalLeft (plain_parts ip fp) (int n) =
    (let f = case_option [] id fp in
     if length ip \<le> n then ''0.'' @ replicate (n - length ip) (CHR ''0'') @ ip @ f
     else take (length ip - n) ip @ CHR ''.'' # drop (length ip - n) ip @ f)"
proof -
  define i where "i = length ip"
  define t where "t = (if fp = None then - 1 else 0 :: int)"
  have find: "(case find_index (\<lambda>c. c = CHR ''.'') (plain_parts ip fp) of
      None \<Rightarrow> (int (length (plain_parts ip fp)), - 1) | Some i \<Rightarrow> (int i, 0)) = (int i, t)"
    using assms by (cases fp) (simp_all add: plain_parts_def find_dot_None find_dot_Some i_def t_def)
  have rest: "drop (nat (int i + 1 + t)) (plain_parts ip fp) = case_option [] id fp"
    by (cases fp) (simp_all add: plain_parts_def i_def t_def nat_add_distrib)
  have sl0: "slice (plain_parts ip fp) 0 (int i) = ip"
    by (cases fp) (simp_all add: plain_parts_def i_def slice_0)
  have sl1: "n \<le> i \<Longrightarrow> slice (plain_parts ip fp) 0 (int i - int n) = take (i - n) ip"
    by (cases fp) (simp_all add: plain_parts_def i_def slice_def nat_diff_distrib)
  have sl2: "n \<le> i \<Longrightarrow> slice (plain_parts ip fp) (int i - int n) (int i) = drop (i - n) ip"
    by (cases fp) (simp_all add: plain_parts_def i_def slice_def nat_diff_distrib)
  have nn: "nat (int n - int i) = n - i" by simp
  show ?thesis
    using assms
    by (simp add: shiftDecimalLeft_def find rest sl0 sl1 sl2 nn Let_def flip: i_def)
qed

lemma digits_replicate: "list_all is_digit (replicate n (CHR ''0''))"
  by (simp add: list_all_iff digit_zero)

lemma digits_take_drop:
  "list_all is_digit s \<Longrightarrow> list_all is_digit (take n s)"
  "list_all is_digit s \<Longrightarrow> list_all is_digit (drop n s)"
  by (auto simp: list_all_iff dest: in_set_takeD in_set_dropD)

lemma shiftDecimalRight_value:
  assumes "plain s" and "0 < n"
  shows "plain (shiftDecimalRight s (int n)) \<and>
    dec_rat (shiftDecimalRight s (int n)) = dec_rat s * 10 ^ n"
proof -
  obtain ip fp where s: "s = plain_parts ip fp" and ip: "list_all is_digit ip"
    and f: "list_all is_digit (case_option [] id fp)"
    using assms(1) by (rule plainE)
  define g where "g = case_option [] id fp"
  have val: "dec_rat s = of_int (dec_val (ip @ g)) / 10 ^ length g"
    unfolding s g_def by (rule dec_rat_parts [OF ip])
  have g: "list_all is_digit g" using f by (simp add: g_def)
  show ?thesis
  proof (cases "fp = None \<or> length g \<le> n")
    case True
    define r where "r = ip @ g @ replicate (n - length g) (CHR ''0'')"
    have eq: "shiftDecimalRight s (int n) = plain_parts r None"
      unfolding s shiftDecimalRight_parts [OF ip assms(2)]
      using True by (simp add: Let_def plain_parts_def r_def flip: g_def)
    have r: "list_all is_digit r"
      using ip g by (simp add: r_def digits_replicate)
    have le: "length g \<le> n" using True by (auto simp: g_def)
    have "dec_rat (plain_parts r None) = of_int (dec_val (ip @ g)) * 10 ^ (n - length g)"
      using dec_rat_parts [OF r, of None]
      by (simp add: r_def dec_val_append [of "ip @ g" "replicate (n - length g) (CHR ''0'')", simplified]
          dec_val_zeros)
    also have "\<dots> = dec_rat s * 10 ^ n"
      using le by (simp add: val power_diff field_simps)
    finally show ?thesis
      using plain_partsI [OF r, of None] by (simp add: eq)
  next
    case False
    then have lt: "n < length g" by simp
    have eq: "shiftDecimalRight s (int n) = plain_parts (ip @ take n g) (Some (drop n g))"
      unfolding s shiftDecimalRight_parts [OF ip assms(2)]
      using False by (auto simp add: Let_def plain_parts_def simp flip: g_def)
    have it: "list_all is_digit (ip @ take n g)"
      using ip g by (simp add: digits_take_drop)
    have "dec_rat (plain_parts (ip @ take n g) (Some (drop n g))) =
        of_int (dec_val (ip @ g)) / 10 ^ (length g - n)"
      using dec_rat_parts [OF it, of "Some (drop n g)"] by simp
    also have "\<dots> = dec_rat s * 10 ^ n"
      using lt by (simp add: val power_diff field_simps)
    finally show ?thesis
      using plain_partsI [OF it, of "Some (drop n g)"] g by (simp add: eq digits_take_drop)
  qed
qed

lemma shiftDecimalLeft_value:
  assumes "plain s" and "0 < n"
  shows "plain (shiftDecimalLeft s (int n)) \<and>
    dec_rat (shiftDecimalLeft s (int n)) = dec_rat s / 10 ^ n"
proof -
  obtain ip fp where s: "s = plain_parts ip fp" and ip: "list_all is_digit ip"
    and f: "list_all is_digit (case_option [] id fp)"
    using assms(1) by (rule plainE)
  define g where "g = case_option [] id fp"
  have val: "dec_rat s = of_int (dec_val (ip @ g)) / 10 ^ length g"
    unfolding s g_def by (rule dec_rat_parts [OF ip])
  have g: "list_all is_digit g" using f by (simp add: g_def)
  define k where "k = (if length ip \<le> n then [] else take (length ip - n) ip)"
  define h where "h = (if length ip \<le> n then replicate (n - length ip) (CHR ''0'') @ ip @ g
                       else drop (length ip - n) ip @ g)"
  define z where "z = (if length ip \<le> n then [CHR ''0''] else k)"
  have eq: "shiftDecimalLeft s (int n) = plain_parts z (Some h)"
    unfolding s shiftDecimalLeft_parts [OF ip assms(2)]
    by (simp add: Let_def plain_parts_def z_def h_def k_def flip: g_def)
  have z: "list_all is_digit z" and h: "list_all is_digit h"
    using ip g by (simp_all add: z_def k_def h_def digits_take_drop digits_replicate digit_zero)
  have len: "length h = n + length g"
    by (simp add: h_def)
  have dv: "dec_val (z @ h) = dec_val (ip @ g)"
  proof (cases "length ip \<le> n")
    case True
    then have "dec_val (z @ h) =
        dec_val (replicate (Suc (n - length ip)) (CHR ''0'') @ ip @ g)"
      by (simp add: z_def h_def)
    also have "\<dots> = dec_val (ip @ g)"
      by (simp only: dec_val_append [of "replicate (Suc (n - length ip)) (CHR ''0'')"] dec_val_zeros)
    finally show ?thesis .
  next
    case False
    then have "z @ h = ip @ g" by (simp add: z_def h_def k_def)
    then show ?thesis by simp
  qed
  have "dec_rat (plain_parts z (Some h)) = dec_rat s / 10 ^ n"
    using dec_rat_parts [OF z, of "Some h"] by (simp add: dv len val power_add field_simps)
  with plain_partsI [OF z, of "Some h"] h show ?thesis by (simp add: eq)
qed

lemma applyExponent_plain_value:
  assumes "plain s" and "in_int64 e" and "e \<noteq> min_int64"
  shows "plain (applyExponent s e) \<and> dec_rat (applyExponent s e) = dec_rat s * 10 powi e"
proof (cases "e = 0")
  case True
  with assms show ?thesis by (simp add: applyExponent_def)
next
  case False
  show ?thesis
  proof (cases "0 < e")
    case True
    then obtain n where e: "e = int n" and "0 < n"
      by (intro that [of "nat e"]) auto
    with shiftDecimalRight_value [OF assms(1)] show ?thesis
      by (simp add: applyExponent_def)
  next
    case neg: False
    with False obtain n where e: "e = - int n" and n: "0 < n"
      by (intro that [of "nat (- e)"]) auto
    have "in_int64 (int n)"
      using assms(2,3) e by (auto simp: in_int64_def min_int64_def max_int64_def)
    then have "wrap64 (- e) = int n"
      by (simp add: e wrap64_id)
    with shiftDecimalLeft_value [OF assms(1) n] n show ?thesis
      by (simp add: applyExponent_def e power_int_minus field_simps)
  qed
qed

subsection \<open>The operands of a decimal literal\<close>

lemma fraction_W_le: "fraction_W f n \<le> n"
  by (induction n) auto

lemma fraction_W_take:
  "n \<le> length f \<Longrightarrow> take n f = take (fraction_W f n) f @ replicate (n - fraction_W f n) (CHR ''0'')"
proof (induction n)
  case 0
  show ?case by simp
next
  case (Suc n)
  show ?case
  proof (cases "f ! n = CHR ''0''")
    case True
    have "take (Suc n) f = take n f @ [CHR ''0'']"
      using Suc.prems True by (simp add: take_Suc_conv_app_nth)
    also have "\<dots> = take (fraction_W f n) f @ replicate (Suc n - fraction_W f n) (CHR ''0'')"
      using Suc fraction_W_le [of f n]
      by (simp add: Suc_diff_le replicate_append_same flip: replicate_Suc)
    finally show ?thesis using True by simp
  qed simp
qed

lemma fraction_W_last: "0 < fraction_W f n \<Longrightarrow> f ! (fraction_W f n - 1) \<noteq> CHR ''0''"
  by (induction n) auto

lemma fraction_split:
  assumes "list_all is_digit f"
  defines "W \<equiv> fraction_W f (length f)"
  shows "dec_val f = dec_val (take W f) * 10 ^ (length f - W)"
    and "dec_val (take W f) mod 10 = 0 \<longrightarrow> W = 0"
    and "0 \<le> dec_val (take W f)" and "dec_val (take W f) < 10 ^ W"
proof -
  have W: "W \<le> length f" unfolding W_def by (rule fraction_W_le)
  have f: "f = take W f @ replicate (length f - W) (CHR ''0'')"
    using fraction_W_take [of "length f" f] by (simp add: W_def)
  show "dec_val f = dec_val (take W f) * 10 ^ (length f - W)"
    by (subst f) (simp add: dec_val_append dec_val_zeros)
  have d: "list_all is_digit (take W f)" using assms by (simp add: digits_take_drop)
  show "0 \<le> dec_val (take W f)" by (rule dec_val_nonneg [OF d])
  show "dec_val (take W f) < 10 ^ W" using dec_val_less [OF d] W by (simp add: min_absorb2)
  show "dec_val (take W f) mod 10 = 0 \<longrightarrow> W = 0"
  proof (intro impI, rule ccontr)
    assume m: "dec_val (take W f) mod 10 = 0" and "W \<noteq> 0"
    then obtain k where k: "W = Suc k" by (cases W) auto
    then have kf: "k < length f" using W by simp
    then have "take W f = take k f @ [f ! k]" by (simp add: k take_Suc_conv_app_nth)
    then have "digit_val (f ! k) mod 10 = 0" using m by (simp add: dec_val_append dec_val_Cons mod_add_eq)
    moreover have "is_digit (f ! k)" using assms kf by (simp add: list_all_length)
    ultimately have "digit_val (f ! k) = 0" using digit_val_bounds [of "f ! k"] by auto
    then have "f ! k = CHR ''0''" using digit_val_eq_0 \<open>is_digit (f ! k)\<close> by blast
    moreover have "f ! k \<noteq> CHR ''0''" using fraction_W_last [of f "length f"] k by (simp add: W_def)
    ultimately show False by contradiction
  qed
qed

lemma ParseInt_digits_Ok:
  assumes "list_all is_digit s" and "ParseInt s = Ok i"
  shows "i = dec_val s"
proof (cases "s = []")
  case True
  with assms show ?thesis by (simp add: ParseInt_def parse_int_syntax_def)
next
  case False
  with assms show ?thesis by (auto simp: ParseInt_def parse_int_syntax_digits split: if_splits)
qed

lemma ParseInt_zeros_Ok:
  "list_all is_digit s \<Longrightarrow> (if 0 < length s then ParseInt s else Ok 0) = Ok i \<Longrightarrow> i = dec_val s"
  by (cases "s = []") (auto dest: ParseInt_digits_Ok)

lemma splitSignificandExponent_literal:
  assumes "plain sig" and "c = CHR ''e'' \<or> c = CHR ''E''"
  shows "splitSignificandExponent (sig @ (if ex = [] then [] else c # ex)) = (sig, ex)"
proof -
  have no_e: "\<forall>x \<in> set sig. \<not> (x = CHR ''e'' \<or> x = CHR ''E'')"
  proof -
    obtain ip fp where "sig = plain_parts ip fp" "list_all is_digit ip"
        "list_all is_digit (case_option [] id fp)"
      using assms(1) by (rule plainE)
    then show ?thesis
      by (cases fp) (auto simp: plain_parts_def list_all_iff is_digit_def)
  qed
  show ?thesis
  proof (cases "ex = []")
    case True
    have "find_index (\<lambda>x. x = CHR ''e'' \<or> x = CHR ''E'') sig = None"
      using no_e by (simp add: find_index_None)
    with True show ?thesis by (simp add: splitSignificandExponent_def)
  next
    case False
    have "find_index (\<lambda>x. x = CHR ''e'' \<or> x = CHR ''E'') (sig @ c # ex) = Some (length sig)"
      using no_e assms(2) by (intro find_index_append) auto
    with False show ?thesis by (simp add: splitSignificandExponent_def)
  qed
qed

text \<open>The parsed parts of a successful result.\<close>

definition fraction_fields :: "'f operands \<Rightarrow> string option \<Rightarrow> bool" where
  "fraction_fields ops rest =
     (case rest of
        None \<Rightarrow> op_V ops = 0 \<and> op_W ops = 0 \<and> op_F ops = 0 \<and> op_T ops = 0
      | Some f \<Rightarrow> op_V ops = int (length f) \<and> op_W ops = int (fraction_W f (length f)) \<and>
          (if 0 < length f then ParseInt f else Ok 0) = Ok (op_F ops) \<and>
          (if 0 < fraction_W f (length f) then ParseInt (take (fraction_W f (length f)) f) else Ok 0)
            = Ok (op_T ops))"

lemma operandsOfValue_parts:
  assumes "operandsOfValue N C value = Ok ops"
  shows "op_C ops = C \<and> (\<exists>ip rest. split_dot value = (ip, rest) \<and>
    ParseInt ip = Ok (op_I ops) \<and> fraction_fields ops rest)"
proof -
  obtain ip rest where sd: "split_dot value = (ip, rest)" by (cases "split_dot value")
  show ?thesis
    using assms
    by (cases rest) (auto simp: operandsOfValue_def sd go_bind_Ok_iff Let_def fraction_fields_def)
qed

text \<open>What remains of the computation once sign and exponent are split off.\<close>

lemma newOperandsString_split:
  fixes ex :: string
  assumes "plain sig" and "c = CHR ''e'' \<or> c = CHR ''E''" and "sg = [] \<or> sg = ''-''"
  defines "lit \<equiv> sig @ (if ex = [] then [] else c # ex)"
  assumes "sg @ lit \<noteq> []"
  shows "newOperandsString pf (sg @ lit) =
    go_bind (pf lit) (\<lambda>N. go_bind (if ex \<noteq> [] then ParseInt ex else Ok 0) (\<lambda>C.
      operandsOfValue N C (applyExponent sig C)))"
proof -
  have lit_split: "splitSignificandExponent lit = (sig, ex)"
    unfolding lit_def by (rule splitSignificandExponent_literal [OF assms(1,2)])
  have nodash: "lit \<noteq> [] \<Longrightarrow> hd lit \<noteq> CHR ''-''"
  proof -
    obtain ip fp where "sig = plain_parts ip fp" "list_all is_digit ip"
        "list_all is_digit (case_option [] id fp)"
      using assms(1) by (rule plainE)
    then show "lit \<noteq> [] \<Longrightarrow> hd lit \<noteq> CHR ''-''"
      using assms(2)
      by (cases ip; cases fp) (auto simp: lit_def plain_parts_def is_digit_def split: if_splits)
  qed
  obtain x xs where sl: "sg @ lit = x # xs" using assms(5) by (cases "sg @ lit") auto
  have tl: "(if x = CHR ''-'' then xs else x # xs) = lit"
    using assms(3) nodash sl by (cases lit) auto
  show ?thesis by (simp add: newOperandsString_def sl tl lit_split)
qed

lemma newOperandsString_literal:
  assumes "plain sig" and "c = CHR ''e'' \<or> c = CHR ''E''" and "sg = [] \<or> sg = ''-''"
    and res: "newOperandsString pf (sg @ sig @ (if ex = [] then [] else c # ex)) = Ok ops"
  obtains ip rest where
    "split_dot (applyExponent sig (op_C ops)) = (ip, rest)" "ParseInt ip = Ok (op_I ops)"
    "in_int64 (op_C ops)"
    "fraction_fields ops rest"
proof -
  have "sg @ sig @ (if ex = [] then [] else c # ex) \<noteq> []"
    using res by (cases "sg @ sig @ (if ex = [] then [] else c # ex)") (simp_all add: newOperandsString_def)
  with res obtain N C where C: "(if ex \<noteq> [] then ParseInt ex else Ok 0) = Ok C"
    and k: "operandsOfValue N C (applyExponent sig C) = Ok ops"
    by (auto simp: newOperandsString_split [OF assms(1-3)] go_bind_Ok_iff)
  have C_in: "in_int64 C"
    using C by (auto split: if_splits dest: ParseInt_Ok_in simp: in_int64_def min_int64_def max_int64_def)
  show thesis
    using that C_in operandsOfValue_parts [OF k] by auto
qed

text \<open>A literal of few enough digits, the exponent applied, has operands.\<close>

lemma dec_val_small: "list_all is_digit s \<Longrightarrow> length s \<le> 18 \<Longrightarrow> in_int64 (dec_val s)"
proof -
  assume d: "list_all is_digit s" and l: "length s \<le> 18"
  have "dec_val s < 10 ^ length s" by (rule dec_val_less [OF d])
  also have "\<dots> \<le> (10::int) ^ 18" using l by (rule power_increasing) simp
  finally show ?thesis using dec_val_nonneg [OF d] by (simp add: in_int64_def min_int64_def max_int64_def)
qed

lemma operandsOfValue_returns:
  assumes "plain value" and "split_dot value = (ip, rest)" and "ip \<noteq> []" and "length ip \<le> 18"
    and "length (case_option [] id rest) \<le> 18"
  shows "\<exists>ops. operandsOfValue N C value = Ok ops"
proof -
  have ip: "list_all is_digit ip" and f: "list_all is_digit (case_option [] id rest)"
    using assms(1) by (auto simp: plain_def assms(2) split: option.splits)
  have part: "\<exists>i. (if 0 < k then ParseInt (take k g) else Ok 0) = Ok i"
    if "list_all is_digit g" "length g \<le> 18" "k \<le> length g" for k g
    using that ParseInt_digits [of "take k g"] dec_val_small [of "take k g"] digits_take_drop(1) [of g k]
    by (cases "k = 0"; cases "g = []") auto
  have I: "ParseInt ip = Ok (dec_val ip)" by (rule ParseInt_digits [OF assms(3) ip dec_val_small [OF ip assms(4)]])
  show ?thesis
  proof (cases rest)
    case None
    then show ?thesis by (simp add: operandsOfValue_def assms(2) I)
  next
    case (Some g)
    then have g: "list_all is_digit g" "length g \<le> 18" using f assms(5) by simp_all
    from part [OF g, of "length g"] obtain F where "(if 0 < length g then ParseInt g else Ok 0) = Ok F"
      by (simp only: take_all order_refl) blast
    moreover from part [OF g fraction_W_le] obtain T where
      "(if 0 < fraction_W g (length g) then ParseInt (take (fraction_W g (length g)) g) else Ok 0) = Ok T" by blast
    ultimately show ?thesis by (simp only: operandsOfValue_def assms(2) I Some Let_def case_prod_conv option.case go_bind.simps) blast
  qed
qed

lemma newOperandsString_returns:
  assumes "plain sig" and "c = CHR ''e'' \<or> c = CHR ''E''" and "sg = [] \<or> sg = ''-''" and "sig \<noteq> []"
    and "pf (sig @ (if ex = [] then [] else c # ex)) = Ok N"
    and e: "(if ex \<noteq> [] then ParseInt ex else Ok 0) = Ok e" and "e \<noteq> min_int64"
    and "split_dot (applyExponent sig e) = (ip, rest)" and "ip \<noteq> []" and "length ip \<le> 18"
    and "length (case_option [] id rest) \<le> 18"
  shows "\<exists>ops. newOperandsString pf (sg @ sig @ (if ex = [] then [] else c # ex)) = Ok ops \<and> op_C ops = e"
proof -
  have "in_int64 e"
    using e by (auto split: if_splits dest: ParseInt_Ok_in simp: in_int64_def min_int64_def max_int64_def)
  then have "plain (applyExponent sig e)" using applyExponent_plain_value [OF assms(1) _ assms(7)] by simp
  from operandsOfValue_returns [OF this assms(8-11), of N e] obtain ops where
    ops: "operandsOfValue N e (applyExponent sig e) = Ok ops" by blast
  have "op_C ops = e" using operandsOfValue_parts [OF ops] by simp
  moreover have "sg @ sig @ (if ex = [] then [] else c # ex) \<noteq> []" using assms(4) by simp
  ultimately show ?thesis
    by (simp add: newOperandsString_split [OF assms(1-3)] assms(5) e ops del: if_split)
qed

lemma newOperandsString_meaning:
  assumes "plain sig" and "c = CHR ''e'' \<or> c = CHR ''E''" and "sg = [] \<or> sg = ''-''"
    and res: "newOperandsString pf (sg @ sig @ (if ex = [] then [] else c # ex)) = Ok ops"
    and "op_C ops \<noteq> min_int64"
  shows "wf_operands ops \<and> n_val ops = dec_rat sig * 10 powi op_C ops"
proof -
  obtain ip rest where sd: "split_dot (applyExponent sig (op_C ops)) = (ip, rest)"
    and I: "ParseInt ip = Ok (op_I ops)" and C: "in_int64 (op_C ops)"
    and r: "fraction_fields ops rest"
    using newOperandsString_literal [OF assms(1-4)] by metis
  have pv: "plain (applyExponent sig (op_C ops))"
    and val: "dec_rat (applyExponent sig (op_C ops)) = dec_rat sig * 10 powi op_C ops"
    using applyExponent_plain_value [OF assms(1) C assms(5)] by simp_all
  have ip: "list_all is_digit ip" and f: "list_all is_digit (case_option [] id rest)"
    using pv by (auto simp: plain_def sd split: option.splits)
  have Iv: "op_I ops = dec_val ip" using ip I by (rule ParseInt_digits_Ok)
  have I0: "0 \<le> op_I ops" using Iv dec_val_nonneg [OF ip] by simp
  show ?thesis
  proof (cases rest)
    case None
    with r I0 Iv val sd show ?thesis
      by (simp add: fraction_fields_def wf_operands_def n_val_def dec_rat_def)
  next
    case (Some f)
    define W where "W = fraction_W f (length f)"
    have fd: "list_all is_digit f" using \<open>list_all is_digit (case_option [] id rest)\<close> Some by simp
    have V: "op_V ops = int (length f)" and Wo: "op_W ops = int W"
      using r Some by (simp_all add: W_def fraction_fields_def)
    have F: "op_F ops = dec_val f"
      using r Some ParseInt_zeros_Ok [OF fd] by (simp add: fraction_fields_def)
    have WT: "(if 0 < W then ParseInt (take W f) else Ok 0) = Ok (op_T ops)"
      using r Some by (auto simp: W_def fraction_fields_def split: if_splits)
    have T: "op_T ops = dec_val (take W f)"
      using WT ParseInt_digits_Ok [of "take W f" "op_T ops"] digits_take_drop(1) [OF fd, of W]
      by (cases "0 < W") auto
    note fs = fraction_split [OF fd, folded W_def]
    have WV: "W \<le> length f" unfolding W_def by (rule fraction_W_le)
    have "wf_operands ops"
      using fs WV I0
      by (auto simp: wf_operands_def V Wo F T nat_diff_distrib simp flip: of_nat_diff)
    moreover have "n_val ops = dec_rat (applyExponent sig (op_C ops))"
    proof -
      have "(10::rat) ^ length f = 10 ^ W * 10 ^ (length f - W)"
        using WV by (simp flip: power_add)
      then show ?thesis
        by (simp add: n_val_def dec_rat_def sd Some Iv T Wo fs(1) field_simps)
    qed
    ultimately show ?thesis by (simp add: val)
  qed
qed

lemma newOperandsInt64_I:
  "in_int64 i \<Longrightarrow> op_I (newOperandsInt64 f64 i) = (if i = min_int64 then min_int64 else \<bar>i\<bar>)"
  by (auto simp: newOperandsInt64_def Let_def wrap64_def in_int64_def min_int64_def max_int64_def)

lemma newOperandsInt64_wf:
  "in_int64 i \<Longrightarrow> i \<noteq> min_int64 \<Longrightarrow>
    wf_operands (newOperandsInt64 f64 i) \<and> n_val (newOperandsInt64 f64 i) = \<bar>of_int i\<bar>"
  using newOperandsInt64_I [of i f64]
  by (auto simp: wf_operands_def n_val_def newOperandsInt64_def Let_def abs_if)

end
