(* ===== verification/Plural_Rules.thy ===== *)
theory Plural_Rules
  imports Plural_Operands
begin

section \<open>Plural rules (plural/rule.go, rules.go, rule_gen.go)\<close>

text \<open>
  The forty rule groups that \<^verbatim>\<open>DefaultRules\<close> installs, one definition per \<^verbatim>\<open>addPluralRules\<close> call
  with its language ids, its set of plural forms and its selection function, and the lookup of
  the rule for a language tag.  \<^verbatim>\<open>language.Tag\<close> and its operations belong to
  \<^verbatim>\<open>golang.org/x/text\<close>: the tag type is \<open>'tag\<close> and the operations are the fields of the
  parameter record \<open>lang_ops\<close>.  A rules map is \<open>'tag \<rightharpoonup> 'f plural_rule\<close>; the nil pointer
  that Go's map lookup returns for a missing key is \<open>None\<close>.
\<close>

record 'f plural_rule =
  PluralForms :: "form set"
  PluralFormFunc :: "'f operands \<Rightarrow> form"

type_synonym 'f rule_entry = "string list \<times> 'f plural_rule"
type_synonym ('tag, 'f) rules = "'tag \<rightharpoonup> 'f plural_rule"

definition newPluralFormSet :: "form list \<Rightarrow> form set" where
  "newPluralFormSet pluralForms = foldl (\<lambda>s p. insert p s) {} pluralForms"

definition intInRange :: "int \<Rightarrow> int \<Rightarrow> int \<Rightarrow> bool" where
  "intInRange i from to = (from \<le> i \<and> i \<le> to)"

definition intEqualsAny :: "int \<Rightarrow> int list \<Rightarrow> bool" where
  "intEqualsAny i args = list_ex (\<lambda>a. i = a) args"

fun addPluralRules ::
    "(string \<Rightarrow> 'tag option) \<Rightarrow> ('tag, 'f) rules \<Rightarrow> string list \<Rightarrow> 'f plural_rule \<Rightarrow> ('tag, 'f) rules go"
where
  "addPluralRules must_parse rules [] ps = Ok rules"
| "addPluralRules must_parse rules (lid # ids) ps =
     (if lid = ''root'' then addPluralRules must_parse rules ids ps
      else case must_parse lid of
        None \<Rightarrow> Panic ''language.MustParse''
      | Some tag \<Rightarrow> addPluralRules must_parse (rules(tag \<mapsto> ps)) ids ps)"

subsection \<open>The generated rules\<close>

definition rule_bm :: "'f rule_entry" where
  "rule_bm =
     ([''bm'', ''bo'', ''dz'', ''hnj'', ''id'', ''ig'', ''ii'', ''in'', ''ja'', ''jbo'',
       ''jv'', ''jw'', ''kde'', ''kea'', ''km'', ''ko'', ''lkt'', ''lo'', ''ms'', ''my'',
       ''nqo'', ''osa'', ''root'', ''sah'', ''ses'', ''sg'', ''su'', ''th'', ''to'', ''tpi'',
       ''vi'', ''wo'', ''yo'', ''yue'', ''zh''],
      \<lparr>PluralForms = newPluralFormSet [Other],
       PluralFormFunc = (\<lambda>ops.
          Other)\<rparr>)"

definition rule_am :: "'f rule_entry" where
  "rule_am =
     ([''am'', ''as'', ''bn'', ''doi'', ''fa'', ''gu'', ''hi'', ''kn'', ''pcm'', ''zu''],
      \<lparr>PluralForms = newPluralFormSet [One, Other],
       PluralFormFunc = (\<lambda>ops.
          if intEqualsAny (op_I ops) [0] \<or>
            NEqualsAny ops [1] then One
          else Other)\<rparr>)"

definition rule_ff :: "'f rule_entry" where
  "rule_ff =
     ([''ff'', ''hy'', ''kab''],
      \<lparr>PluralForms = newPluralFormSet [One, Other],
       PluralFormFunc = (\<lambda>ops.
          if intEqualsAny (op_I ops) [0, 1] then One
          else Other)\<rparr>)"

definition rule_ast :: "'f rule_entry" where
  "rule_ast =
     ([''ast'', ''de'', ''en'', ''et'', ''fi'', ''fy'', ''gl'', ''ia'', ''io'', ''ji'',
       ''lij'', ''nl'', ''sc'', ''sv'', ''sw'', ''ur'', ''yi''],
      \<lparr>PluralForms = newPluralFormSet [One, Other],
       PluralFormFunc = (\<lambda>ops.
          if intEqualsAny (op_I ops) [1] \<and> intEqualsAny (op_V ops) [0] then One
          else Other)\<rparr>)"

definition rule_si :: "'f rule_entry" where
  "rule_si =
     ([''si''],
      \<lparr>PluralForms = newPluralFormSet [One, Other],
       PluralFormFunc = (\<lambda>ops.
          if NEqualsAny ops [0, 1] \<or>
            intEqualsAny (op_I ops) [0] \<and> intEqualsAny (op_F ops) [1] then One
          else Other)\<rparr>)"

definition rule_ak :: "'f rule_entry" where
  "rule_ak =
     ([''ak'', ''bho'', ''csw'', ''guw'', ''ln'', ''mg'', ''nso'', ''pa'', ''ti'', ''wa''],
      \<lparr>PluralForms = newPluralFormSet [One, Other],
       PluralFormFunc = (\<lambda>ops.
          if NInRange ops 0 1 then One
          else Other)\<rparr>)"

definition rule_tzm :: "'f rule_entry" where
  "rule_tzm =
     ([''tzm''],
      \<lparr>PluralForms = newPluralFormSet [One, Other],
       PluralFormFunc = (\<lambda>ops.
          if NInRange ops 0 1 \<or>
            NInRange ops 11 99 then One
          else Other)\<rparr>)"

definition rule_af :: "'f rule_entry" where
  "rule_af =
     ([''af'', ''an'', ''asa'', ''az'', ''bal'', ''bem'', ''bez'', ''bg'', ''brx'', ''ce'',
       ''cgg'', ''chr'', ''ckb'', ''dv'', ''ee'', ''el'', ''eo'', ''eu'', ''fo'', ''fur'',
       ''gsw'', ''ha'', ''haw'', ''hu'', ''jgo'', ''jmc'', ''ka'', ''kaj'', ''kcg'', ''kk'',
       ''kkj'', ''kl'', ''ks'', ''ksb'', ''ku'', ''ky'', ''lb'', ''lg'', ''mas'', ''mgo'',
       ''ml'', ''mn'', ''mr'', ''nah'', ''nb'', ''nd'', ''ne'', ''nn'', ''nnh'', ''no'',
       ''nr'', ''ny'', ''nyn'', ''om'', ''or'', ''os'', ''pap'', ''ps'', ''rm'', ''rof'',
       ''rwk'', ''saq'', ''sd'', ''sdh'', ''seh'', ''sn'', ''so'', ''sq'', ''ss'', ''ssy'',
       ''st'', ''syr'', ''ta'', ''te'', ''teo'', ''tig'', ''tk'', ''tn'', ''tr'', ''ts'',
       ''ug'', ''uz'', ''ve'', ''vo'', ''vun'', ''wae'', ''xh'', ''xog''],
      \<lparr>PluralForms = newPluralFormSet [One, Other],
       PluralFormFunc = (\<lambda>ops.
          if NEqualsAny ops [1] then One
          else Other)\<rparr>)"

definition rule_da :: "'f rule_entry" where
  "rule_da =
     ([''da''],
      \<lparr>PluralForms = newPluralFormSet [One, Other],
       PluralFormFunc = (\<lambda>ops.
          if NEqualsAny ops [1] \<or>
            \<not> intEqualsAny (op_T ops) [0] \<and> intEqualsAny (op_I ops) [0, 1] then One
          else Other)\<rparr>)"

definition rule_is :: "'f rule_entry" where
  "rule_is =
     ([''is''],
      \<lparr>PluralForms = newPluralFormSet [One, Other],
       PluralFormFunc = (\<lambda>ops.
          if intEqualsAny (op_T ops) [0] \<and> intEqualsAny (go_rem (op_I ops) 10) [1] \<and> \<not> intEqualsAny (go_rem (op_I ops) 100) [11] \<or>
            intEqualsAny (go_rem (op_T ops) 10) [1] \<and> \<not> intEqualsAny (go_rem (op_T ops) 100) [11] then One
          else Other)\<rparr>)"

definition rule_mk :: "'f rule_entry" where
  "rule_mk =
     ([''mk''],
      \<lparr>PluralForms = newPluralFormSet [One, Other],
       PluralFormFunc = (\<lambda>ops.
          if intEqualsAny (op_V ops) [0] \<and> intEqualsAny (go_rem (op_I ops) 10) [1] \<and> \<not> intEqualsAny (go_rem (op_I ops) 100) [11] \<or>
            intEqualsAny (go_rem (op_F ops) 10) [1] \<and> \<not> intEqualsAny (go_rem (op_F ops) 100) [11] then One
          else Other)\<rparr>)"

definition rule_ceb :: "'f rule_entry" where
  "rule_ceb =
     ([''ceb'', ''fil'', ''tl''],
      \<lparr>PluralForms = newPluralFormSet [One, Other],
       PluralFormFunc = (\<lambda>ops.
          if intEqualsAny (op_V ops) [0] \<and> intEqualsAny (op_I ops) [1, 2, 3] \<or>
            intEqualsAny (op_V ops) [0] \<and> \<not> intEqualsAny (go_rem (op_I ops) 10) [4, 6, 9] \<or>
            \<not> intEqualsAny (op_V ops) [0] \<and> \<not> intEqualsAny (go_rem (op_F ops) 10) [4, 6, 9] then One
          else Other)\<rparr>)"

definition rule_lv :: "'f rule_entry" where
  "rule_lv =
     ([''lv'', ''prg''],
      \<lparr>PluralForms = newPluralFormSet [Zero, One, Other],
       PluralFormFunc = (\<lambda>ops.
          if NModEqualsAny ops 10 [0] \<or>
            NModInRange ops 100 11 19 \<or>
            intEqualsAny (op_V ops) [2] \<and> intInRange (go_rem (op_F ops) 100) 11 19 then Zero
          else if NModEqualsAny ops 10 [1] \<and> \<not> NModEqualsAny ops 100 [11] \<or>
            intEqualsAny (op_V ops) [2] \<and> intEqualsAny (go_rem (op_F ops) 10) [1] \<and> \<not> intEqualsAny (go_rem (op_F ops) 100) [11] \<or>
            \<not> intEqualsAny (op_V ops) [2] \<and> intEqualsAny (go_rem (op_F ops) 10) [1] then One
          else Other)\<rparr>)"

definition rule_lag :: "'f rule_entry" where
  "rule_lag =
     ([''lag''],
      \<lparr>PluralForms = newPluralFormSet [Zero, One, Other],
       PluralFormFunc = (\<lambda>ops.
          if NEqualsAny ops [0] then Zero
          else if intEqualsAny (op_I ops) [0, 1] \<and> \<not> NEqualsAny ops [0] then One
          else Other)\<rparr>)"

definition rule_blo :: "'f rule_entry" where
  "rule_blo =
     ([''blo''],
      \<lparr>PluralForms = newPluralFormSet [Zero, One, Other],
       PluralFormFunc = (\<lambda>ops.
          if NEqualsAny ops [0] then Zero
          else if NEqualsAny ops [1] then One
          else Other)\<rparr>)"

definition rule_ksh :: "'f rule_entry" where
  "rule_ksh =
     ([''ksh''],
      \<lparr>PluralForms = newPluralFormSet [Zero, One, Other],
       PluralFormFunc = (\<lambda>ops.
          if NEqualsAny ops [0] then Zero
          else if NEqualsAny ops [1] then One
          else Other)\<rparr>)"

definition rule_he :: "'f rule_entry" where
  "rule_he =
     ([''he'', ''iw''],
      \<lparr>PluralForms = newPluralFormSet [One, Two, Other],
       PluralFormFunc = (\<lambda>ops.
          if intEqualsAny (op_I ops) [1] \<and> intEqualsAny (op_V ops) [0] \<or>
            intEqualsAny (op_I ops) [0] \<and> \<not> intEqualsAny (op_V ops) [0] then One
          else if intEqualsAny (op_I ops) [2] \<and> intEqualsAny (op_V ops) [0] then Two
          else Other)\<rparr>)"

definition rule_iu :: "'f rule_entry" where
  "rule_iu =
     ([''iu'', ''naq'', ''sat'', ''se'', ''sma'', ''smi'', ''smj'', ''smn'', ''sms''],
      \<lparr>PluralForms = newPluralFormSet [One, Two, Other],
       PluralFormFunc = (\<lambda>ops.
          if NEqualsAny ops [1] then One
          else if NEqualsAny ops [2] then Two
          else Other)\<rparr>)"

definition rule_shi :: "'f rule_entry" where
  "rule_shi =
     ([''shi''],
      \<lparr>PluralForms = newPluralFormSet [One, Few, Other],
       PluralFormFunc = (\<lambda>ops.
          if intEqualsAny (op_I ops) [0] \<or>
            NEqualsAny ops [1] then One
          else if NInRange ops 2 10 then Few
          else Other)\<rparr>)"

definition rule_mo :: "'f rule_entry" where
  "rule_mo =
     ([''mo'', ''ro''],
      \<lparr>PluralForms = newPluralFormSet [One, Few, Other],
       PluralFormFunc = (\<lambda>ops.
          if intEqualsAny (op_I ops) [1] \<and> intEqualsAny (op_V ops) [0] then One
          else if \<not> intEqualsAny (op_V ops) [0] \<or>
            NEqualsAny ops [0] \<or>
            \<not> NEqualsAny ops [1] \<and> NModInRange ops 100 1 19 then Few
          else Other)\<rparr>)"

definition rule_bs :: "'f rule_entry" where
  "rule_bs =
     ([''bs'', ''hr'', ''sh'', ''sr''],
      \<lparr>PluralForms = newPluralFormSet [One, Few, Other],
       PluralFormFunc = (\<lambda>ops.
          if intEqualsAny (op_V ops) [0] \<and> intEqualsAny (go_rem (op_I ops) 10) [1] \<and> \<not> intEqualsAny (go_rem (op_I ops) 100) [11] \<or>
            intEqualsAny (go_rem (op_F ops) 10) [1] \<and> \<not> intEqualsAny (go_rem (op_F ops) 100) [11] then One
          else if intEqualsAny (op_V ops) [0] \<and> intInRange (go_rem (op_I ops) 10) 2 4 \<and> \<not> intInRange (go_rem (op_I ops) 100) 12 14 \<or>
            intInRange (go_rem (op_F ops) 10) 2 4 \<and> \<not> intInRange (go_rem (op_F ops) 100) 12 14 then Few
          else Other)\<rparr>)"

definition rule_fr :: "'f rule_entry" where
  "rule_fr =
     ([''fr''],
      \<lparr>PluralForms = newPluralFormSet [One, Many, Other],
       PluralFormFunc = (\<lambda>ops.
          if intEqualsAny (op_I ops) [0, 1] then One
          else if intEqualsAny (op_C ops) [0] \<and> \<not> intEqualsAny (op_I ops) [0] \<and> intEqualsAny (go_rem (op_I ops) 1000000) [0] \<and> intEqualsAny (op_V ops) [0] \<or>
            \<not> intInRange (op_C ops) 0 5 then Many
          else Other)\<rparr>)"

definition rule_pt :: "'f rule_entry" where
  "rule_pt =
     ([''pt''],
      \<lparr>PluralForms = newPluralFormSet [One, Many, Other],
       PluralFormFunc = (\<lambda>ops.
          if intInRange (op_I ops) 0 1 then One
          else if intEqualsAny (op_C ops) [0] \<and> \<not> intEqualsAny (op_I ops) [0] \<and> intEqualsAny (go_rem (op_I ops) 1000000) [0] \<and> intEqualsAny (op_V ops) [0] \<or>
            \<not> intInRange (op_C ops) 0 5 then Many
          else Other)\<rparr>)"

definition rule_ca :: "'f rule_entry" where
  "rule_ca =
     ([''ca'', ''it'', ''lld'', ''pt_PT'', ''scn'', ''vec''],
      \<lparr>PluralForms = newPluralFormSet [One, Many, Other],
       PluralFormFunc = (\<lambda>ops.
          if intEqualsAny (op_I ops) [1] \<and> intEqualsAny (op_V ops) [0] then One
          else if intEqualsAny (op_C ops) [0] \<and> \<not> intEqualsAny (op_I ops) [0] \<and> intEqualsAny (go_rem (op_I ops) 1000000) [0] \<and> intEqualsAny (op_V ops) [0] \<or>
            \<not> intInRange (op_C ops) 0 5 then Many
          else Other)\<rparr>)"

definition rule_es :: "'f rule_entry" where
  "rule_es =
     ([''es''],
      \<lparr>PluralForms = newPluralFormSet [One, Many, Other],
       PluralFormFunc = (\<lambda>ops.
          if NEqualsAny ops [1] then One
          else if intEqualsAny (op_C ops) [0] \<and> \<not> intEqualsAny (op_I ops) [0] \<and> intEqualsAny (go_rem (op_I ops) 1000000) [0] \<and> intEqualsAny (op_V ops) [0] \<or>
            \<not> intInRange (op_C ops) 0 5 then Many
          else Other)\<rparr>)"

definition rule_gd :: "'f rule_entry" where
  "rule_gd =
     ([''gd''],
      \<lparr>PluralForms = newPluralFormSet [One, Two, Few, Other],
       PluralFormFunc = (\<lambda>ops.
          if NEqualsAny ops [1, 11] then One
          else if NEqualsAny ops [2, 12] then Two
          else if NInRange ops 3 10 \<or>
            NInRange ops 13 19 then Few
          else Other)\<rparr>)"

definition rule_sl :: "'f rule_entry" where
  "rule_sl =
     ([''sl''],
      \<lparr>PluralForms = newPluralFormSet [One, Two, Few, Other],
       PluralFormFunc = (\<lambda>ops.
          if intEqualsAny (op_V ops) [0] \<and> intEqualsAny (go_rem (op_I ops) 100) [1] then One
          else if intEqualsAny (op_V ops) [0] \<and> intEqualsAny (go_rem (op_I ops) 100) [2] then Two
          else if intEqualsAny (op_V ops) [0] \<and> intInRange (go_rem (op_I ops) 100) 3 4 \<or>
            \<not> intEqualsAny (op_V ops) [0] then Few
          else Other)\<rparr>)"

definition rule_dsb :: "'f rule_entry" where
  "rule_dsb =
     ([''dsb'', ''hsb''],
      \<lparr>PluralForms = newPluralFormSet [One, Two, Few, Other],
       PluralFormFunc = (\<lambda>ops.
          if intEqualsAny (op_V ops) [0] \<and> intEqualsAny (go_rem (op_I ops) 100) [1] \<or>
            intEqualsAny (go_rem (op_F ops) 100) [1] then One
          else if intEqualsAny (op_V ops) [0] \<and> intEqualsAny (go_rem (op_I ops) 100) [2] \<or>
            intEqualsAny (go_rem (op_F ops) 100) [2] then Two
          else if intEqualsAny (op_V ops) [0] \<and> intInRange (go_rem (op_I ops) 100) 3 4 \<or>
            intInRange (go_rem (op_F ops) 100) 3 4 then Few
          else Other)\<rparr>)"

definition rule_cs :: "'f rule_entry" where
  "rule_cs =
     ([''cs'', ''sk''],
      \<lparr>PluralForms = newPluralFormSet [One, Few, Many, Other],
       PluralFormFunc = (\<lambda>ops.
          if intEqualsAny (op_I ops) [1] \<and> intEqualsAny (op_V ops) [0] then One
          else if intInRange (op_I ops) 2 4 \<and> intEqualsAny (op_V ops) [0] then Few
          else if \<not> intEqualsAny (op_V ops) [0] then Many
          else Other)\<rparr>)"

definition rule_pl :: "'f rule_entry" where
  "rule_pl =
     ([''pl''],
      \<lparr>PluralForms = newPluralFormSet [One, Few, Many, Other],
       PluralFormFunc = (\<lambda>ops.
          if intEqualsAny (op_I ops) [1] \<and> intEqualsAny (op_V ops) [0] then One
          else if intEqualsAny (op_V ops) [0] \<and> intInRange (go_rem (op_I ops) 10) 2 4 \<and> \<not> intInRange (go_rem (op_I ops) 100) 12 14 then Few
          else if intEqualsAny (op_V ops) [0] \<and> \<not> intEqualsAny (op_I ops) [1] \<and> intInRange (go_rem (op_I ops) 10) 0 1 \<or>
            intEqualsAny (op_V ops) [0] \<and> intInRange (go_rem (op_I ops) 10) 5 9 \<or>
            intEqualsAny (op_V ops) [0] \<and> intInRange (go_rem (op_I ops) 100) 12 14 then Many
          else Other)\<rparr>)"

definition rule_be :: "'f rule_entry" where
  "rule_be =
     ([''be''],
      \<lparr>PluralForms = newPluralFormSet [One, Few, Many, Other],
       PluralFormFunc = (\<lambda>ops.
          if NModEqualsAny ops 10 [1] \<and> \<not> NModEqualsAny ops 100 [11] then One
          else if NModInRange ops 10 2 4 \<and> \<not> NModInRange ops 100 12 14 then Few
          else if NModEqualsAny ops 10 [0] \<or>
            NModInRange ops 10 5 9 \<or>
            NModInRange ops 100 11 14 then Many
          else Other)\<rparr>)"

definition rule_lt :: "'f rule_entry" where
  "rule_lt =
     ([''lt''],
      \<lparr>PluralForms = newPluralFormSet [One, Few, Many, Other],
       PluralFormFunc = (\<lambda>ops.
          if NModEqualsAny ops 10 [1] \<and> \<not> NModInRange ops 100 11 19 then One
          else if NModInRange ops 10 2 9 \<and> \<not> NModInRange ops 100 11 19 then Few
          else if \<not> intEqualsAny (op_F ops) [0] then Many
          else Other)\<rparr>)"

definition rule_ru :: "'f rule_entry" where
  "rule_ru =
     ([''ru'', ''uk''],
      \<lparr>PluralForms = newPluralFormSet [One, Few, Many, Other],
       PluralFormFunc = (\<lambda>ops.
          if intEqualsAny (op_V ops) [0] \<and> intEqualsAny (go_rem (op_I ops) 10) [1] \<and> \<not> intEqualsAny (go_rem (op_I ops) 100) [11] then One
          else if intEqualsAny (op_V ops) [0] \<and> intInRange (go_rem (op_I ops) 10) 2 4 \<and> \<not> intInRange (go_rem (op_I ops) 100) 12 14 then Few
          else if intEqualsAny (op_V ops) [0] \<and> intEqualsAny (go_rem (op_I ops) 10) [0] \<or>
            intEqualsAny (op_V ops) [0] \<and> intInRange (go_rem (op_I ops) 10) 5 9 \<or>
            intEqualsAny (op_V ops) [0] \<and> intInRange (go_rem (op_I ops) 100) 11 14 then Many
          else Other)\<rparr>)"

definition rule_br :: "'f rule_entry" where
  "rule_br =
     ([''br''],
      \<lparr>PluralForms = newPluralFormSet [One, Two, Few, Many, Other],
       PluralFormFunc = (\<lambda>ops.
          if NModEqualsAny ops 10 [1] \<and> \<not> NModEqualsAny ops 100 [11, 71, 91] then One
          else if NModEqualsAny ops 10 [2] \<and> \<not> NModEqualsAny ops 100 [12, 72, 92] then Two
          else if (NModInRange ops 10 3 4 \<or>
            NModEqualsAny ops 10 [9]) \<and> \<not> (NModInRange ops 100 10 19 \<or>
            NModInRange ops 100 70 79 \<or>
            NModInRange ops 100 90 99) then Few
          else if \<not> NEqualsAny ops [0] \<and> NModEqualsAny ops 1000000 [0] then Many
          else Other)\<rparr>)"

definition rule_mt :: "'f rule_entry" where
  "rule_mt =
     ([''mt''],
      \<lparr>PluralForms = newPluralFormSet [One, Two, Few, Many, Other],
       PluralFormFunc = (\<lambda>ops.
          if NEqualsAny ops [1] then One
          else if NEqualsAny ops [2] then Two
          else if NEqualsAny ops [0] \<or>
            NModInRange ops 100 3 10 then Few
          else if NModInRange ops 100 11 19 then Many
          else Other)\<rparr>)"

definition rule_ga :: "'f rule_entry" where
  "rule_ga =
     ([''ga''],
      \<lparr>PluralForms = newPluralFormSet [One, Two, Few, Many, Other],
       PluralFormFunc = (\<lambda>ops.
          if NEqualsAny ops [1] then One
          else if NEqualsAny ops [2] then Two
          else if NInRange ops 3 6 then Few
          else if NInRange ops 7 10 then Many
          else Other)\<rparr>)"

definition rule_gv :: "'f rule_entry" where
  "rule_gv =
     ([''gv''],
      \<lparr>PluralForms = newPluralFormSet [One, Two, Few, Many, Other],
       PluralFormFunc = (\<lambda>ops.
          if intEqualsAny (op_V ops) [0] \<and> intEqualsAny (go_rem (op_I ops) 10) [1] then One
          else if intEqualsAny (op_V ops) [0] \<and> intEqualsAny (go_rem (op_I ops) 10) [2] then Two
          else if intEqualsAny (op_V ops) [0] \<and> intEqualsAny (go_rem (op_I ops) 100) [0, 20, 40, 60, 80] then Few
          else if \<not> intEqualsAny (op_V ops) [0] then Many
          else Other)\<rparr>)"

definition rule_kw :: "'f rule_entry" where
  "rule_kw =
     ([''kw''],
      \<lparr>PluralForms = newPluralFormSet [Zero, One, Two, Few, Many, Other],
       PluralFormFunc = (\<lambda>ops.
          if NEqualsAny ops [0] then Zero
          else if NEqualsAny ops [1] then One
          else if NModEqualsAny ops 100 [2, 22, 42, 62, 82] \<or>
            NModEqualsAny ops 1000 [0] \<and> (NModInRange ops 100000 1000 20000 \<or>
            NModEqualsAny ops 100000 [40000, 60000, 80000]) \<or>
            \<not> NEqualsAny ops [0] \<and> NModEqualsAny ops 1000000 [100000] then Two
          else if NModEqualsAny ops 100 [3, 23, 43, 63, 83] then Few
          else if \<not> NEqualsAny ops [1] \<and> NModEqualsAny ops 100 [1, 21, 41, 61, 81] then Many
          else Other)\<rparr>)"

definition rule_ar :: "'f rule_entry" where
  "rule_ar =
     ([''ar'', ''ars''],
      \<lparr>PluralForms = newPluralFormSet [Zero, One, Two, Few, Many, Other],
       PluralFormFunc = (\<lambda>ops.
          if NEqualsAny ops [0] then Zero
          else if NEqualsAny ops [1] then One
          else if NEqualsAny ops [2] then Two
          else if NModInRange ops 100 3 10 then Few
          else if NModInRange ops 100 11 99 then Many
          else Other)\<rparr>)"

definition rule_cy :: "'f rule_entry" where
  "rule_cy =
     ([''cy''],
      \<lparr>PluralForms = newPluralFormSet [Zero, One, Two, Few, Many, Other],
       PluralFormFunc = (\<lambda>ops.
          if NEqualsAny ops [0] then Zero
          else if NEqualsAny ops [1] then One
          else if NEqualsAny ops [2] then Two
          else if NEqualsAny ops [3] then Few
          else if NEqualsAny ops [6] then Many
          else Other)\<rparr>)"

definition default_entries :: "'f rule_entry list" where
  "default_entries =
     [rule_bm, rule_am, rule_ff, rule_ast, rule_si, rule_ak, rule_tzm, rule_af, rule_da,
      rule_is, rule_mk, rule_ceb, rule_lv, rule_lag, rule_blo, rule_ksh, rule_he, rule_iu,
      rule_shi, rule_mo, rule_bs, rule_fr, rule_pt, rule_ca, rule_es, rule_gd, rule_sl,
      rule_dsb, rule_cs, rule_pl, rule_be, rule_lt, rule_ru, rule_br, rule_mt, rule_ga, rule_gv,
      rule_kw, rule_ar, rule_cy]"

fun add_entries ::
    "(string \<Rightarrow> 'tag option) \<Rightarrow> ('tag, 'f) rules \<Rightarrow> 'f rule_entry list \<Rightarrow> ('tag, 'f) rules go" where
  "add_entries must_parse rules [] = Ok rules"
| "add_entries must_parse rules (e # es) =
     go_bind (addPluralRules must_parse rules (fst e) (snd e))
       (\<lambda>rules'. add_entries must_parse rules' es)"

definition DefaultRules :: "(string \<Rightarrow> 'tag option) \<Rightarrow> ('tag, 'f) rules go" where
  "DefaultRules must_parse = add_entries must_parse Map.empty default_entries"

lemmas rule_defs =
  rule_bm_def rule_am_def rule_ff_def rule_ast_def rule_si_def rule_ak_def rule_tzm_def
  rule_af_def rule_da_def rule_is_def rule_mk_def rule_ceb_def rule_lv_def rule_lag_def
  rule_blo_def rule_ksh_def rule_he_def rule_iu_def rule_shi_def rule_mo_def rule_bs_def
  rule_fr_def rule_pt_def rule_ca_def rule_es_def rule_gd_def rule_sl_def rule_dsb_def
  rule_cs_def rule_pl_def rule_be_def rule_lt_def rule_ru_def rule_br_def rule_mt_def
  rule_ga_def rule_gv_def rule_kw_def rule_ar_def rule_cy_def

subsection \<open>Every rule selects one of its declared forms\<close>

definition valid_rule :: "'f plural_rule \<Rightarrow> bool" where
  "valid_rule r \<longleftrightarrow> Other \<in> PluralForms r \<and> Invalid \<notin> PluralForms r \<and>
     (\<forall>ops. PluralFormFunc r ops \<in> PluralForms r)"

lemma newPluralFormSet_set: "newPluralFormSet fs = set fs"
proof -
  have "foldl (\<lambda>s p. insert p s) A fs = A \<union> set fs" for A
    by (induction fs arbitrary: A) auto
  then show ?thesis by (simp add: newPluralFormSet_def)
qed

lemma default_entries_valid: "list_all (\<lambda>e. valid_rule (snd e)) default_entries"
  by (simp add: default_entries_def valid_rule_def newPluralFormSet_set rule_defs)

lemma addPluralRules_ran:
  "addPluralRules must_parse rules ids ps = Ok rules' \<Longrightarrow> rules' t = Some r \<Longrightarrow>
    rules t = Some r \<or> r = ps"
  by (induction must_parse rules ids ps rule: addPluralRules.induct)
    (auto split: if_splits option.splits)

lemma addPluralRules_mono:
  "addPluralRules must_parse rules ids ps = Ok rules' \<Longrightarrow> dom rules \<subseteq> dom rules'"
  by (induction must_parse rules ids ps rule: addPluralRules.induct)
    (auto split: if_splits option.splits)

lemma addPluralRules_dom:
  "addPluralRules must_parse rules ids ps = Ok rules' \<Longrightarrow> lid \<in> set ids \<Longrightarrow> lid \<noteq> ''root'' \<Longrightarrow>
    \<exists>tag. must_parse lid = Some tag \<and> tag \<in> dom rules'"
proof (induction must_parse rules ids ps rule: addPluralRules.induct)
  case (2 must_parse rules x ids ps)
  show ?case
  proof (cases "x = ''root''")
    case True
    with 2 show ?thesis by auto
  next
    case False
    with "2.prems" obtain tag where tag: "must_parse x = Some tag"
      and rest: "addPluralRules must_parse (rules(tag \<mapsto> ps)) ids ps = Ok rules'"
      by (auto split: option.splits)
    have "tag \<in> dom rules'" using addPluralRules_mono [OF rest] by auto
    with "2.IH"(2) [OF False tag rest] "2.prems" tag show ?thesis by auto
  qed
qed simp

lemma addPluralRules_Ok:
  "\<forall>lid \<in> set ids. lid \<noteq> ''root'' \<longrightarrow> must_parse lid \<noteq> None \<Longrightarrow>
    \<exists>rules'. addPluralRules must_parse rules ids ps = Ok rules'"
  by (induction must_parse rules ids ps rule: addPluralRules.induct) auto

lemma add_entries_ran:
  "add_entries p rules es = Ok rules' \<Longrightarrow> rules' t = Some r \<Longrightarrow>
    rules t = Some r \<or> r \<in> snd ` set es"
  by (induction es arbitrary: rules) (auto simp: go_bind_Ok_iff dest: addPluralRules_ran)

lemma add_entries_mono: "add_entries p rules es = Ok rules' \<Longrightarrow> dom rules \<subseteq> dom rules'"
proof (induction es arbitrary: rules)
  case (Cons x es)
  then obtain r1 where "addPluralRules p rules (fst x) (snd x) = Ok r1"
    and "add_entries p r1 es = Ok rules'"
    by (auto simp: go_bind_Ok_iff)
  then show ?case using Cons.IH [of r1] addPluralRules_mono by blast
qed simp

lemma add_entries_dom:
  "add_entries p rules es = Ok rules' \<Longrightarrow> e \<in> set es \<Longrightarrow> lid \<in> set (fst e) \<Longrightarrow> lid \<noteq> ''root'' \<Longrightarrow>
    \<exists>tag. p lid = Some tag \<and> tag \<in> dom rules'"
proof (induction es arbitrary: rules)
  case (Cons x es)
  then obtain r1 where r1: "addPluralRules p rules (fst x) (snd x) = Ok r1"
    and r2: "add_entries p r1 es = Ok rules'"
    by (auto simp: go_bind_Ok_iff)
  show ?case
  proof (cases "e = x")
    case True
    with Cons.prems addPluralRules_dom [OF r1] add_entries_mono [OF r2] show ?thesis by blast
  next
    case False
    with Cons r2 show ?thesis by auto
  qed
qed simp

lemma add_entries_Ok:
  "\<forall>e \<in> set es. \<forall>lid \<in> set (fst e). lid \<noteq> ''root'' \<longrightarrow> p lid \<noteq> None \<Longrightarrow>
    \<exists>rules'. add_entries p rules es = Ok rules'"
proof (induction es arbitrary: rules)
  case (Cons e es)
  obtain r1 where "addPluralRules p rules (fst e) (snd e) = Ok r1"
    using Cons.prems addPluralRules_Ok [of "fst e" p rules "snd e"] by auto
  with Cons show ?case by simp
qed simp

lemma DefaultRules_valid: "DefaultRules p = Ok rules \<Longrightarrow> rules t = Some r \<Longrightarrow> valid_rule r"
  using default_entries_valid
  by (auto simp: DefaultRules_def list_all_iff dest!: add_entries_ran)

subsection \<open>The rule of a tag\<close>

record 'tag lang_ops =
  lang_parent :: "'tag \<Rightarrow> 'tag"        \<comment> \<open>\<^verbatim>\<open>Tag.Parent\<close>\<close>
  lang_is_root :: "'tag \<Rightarrow> bool"       \<comment> \<open>\<^verbatim>\<open>Tag.IsRoot\<close>\<close>
  lang_base_tag :: "'tag \<Rightarrow> 'tag"      \<comment> \<open>\<^verbatim>\<open>language.Parse(base.String())\<close> of \<^verbatim>\<open>Tag.Base\<close>, errors dropped\<close>

text \<open>
  The loop of \<^verbatim>\<open>Rules.Rule\<close>: \<open>Some (Some r)\<close> when a tag on the way up has a rule, \<open>Some None\<close>
  when the root is reached, \<open>None\<close> when the walk never ends.
\<close>

partial_function (option) rule_walk ::
    "'tag lang_ops \<Rightarrow> ('tag \<rightharpoonup> 'r) \<Rightarrow> 'tag \<Rightarrow> 'r option option" where
  "rule_walk L rules t =
     (case rules t of
        Some rule \<Rightarrow> Some (Some rule)
      | None \<Rightarrow>
          (if lang_is_root L (lang_parent L t) then Some None
           else rule_walk L rules (lang_parent L t)))"

definition Rule :: "'tag lang_ops \<Rightarrow> ('tag \<rightharpoonup> 'r) \<Rightarrow> 'tag \<Rightarrow> 'r option option" where
  "Rule L rules tag =
     (case rule_walk L rules tag of
        None \<Rightarrow> None
      | Some (Some rule) \<Rightarrow> Some (Some rule)
      | Some None \<Rightarrow> Some (rules (lang_base_tag L tag)))"

text \<open>
  What \<^verbatim>\<open>x/text\<close> documents of \<^verbatim>\<open>Parent\<close>: the chain of parents of every tag reaches the root.
  \<open>depth\<close> counts its length.
\<close>

definition parents_reach_root :: "'tag lang_ops \<Rightarrow> ('tag \<Rightarrow> nat) \<Rightarrow> bool" where
  "parents_reach_root L depth \<longleftrightarrow>
     (\<forall>t. lang_is_root L (lang_parent L t) \<or> depth (lang_parent L t) < depth t)"

fun parents :: "'tag lang_ops \<Rightarrow> nat \<Rightarrow> 'tag \<Rightarrow> 'tag" where
  "parents L 0 t = t"
| "parents L (Suc n) t = parents L n (lang_parent L t)"

text \<open>The tags that the loop looks at: \<open>n\<close> steps up from \<open>t\<close>, none of them into the root.\<close>

fun visited :: "'tag lang_ops \<Rightarrow> nat \<Rightarrow> 'tag \<Rightarrow> bool" where
  "visited L 0 t = True"
| "visited L (Suc n) t = (\<not> lang_is_root L (lang_parent L t) \<and> visited L n (lang_parent L t))"

lemma rule_walk_first:
  "visited L n t \<Longrightarrow> rules (parents L n t) = Some r \<Longrightarrow> \<forall>m < n. rules (parents L m t) = None \<Longrightarrow>
     rule_walk L rules t = Some (Some r)"
proof (induction n arbitrary: t)
  case 0
  then show ?case by (subst rule_walk.simps) simp
next
  case (Suc n)
  have "rules t = None" using Suc.prems(3) by (metis parents.simps(1) zero_less_Suc)
  moreover have "rule_walk L rules (lang_parent L t) = Some (Some r)"
    using Suc.prems by (intro Suc.IH) auto
  ultimately show ?case using Suc.prems(1) by (subst rule_walk.simps) simp
qed

lemma rule_walk_outcome:
  assumes "parents_reach_root L depth"
  shows "(\<exists>n r. visited L n t \<and> rules (parents L n t) = Some r \<and> (\<forall>m < n. rules (parents L m t) = None) \<and>
       rule_walk L rules t = Some (Some r)) \<or>
    ((\<forall>n. visited L n t \<longrightarrow> rules (parents L n t) = None) \<and> rule_walk L rules t = Some None)"
proof (induction "depth t" arbitrary: t rule: less_induct)
  case less
  show ?case
  proof (cases "\<exists>n. visited L n t \<and> rules (parents L n t) \<noteq> None")
    case True
    define n where "n = (LEAST n. visited L n t \<and> rules (parents L n t) \<noteq> None)"
    have n: "visited L n t" "rules (parents L n t) \<noteq> None"
      using LeastI_ex [OF True] unfolding n_def by blast+
    have "visited L m t" if "visited L n t" "m < n" for m n t
      using that by (induction n arbitrary: t m) (auto simp: less_Suc_eq_0_disj)
    with n(1) have "\<forall>m < n. rules (parents L m t) = None"
      using not_less_Least [of _ "\<lambda>n. visited L n t \<and> rules (parents L n t) \<noteq> None"] unfolding n_def by blast
    with n rule_walk_first [OF n(1), of rules] show ?thesis by (intro disjI1 exI [of _ n]) auto
  next
    case False
    then have none: "visited L n t \<Longrightarrow> rules (parents L n t) = None" for n by blast
    have t: "rules t = None" using none [of 0] by simp
    show ?thesis
    proof (cases "lang_is_root L (lang_parent L t)")
      case True
      with t none show ?thesis by (subst (1 2) rule_walk.simps) auto
    next
      case root: False
      then have "depth (lang_parent L t) < depth t" using assms by (auto simp: parents_reach_root_def)
      moreover have "visited L n (lang_parent L t) \<Longrightarrow> rules (parents L n (lang_parent L t)) = None" for n
        using none [of "Suc n"] root by simp
      ultimately have "rule_walk L rules (lang_parent L t) = Some None" using less by fastforce
      with t root none show ?thesis by (subst (1 2) rule_walk.simps) auto
    qed
  qed
qed

text \<open>The tag whose rule a tag is given: the nearest one on its way up, else that of its base language.\<close>

definition rule_tag :: "'tag lang_ops \<Rightarrow> ('tag \<Rightarrow> bool) \<Rightarrow> 'tag \<Rightarrow> 'tag \<Rightarrow> bool" where
  "rule_tag L has tag t \<longleftrightarrow> has t \<and>
     ((\<exists>n. visited L n tag \<and> parents L n tag = t \<and> (\<forall>m < n. \<not> has (parents L m tag))) \<or>
      (\<forall>n. visited L n tag \<longrightarrow> \<not> has (parents L n tag)) \<and> lang_base_tag L tag = t)"

lemma Rule_of_tag:
  assumes "parents_reach_root L depth" and "rule_tag L (\<lambda>t. rules t \<noteq> None) tag t"
  shows "Rule L rules tag = Some (rules t)"
proof -
  consider n where "visited L n tag" "parents L n tag = t" "\<forall>m < n. rules (parents L m tag) = None"
    | "\<forall>n. visited L n tag \<longrightarrow> rules (parents L n tag) = None" "lang_base_tag L tag = t"
    using assms(2) by (auto simp: rule_tag_def)
  then show ?thesis
  proof cases
    case 1
    obtain r where "rules t = Some r" using assms(2) by (auto simp: rule_tag_def)
    with rule_walk_first [of L n tag rules r] 1 show ?thesis by (simp add: Rule_def)
  next
    case 2
    then have "rule_walk L rules tag = Some None" using rule_walk_outcome [OF assms(1), of tag rules] by force
    with 2(2) show ?thesis by (simp add: Rule_def)
  qed
qed

lemma Rule_terminates: "parents_reach_root L depth \<Longrightarrow> \<exists>r. Rule L rules tag = Some r"
  using rule_walk_outcome [of L depth tag rules] by (auto simp: Rule_def)

lemma Rule_own: "rules tag = Some r \<Longrightarrow> Rule L rules tag = Some (Some r)"
  by (simp add: Rule_def rule_walk.simps [of L rules tag])

end
