(* ===== verification/Plural_Cldr.thy ===== *)
theory Plural_Cldr
  imports Plural_Rules
begin

section \<open>The CLDR specification of the plural rules\<close>

text \<open>
  Each branch of a generated rule carries the CLDR condition it was generated from as a comment
  (\<^verbatim>\<open>// v = 0 and i % 10 = 2..4 and i % 100 != 12..14\<close>).  Here those comments are data: a condition
  is a disjunction of conjunctions of relations, a relation compares an operand, possibly modulo a
  number, with a list of integers and integer ranges.  Their meaning is given on exact rational
  operands: \<open>n\<close> is the absolute value of the number (\<open>n_val\<close>), and a range holds the integers
  between its bounds, so a fraction is in no range.  \<open>default_entries_implement\<close> says that all forty
  generated functions select the form their conditions select.  \<open>cldr_locales\<close> has the languages of each
  rule, and \<open>DefaultRules_form\<close> says that the rules that \<^verbatim>\<open>DefaultRules\<close> installs for the tag of a
  language select by that language's conditions.
\<close>

datatype cldr_operand = Op_n | Op_i | Op_v | Op_w | Op_f | Op_t | Op_e
datatype cldr_range = Exact int | Range int int
datatype cldr_rel = Rel cldr_operand "int option" bool "cldr_range list"

type_synonym cldr_cond = "cldr_rel list list"
type_synonym cldr_rule = "(form \<times> cldr_cond) list"

fun operand_val :: "'f operands \<Rightarrow> cldr_operand \<Rightarrow> rat" where
  "operand_val ops Op_n = n_val ops"
| "operand_val ops Op_i = of_int (op_I ops)"
| "operand_val ops Op_v = of_int (op_V ops)"
| "operand_val ops Op_w = of_int (op_W ops)"
| "operand_val ops Op_f = of_int (op_F ops)"
| "operand_val ops Op_t = of_int (op_T ops)"
| "operand_val ops Op_e = of_int (op_C ops)"

definition rat_mod :: "rat \<Rightarrow> int \<Rightarrow> rat" where
  "rat_mod x m = x - of_int m * of_int \<lfloor>x / of_int m\<rfloor>"

fun in_range :: "rat \<Rightarrow> cldr_range \<Rightarrow> bool" where
  "in_range x (Exact a) = (x = of_int a)"
| "in_range x (Range a b) = (x = of_int \<lfloor>x\<rfloor> \<and> a \<le> \<lfloor>x\<rfloor> \<and> \<lfloor>x\<rfloor> \<le> b)"

fun rel_holds :: "'f operands \<Rightarrow> cldr_rel \<Rightarrow> bool" where
  "rel_holds ops (Rel opnd md neg rs) =
     (let x = operand_val ops opnd;
          y = (case md of None \<Rightarrow> x | Some m \<Rightarrow> rat_mod x m)
      in if neg then \<not> list_ex (in_range y) rs else list_ex (in_range y) rs)"

definition cond_holds :: "'f operands \<Rightarrow> cldr_cond \<Rightarrow> bool" where
  "cond_holds ops c = list_ex (list_all (rel_holds ops)) c"

fun cldr_select :: "cldr_rule \<Rightarrow> 'f operands \<Rightarrow> form" where
  "cldr_select [] ops = Other"
| "cldr_select ((f, c) # rs) ops = (if cond_holds ops c then f else cldr_select rs ops)"

subsection \<open>The conditions of the forty rules\<close>

definition cldr_bm :: "cldr_rule" where
  "cldr_bm =
     []"

definition cldr_am :: "cldr_rule" where
  "cldr_am =
     [(One,
       [[Rel Op_i None False [Exact 0]],
        [Rel Op_n None False [Exact 1]]])]"

definition cldr_ff :: "cldr_rule" where
  "cldr_ff =
     [(One,
       [[Rel Op_i None False [Exact 0, Exact 1]]])]"

definition cldr_ast :: "cldr_rule" where
  "cldr_ast =
     [(One,
       [[Rel Op_i None False [Exact 1], Rel Op_v None False [Exact 0]]])]"

definition cldr_si :: "cldr_rule" where
  "cldr_si =
     [(One,
       [[Rel Op_n None False [Exact 0, Exact 1]],
        [Rel Op_i None False [Exact 0], Rel Op_f None False [Exact 1]]])]"

definition cldr_ak :: "cldr_rule" where
  "cldr_ak =
     [(One,
       [[Rel Op_n None False [Range 0 1]]])]"

definition cldr_tzm :: "cldr_rule" where
  "cldr_tzm =
     [(One,
       [[Rel Op_n None False [Range 0 1]],
        [Rel Op_n None False [Range 11 99]]])]"

definition cldr_af :: "cldr_rule" where
  "cldr_af =
     [(One,
       [[Rel Op_n None False [Exact 1]]])]"

definition cldr_da :: "cldr_rule" where
  "cldr_da =
     [(One,
       [[Rel Op_n None False [Exact 1]],
        [Rel Op_t None True [Exact 0], Rel Op_i None False [Exact 0, Exact 1]]])]"

definition cldr_is :: "cldr_rule" where
  "cldr_is =
     [(One,
       [[Rel Op_t None False [Exact 0], Rel Op_i (Some 10) False [Exact 1], Rel Op_i (Some 100) True [Exact 11]],
        [Rel Op_t (Some 10) False [Exact 1], Rel Op_t (Some 100) True [Exact 11]]])]"

definition cldr_mk :: "cldr_rule" where
  "cldr_mk =
     [(One,
       [[Rel Op_v None False [Exact 0], Rel Op_i (Some 10) False [Exact 1], Rel Op_i (Some 100) True [Exact 11]],
        [Rel Op_f (Some 10) False [Exact 1], Rel Op_f (Some 100) True [Exact 11]]])]"

definition cldr_ceb :: "cldr_rule" where
  "cldr_ceb =
     [(One,
       [[Rel Op_v None False [Exact 0], Rel Op_i None False [Exact 1, Exact 2, Exact 3]],
        [Rel Op_v None False [Exact 0], Rel Op_i (Some 10) True [Exact 4, Exact 6, Exact 9]],
        [Rel Op_v None True [Exact 0], Rel Op_f (Some 10) True [Exact 4, Exact 6, Exact 9]]])]"

definition cldr_lv :: "cldr_rule" where
  "cldr_lv =
     [(Zero,
       [[Rel Op_n (Some 10) False [Exact 0]],
        [Rel Op_n (Some 100) False [Range 11 19]],
        [Rel Op_v None False [Exact 2], Rel Op_f (Some 100) False [Range 11 19]]]),
      (One,
       [[Rel Op_n (Some 10) False [Exact 1], Rel Op_n (Some 100) True [Exact 11]],
        [Rel Op_v None False [Exact 2], Rel Op_f (Some 10) False [Exact 1], Rel Op_f (Some 100) True [Exact 11]],
        [Rel Op_v None True [Exact 2], Rel Op_f (Some 10) False [Exact 1]]])]"

definition cldr_lag :: "cldr_rule" where
  "cldr_lag =
     [(Zero,
       [[Rel Op_n None False [Exact 0]]]),
      (One,
       [[Rel Op_i None False [Exact 0, Exact 1], Rel Op_n None True [Exact 0]]])]"

definition cldr_blo :: "cldr_rule" where
  "cldr_blo =
     [(Zero,
       [[Rel Op_n None False [Exact 0]]]),
      (One,
       [[Rel Op_n None False [Exact 1]]])]"

definition cldr_ksh :: "cldr_rule" where
  "cldr_ksh =
     [(Zero,
       [[Rel Op_n None False [Exact 0]]]),
      (One,
       [[Rel Op_n None False [Exact 1]]])]"

definition cldr_he :: "cldr_rule" where
  "cldr_he =
     [(One,
       [[Rel Op_i None False [Exact 1], Rel Op_v None False [Exact 0]],
        [Rel Op_i None False [Exact 0], Rel Op_v None True [Exact 0]]]),
      (Two,
       [[Rel Op_i None False [Exact 2], Rel Op_v None False [Exact 0]]])]"

definition cldr_iu :: "cldr_rule" where
  "cldr_iu =
     [(One,
       [[Rel Op_n None False [Exact 1]]]),
      (Two,
       [[Rel Op_n None False [Exact 2]]])]"

definition cldr_shi :: "cldr_rule" where
  "cldr_shi =
     [(One,
       [[Rel Op_i None False [Exact 0]],
        [Rel Op_n None False [Exact 1]]]),
      (Few,
       [[Rel Op_n None False [Range 2 10]]])]"

definition cldr_mo :: "cldr_rule" where
  "cldr_mo =
     [(One,
       [[Rel Op_i None False [Exact 1], Rel Op_v None False [Exact 0]]]),
      (Few,
       [[Rel Op_v None True [Exact 0]],
        [Rel Op_n None False [Exact 0]],
        [Rel Op_n None True [Exact 1], Rel Op_n (Some 100) False [Range 1 19]]])]"

definition cldr_bs :: "cldr_rule" where
  "cldr_bs =
     [(One,
       [[Rel Op_v None False [Exact 0], Rel Op_i (Some 10) False [Exact 1], Rel Op_i (Some 100) True [Exact 11]],
        [Rel Op_f (Some 10) False [Exact 1], Rel Op_f (Some 100) True [Exact 11]]]),
      (Few,
       [[Rel Op_v None False [Exact 0], Rel Op_i (Some 10) False [Range 2 4], Rel Op_i (Some 100) True [Range 12 14]],
        [Rel Op_f (Some 10) False [Range 2 4], Rel Op_f (Some 100) True [Range 12 14]]])]"

definition cldr_fr :: "cldr_rule" where
  "cldr_fr =
     [(One,
       [[Rel Op_i None False [Exact 0, Exact 1]]]),
      (Many,
       [[Rel Op_e None False [Exact 0], Rel Op_i None True [Exact 0], Rel Op_i (Some 1000000) False [Exact 0], Rel Op_v None False [Exact 0]],
        [Rel Op_e None True [Range 0 5]]])]"

definition cldr_pt :: "cldr_rule" where
  "cldr_pt =
     [(One,
       [[Rel Op_i None False [Range 0 1]]]),
      (Many,
       [[Rel Op_e None False [Exact 0], Rel Op_i None True [Exact 0], Rel Op_i (Some 1000000) False [Exact 0], Rel Op_v None False [Exact 0]],
        [Rel Op_e None True [Range 0 5]]])]"

definition cldr_ca :: "cldr_rule" where
  "cldr_ca =
     [(One,
       [[Rel Op_i None False [Exact 1], Rel Op_v None False [Exact 0]]]),
      (Many,
       [[Rel Op_e None False [Exact 0], Rel Op_i None True [Exact 0], Rel Op_i (Some 1000000) False [Exact 0], Rel Op_v None False [Exact 0]],
        [Rel Op_e None True [Range 0 5]]])]"

definition cldr_es :: "cldr_rule" where
  "cldr_es =
     [(One,
       [[Rel Op_n None False [Exact 1]]]),
      (Many,
       [[Rel Op_e None False [Exact 0], Rel Op_i None True [Exact 0], Rel Op_i (Some 1000000) False [Exact 0], Rel Op_v None False [Exact 0]],
        [Rel Op_e None True [Range 0 5]]])]"

definition cldr_gd :: "cldr_rule" where
  "cldr_gd =
     [(One,
       [[Rel Op_n None False [Exact 1, Exact 11]]]),
      (Two,
       [[Rel Op_n None False [Exact 2, Exact 12]]]),
      (Few,
       [[Rel Op_n None False [Range 3 10, Range 13 19]]])]"

definition cldr_sl :: "cldr_rule" where
  "cldr_sl =
     [(One,
       [[Rel Op_v None False [Exact 0], Rel Op_i (Some 100) False [Exact 1]]]),
      (Two,
       [[Rel Op_v None False [Exact 0], Rel Op_i (Some 100) False [Exact 2]]]),
      (Few,
       [[Rel Op_v None False [Exact 0], Rel Op_i (Some 100) False [Range 3 4]],
        [Rel Op_v None True [Exact 0]]])]"

definition cldr_dsb :: "cldr_rule" where
  "cldr_dsb =
     [(One,
       [[Rel Op_v None False [Exact 0], Rel Op_i (Some 100) False [Exact 1]],
        [Rel Op_f (Some 100) False [Exact 1]]]),
      (Two,
       [[Rel Op_v None False [Exact 0], Rel Op_i (Some 100) False [Exact 2]],
        [Rel Op_f (Some 100) False [Exact 2]]]),
      (Few,
       [[Rel Op_v None False [Exact 0], Rel Op_i (Some 100) False [Range 3 4]],
        [Rel Op_f (Some 100) False [Range 3 4]]])]"

definition cldr_cs :: "cldr_rule" where
  "cldr_cs =
     [(One,
       [[Rel Op_i None False [Exact 1], Rel Op_v None False [Exact 0]]]),
      (Few,
       [[Rel Op_i None False [Range 2 4], Rel Op_v None False [Exact 0]]]),
      (Many,
       [[Rel Op_v None True [Exact 0]]])]"

definition cldr_pl :: "cldr_rule" where
  "cldr_pl =
     [(One,
       [[Rel Op_i None False [Exact 1], Rel Op_v None False [Exact 0]]]),
      (Few,
       [[Rel Op_v None False [Exact 0], Rel Op_i (Some 10) False [Range 2 4], Rel Op_i (Some 100) True [Range 12 14]]]),
      (Many,
       [[Rel Op_v None False [Exact 0], Rel Op_i None True [Exact 1], Rel Op_i (Some 10) False [Range 0 1]],
        [Rel Op_v None False [Exact 0], Rel Op_i (Some 10) False [Range 5 9]],
        [Rel Op_v None False [Exact 0], Rel Op_i (Some 100) False [Range 12 14]]])]"

definition cldr_be :: "cldr_rule" where
  "cldr_be =
     [(One,
       [[Rel Op_n (Some 10) False [Exact 1], Rel Op_n (Some 100) True [Exact 11]]]),
      (Few,
       [[Rel Op_n (Some 10) False [Range 2 4], Rel Op_n (Some 100) True [Range 12 14]]]),
      (Many,
       [[Rel Op_n (Some 10) False [Exact 0]],
        [Rel Op_n (Some 10) False [Range 5 9]],
        [Rel Op_n (Some 100) False [Range 11 14]]])]"

definition cldr_lt :: "cldr_rule" where
  "cldr_lt =
     [(One,
       [[Rel Op_n (Some 10) False [Exact 1], Rel Op_n (Some 100) True [Range 11 19]]]),
      (Few,
       [[Rel Op_n (Some 10) False [Range 2 9], Rel Op_n (Some 100) True [Range 11 19]]]),
      (Many,
       [[Rel Op_f None True [Exact 0]]])]"

definition cldr_ru :: "cldr_rule" where
  "cldr_ru =
     [(One,
       [[Rel Op_v None False [Exact 0], Rel Op_i (Some 10) False [Exact 1], Rel Op_i (Some 100) True [Exact 11]]]),
      (Few,
       [[Rel Op_v None False [Exact 0], Rel Op_i (Some 10) False [Range 2 4], Rel Op_i (Some 100) True [Range 12 14]]]),
      (Many,
       [[Rel Op_v None False [Exact 0], Rel Op_i (Some 10) False [Exact 0]],
        [Rel Op_v None False [Exact 0], Rel Op_i (Some 10) False [Range 5 9]],
        [Rel Op_v None False [Exact 0], Rel Op_i (Some 100) False [Range 11 14]]])]"

definition cldr_br :: "cldr_rule" where
  "cldr_br =
     [(One,
       [[Rel Op_n (Some 10) False [Exact 1], Rel Op_n (Some 100) True [Exact 11, Exact 71, Exact 91]]]),
      (Two,
       [[Rel Op_n (Some 10) False [Exact 2], Rel Op_n (Some 100) True [Exact 12, Exact 72, Exact 92]]]),
      (Few,
       [[Rel Op_n (Some 10) False [Range 3 4, Exact 9], Rel Op_n (Some 100) True [Range 10 19, Range 70 79, Range 90 99]]]),
      (Many,
       [[Rel Op_n None True [Exact 0], Rel Op_n (Some 1000000) False [Exact 0]]])]"

definition cldr_mt :: "cldr_rule" where
  "cldr_mt =
     [(One,
       [[Rel Op_n None False [Exact 1]]]),
      (Two,
       [[Rel Op_n None False [Exact 2]]]),
      (Few,
       [[Rel Op_n None False [Exact 0]],
        [Rel Op_n (Some 100) False [Range 3 10]]]),
      (Many,
       [[Rel Op_n (Some 100) False [Range 11 19]]])]"

definition cldr_ga :: "cldr_rule" where
  "cldr_ga =
     [(One,
       [[Rel Op_n None False [Exact 1]]]),
      (Two,
       [[Rel Op_n None False [Exact 2]]]),
      (Few,
       [[Rel Op_n None False [Range 3 6]]]),
      (Many,
       [[Rel Op_n None False [Range 7 10]]])]"

definition cldr_gv :: "cldr_rule" where
  "cldr_gv =
     [(One,
       [[Rel Op_v None False [Exact 0], Rel Op_i (Some 10) False [Exact 1]]]),
      (Two,
       [[Rel Op_v None False [Exact 0], Rel Op_i (Some 10) False [Exact 2]]]),
      (Few,
       [[Rel Op_v None False [Exact 0], Rel Op_i (Some 100) False [Exact 0, Exact 20, Exact 40, Exact 60, Exact 80]]]),
      (Many,
       [[Rel Op_v None True [Exact 0]]])]"

definition cldr_kw :: "cldr_rule" where
  "cldr_kw =
     [(Zero,
       [[Rel Op_n None False [Exact 0]]]),
      (One,
       [[Rel Op_n None False [Exact 1]]]),
      (Two,
       [[Rel Op_n (Some 100) False [Exact 2, Exact 22, Exact 42, Exact 62, Exact 82]],
        [Rel Op_n (Some 1000) False [Exact 0], Rel Op_n (Some 100000) False [Range 1000 20000, Exact 40000, Exact 60000, Exact 80000]],
        [Rel Op_n None True [Exact 0], Rel Op_n (Some 1000000) False [Exact 100000]]]),
      (Few,
       [[Rel Op_n (Some 100) False [Exact 3, Exact 23, Exact 43, Exact 63, Exact 83]]]),
      (Many,
       [[Rel Op_n None True [Exact 1], Rel Op_n (Some 100) False [Exact 1, Exact 21, Exact 41, Exact 61, Exact 81]]])]"

definition cldr_ar :: "cldr_rule" where
  "cldr_ar =
     [(Zero,
       [[Rel Op_n None False [Exact 0]]]),
      (One,
       [[Rel Op_n None False [Exact 1]]]),
      (Two,
       [[Rel Op_n None False [Exact 2]]]),
      (Few,
       [[Rel Op_n (Some 100) False [Range 3 10]]]),
      (Many,
       [[Rel Op_n (Some 100) False [Range 11 99]]])]"

definition cldr_cy :: "cldr_rule" where
  "cldr_cy =
     [(Zero,
       [[Rel Op_n None False [Exact 0]]]),
      (One,
       [[Rel Op_n None False [Exact 1]]]),
      (Two,
       [[Rel Op_n None False [Exact 2]]]),
      (Few,
       [[Rel Op_n None False [Exact 3]]]),
      (Many,
       [[Rel Op_n None False [Exact 6]]])]"

definition cldr_rules :: "cldr_rule list" where
  "cldr_rules =
     [cldr_bm, cldr_am, cldr_ff, cldr_ast, cldr_si, cldr_ak, cldr_tzm, cldr_af, cldr_da,
      cldr_is, cldr_mk, cldr_ceb, cldr_lv, cldr_lag, cldr_blo, cldr_ksh, cldr_he, cldr_iu,
      cldr_shi, cldr_mo, cldr_bs, cldr_fr, cldr_pt, cldr_ca, cldr_es, cldr_gd, cldr_sl,
      cldr_dsb, cldr_cs, cldr_pl, cldr_be, cldr_lt, cldr_ru, cldr_br, cldr_mt, cldr_ga, cldr_gv,
      cldr_kw, cldr_ar, cldr_cy]"

lemmas cldr_defs =
  cldr_bm_def cldr_am_def cldr_ff_def cldr_ast_def cldr_si_def cldr_ak_def cldr_tzm_def
  cldr_af_def cldr_da_def cldr_is_def cldr_mk_def cldr_ceb_def cldr_lv_def cldr_lag_def
  cldr_blo_def cldr_ksh_def cldr_he_def cldr_iu_def cldr_shi_def cldr_mo_def cldr_bs_def
  cldr_fr_def cldr_pt_def cldr_ca_def cldr_es_def cldr_gd_def cldr_sl_def cldr_dsb_def
  cldr_cs_def cldr_pl_def cldr_be_def cldr_lt_def cldr_ru_def cldr_br_def cldr_mt_def
  cldr_ga_def cldr_gv_def cldr_kw_def cldr_ar_def cldr_cy_def

subsection \<open>The relations on integer and fractional operands\<close>

fun int_in_range :: "int \<Rightarrow> cldr_range \<Rightarrow> bool" where
  "int_in_range k (Exact a) = (k = a)"
| "int_in_range k (Range a b) = (a \<le> k \<and> k \<le> b)"

lemma in_range_of_int: "in_range (of_int k) r = int_in_range k r"
  by (cases r) auto

lemma rat_mod_of_int: "0 < m \<Longrightarrow> rat_mod (of_int k) m = of_int (k mod m)"
proof -
  assume "0 < m"
  have "\<lfloor>(of_int k :: rat) / of_int m\<rfloor> = k div m" by (rule floor_divide_of_int_eq)
  then show ?thesis by (simp add: rat_mod_def minus_div_mult_eq_mod [symmetric] mult.commute)
qed

lemma n_val_integer: "op_T ops = 0 \<Longrightarrow> n_val ops = of_int (op_I ops)"
  by (simp add: n_val_def)

lemma n_val_fraction:
  assumes "wf_operands ops" and "op_T ops \<noteq> 0"
  shows "n_val ops - of_int k \<noteq> of_int j"
proof
  assume eq: "n_val ops - of_int k = of_int j"
  define d :: int where "d = 10 ^ nat (op_W ops)"
  have d: "0 < d" by (simp add: d_def)
  have "n_val ops = of_int (op_I ops) + of_int (op_T ops) / of_int d"
    by (simp add: n_val_def d_def)
  with eq have "(of_int (op_T ops) :: rat) = of_int ((j + k - op_I ops) * d)"
    using d by (simp add: field_simps)
  then have T: "op_T ops = (j + k - op_I ops) * d" by (simp only: of_int_eq_iff)
  have "0 < op_T ops" and "op_T ops < d"
    using assms by (auto simp: wf_operands_def d_def)
  with T d have "0 < j + k - op_I ops" and "j + k - op_I ops < 1"
    by (auto simp: zero_less_mult_iff)
  then show False by simp
qed

lemma in_range_fraction:
  assumes "wf_operands ops" and "op_T ops \<noteq> 0"
  shows "\<not> in_range (n_val ops - of_int k) r"
  using n_val_fraction [OF assms, of k] by (cases r) (simp_all del: floor_diff_of_int)

lemma in_range_n:
  assumes "wf_operands ops"
  shows "in_range (n_val ops) r \<longleftrightarrow> op_T ops = 0 \<and> int_in_range (op_I ops) r"
  using in_range_fraction [OF assms, of 0 r]
  by (cases "op_T ops = 0") (auto simp: n_val_integer in_range_of_int)

lemma in_range_n_mod:
  assumes "wf_operands ops" and "0 < m"
  shows "in_range (rat_mod (n_val ops) m) r \<longleftrightarrow> op_T ops = 0 \<and> int_in_range (op_I ops mod m) r"
proof (cases "op_T ops = 0")
  case True
  then show ?thesis by (simp add: n_val_integer rat_mod_of_int assms(2) in_range_of_int)
next
  case False
  have "rat_mod (n_val ops) m = n_val ops - of_int (m * \<lfloor>n_val ops / of_int m\<rfloor>)"
    by (simp add: rat_mod_def)
  then show ?thesis
    using False in_range_fraction [OF assms(1) False, of "m * \<lfloor>n_val ops / of_int m\<rfloor>" r] by simp
qed

lemma wf_nonneg:
  assumes "wf_operands ops"
  shows "0 \<le> op_I ops" "0 \<le> op_V ops" "0 \<le> op_F ops" "0 \<le> op_T ops"
  using assms by (auto simp: wf_operands_def)

lemma code_predicates:
  assumes "wf_operands ops"
  shows "go_rem (op_I ops) (numeral m) = op_I ops mod numeral m"
    "go_rem (op_F ops) (numeral m) = op_F ops mod numeral m"
    "go_rem (op_T ops) (numeral m) = op_T ops mod numeral m"
  using wf_nonneg [OF assms] by (simp_all add: go_rem_nonneg)

text \<open>Each relation, in the form the code's predicates unfold to.\<close>

fun n_in_range :: "int \<Rightarrow> 'f operands \<Rightarrow> cldr_range \<Rightarrow> bool" where
  "n_in_range k ops (Exact a) = (k = a \<and> op_T ops = 0)"
| "n_in_range k ops (Range a b) = (op_T ops = 0 \<and> a \<le> k \<and> k \<le> b)"

lemma n_in_range: "n_in_range k ops r \<longleftrightarrow> op_T ops = 0 \<and> int_in_range k r"
  by (cases r) auto

lemma rel_n:
  assumes "wf_operands ops"
  shows "rel_holds ops (Rel Op_n None neg rs) =
      (if neg then \<not> list_ex (n_in_range (op_I ops) ops) rs else list_ex (n_in_range (op_I ops) ops) rs)"
    "rel_holds ops (Rel Op_n (Some (numeral m)) neg rs) =
      (if neg then \<not> list_ex (n_in_range (op_I ops mod numeral m) ops) rs
       else list_ex (n_in_range (op_I ops mod numeral m) ops) rs)"
proof -
  have "in_range (n_val ops) = n_in_range (op_I ops) ops"
    and "in_range (rat_mod (n_val ops) (numeral m)) = n_in_range (op_I ops mod numeral m) ops"
    using in_range_n [OF assms] in_range_n_mod [OF assms, of "numeral m"]
    by (auto simp: fun_eq_iff n_in_range)
  then show "rel_holds ops (Rel Op_n None neg rs) =
      (if neg then \<not> list_ex (n_in_range (op_I ops) ops) rs else list_ex (n_in_range (op_I ops) ops) rs)"
    and "rel_holds ops (Rel Op_n (Some (numeral m)) neg rs) =
      (if neg then \<not> list_ex (n_in_range (op_I ops mod numeral m) ops) rs
       else list_ex (n_in_range (op_I ops mod numeral m) ops) rs)"
    by simp_all
qed

lemma rel_integer:
  assumes "operand_val ops opnd = of_int k"
  shows "rel_holds ops (Rel opnd None neg rs) =
      (if neg then \<not> list_ex (int_in_range k) rs else list_ex (int_in_range k) rs)"
    "rel_holds ops (Rel opnd (Some (numeral m)) neg rs) =
      (if neg then \<not> list_ex (int_in_range (k mod numeral m)) rs
       else list_ex (int_in_range (k mod numeral m)) rs)"
  using assms by (simp_all add: in_range_of_int [abs_def] rat_mod_of_int Let_def)

lemmas rel_operands =
  rel_integer [OF operand_val.simps(2)] rel_integer [OF operand_val.simps(3)]
  rel_integer [OF operand_val.simps(5)] rel_integer [OF operand_val.simps(6)]
  rel_integer [OF operand_val.simps(7)]

lemmas predicate_defs =
  NEqualsAny_def NModEqualsAny_def NInRange_def NModInRange_def intEqualsAny_def intInRange_def

lemmas selection_simps =
  snd_conv plural_rule.select_convs cldr_select.simps cond_holds_def list_ex_Nil_iff list_ex_Cons_iff list.pred_inject
  n_in_range.simps int_in_range.simps if_True if_False Let_def simp_thms rel_operands

subsection \<open>The generated code implements its conditions\<close>

definition implements :: "'f rule_entry \<Rightarrow> cldr_rule \<Rightarrow> bool" where
  "implements e c \<longleftrightarrow>
     (\<forall>ops. wf_operands ops \<longrightarrow> PluralFormFunc (snd e) ops = cldr_select c ops)"

lemma default_entries_implement: "list_all2 implements default_entries cldr_rules"
  unfolding default_entries_def cldr_rules_def list_all2_Cons list_all2_Nil
  by (intro conjI TrueI)
    (simp only: implements_def rule_defs cldr_defs selection_simps predicate_defs
      code_predicates rel_n cong: imp_cong; fail)+

subsection \<open>The languages of the rules\<close>

text \<open>
  The languages of each rule, as the tests generated from the CLDR data list them
  (\<^verbatim>\<open>locales\<close> in \<^verbatim>\<open>rule_gen_test.go\<close>).
\<close>

definition cldr_locales :: "(string list \<times> cldr_rule) list" where
  "cldr_locales =
     [([''bm'', ''bo'', ''dz'', ''hnj'', ''id'', ''ig'', ''ii'', ''in'', ''ja'', ''jbo'', ''jv'',
        ''jw'', ''kde'', ''kea'', ''km'', ''ko'', ''lkt'', ''lo'', ''ms'', ''my'', ''nqo'',
        ''osa'', ''root'', ''sah'', ''ses'', ''sg'', ''su'', ''th'', ''to'', ''tpi'', ''vi'',
        ''wo'', ''yo'', ''yue'', ''zh''], cldr_bm),
      ([''am'', ''as'', ''bn'', ''doi'', ''fa'', ''gu'', ''hi'', ''kn'', ''pcm'', ''zu''], cldr_am),
      ([''ff'', ''hy'', ''kab''], cldr_ff),
      ([''ast'', ''de'', ''en'', ''et'', ''fi'', ''fy'', ''gl'', ''ia'', ''io'', ''ji'', ''lij'',
        ''nl'', ''sc'', ''sv'', ''sw'', ''ur'', ''yi''], cldr_ast),
      ([''si''], cldr_si),
      ([''ak'', ''bho'', ''csw'', ''guw'', ''ln'', ''mg'', ''nso'', ''pa'', ''ti'', ''wa''], cldr_ak),
      ([''tzm''], cldr_tzm),
      ([''af'', ''an'', ''asa'', ''az'', ''bal'', ''bem'', ''bez'', ''bg'', ''brx'', ''ce'',
        ''cgg'', ''chr'', ''ckb'', ''dv'', ''ee'', ''el'', ''eo'', ''eu'', ''fo'', ''fur'',
        ''gsw'', ''ha'', ''haw'', ''hu'', ''jgo'', ''jmc'', ''ka'', ''kaj'', ''kcg'', ''kk'',
        ''kkj'', ''kl'', ''ks'', ''ksb'', ''ku'', ''ky'', ''lb'', ''lg'', ''mas'', ''mgo'',
        ''ml'', ''mn'', ''mr'', ''nah'', ''nb'', ''nd'', ''ne'', ''nn'', ''nnh'', ''no'', ''nr'',
        ''ny'', ''nyn'', ''om'', ''or'', ''os'', ''pap'', ''ps'', ''rm'', ''rof'', ''rwk'',
        ''saq'', ''sd'', ''sdh'', ''seh'', ''sn'', ''so'', ''sq'', ''ss'', ''ssy'', ''st'',
        ''syr'', ''ta'', ''te'', ''teo'', ''tig'', ''tk'', ''tn'', ''tr'', ''ts'', ''ug'',
        ''uz'', ''ve'', ''vo'', ''vun'', ''wae'', ''xh'', ''xog''], cldr_af),
      ([''da''], cldr_da),
      ([''is''], cldr_is),
      ([''mk''], cldr_mk),
      ([''ceb'', ''fil'', ''tl''], cldr_ceb),
      ([''lv'', ''prg''], cldr_lv),
      ([''lag''], cldr_lag),
      ([''blo''], cldr_blo),
      ([''ksh''], cldr_ksh),
      ([''he'', ''iw''], cldr_he),
      ([''iu'', ''naq'', ''sat'', ''se'', ''sma'', ''smi'', ''smj'', ''smn'', ''sms''], cldr_iu),
      ([''shi''], cldr_shi),
      ([''mo'', ''ro''], cldr_mo),
      ([''bs'', ''hr'', ''sh'', ''sr''], cldr_bs),
      ([''fr''], cldr_fr),
      ([''pt''], cldr_pt),
      ([''ca'', ''it'', ''lld'', ''pt_PT'', ''scn'', ''vec''], cldr_ca),
      ([''es''], cldr_es),
      ([''gd''], cldr_gd),
      ([''sl''], cldr_sl),
      ([''dsb'', ''hsb''], cldr_dsb),
      ([''cs'', ''sk''], cldr_cs),
      ([''pl''], cldr_pl),
      ([''be''], cldr_be),
      ([''lt''], cldr_lt),
      ([''ru'', ''uk''], cldr_ru),
      ([''br''], cldr_br),
      ([''mt''], cldr_mt),
      ([''ga''], cldr_ga),
      ([''gv''], cldr_gv),
      ([''kw''], cldr_kw),
      ([''ar'', ''ars''], cldr_ar),
      ([''cy''], cldr_cy)]"

definition cldr_rule_of :: "string \<Rightarrow> cldr_rule option" where
  "cldr_rule_of = map_of (concat (map (\<lambda>(ls, c). map (\<lambda>l. (l, c)) ls) cldr_locales))"

text \<open>
  \<^verbatim>\<open>language.MustParse\<close> replaces a deprecated id by the current one (\<^verbatim>\<open>in\<close> by \<^verbatim>\<open>id\<close>, \<^verbatim>\<open>iw\<close> by \<^verbatim>\<open>he\<close>),
  so it is not injective; ids that it identifies are names of one language, to which CLDR gives one rule.
\<close>

definition aliases_agree :: "(string \<Rightarrow> 'tag option) \<Rightarrow> bool" where
  "aliases_agree p \<longleftrightarrow>
     (\<forall>l l' c c'. p l = p l' \<and> p l \<noteq> None \<and> cldr_rule_of l = Some c \<and> cldr_rule_of l' = Some c' \<longrightarrow> c = c')"

text \<open>No id has two rules: the ids, read as numbers, are told apart by a sort.\<close>

fun id_number :: "string \<Rightarrow> int" where
  "id_number [] = 0"
| "id_number (c # s) = of_char c + 128 * id_number s"

fun all_differ :: "int list \<Rightarrow> bool" where
  "all_differ [] = True"
| "all_differ (x # xs) =
     (all_differ (filter (\<lambda>y. y < x) xs) \<and> list_all (\<lambda>y. y \<noteq> x) xs \<and> all_differ (filter (\<lambda>y. x < y) xs))"

lemma distinct_partition:
  "distinct (filter P xs) \<Longrightarrow> distinct (filter (\<lambda>x. \<not> P x) xs) \<Longrightarrow> distinct xs"
  by (induction xs) (auto split: if_splits)

lemma all_differ_distinct: "all_differ xs \<Longrightarrow> distinct xs"
proof (induction xs rule: all_differ.induct)
  case (2 x xs)
  have "filter (\<lambda>y. \<not> y < x) xs = filter (\<lambda>y. x < y) xs"
    using "2.prems" by (intro filter_cong refl) (auto simp: list_all_iff)
  with 2 show ?case using distinct_partition [of "\<lambda>y. y < x" xs] by (auto simp: list_all_iff)
qed simp

lemma cldr_locales_differ: "all_differ (map id_number (concat (map fst cldr_locales)))"
  by code_simp

lemma cldr_locales_distinct: "distinct (concat (map fst cldr_locales))"
  using all_differ_distinct [OF cldr_locales_differ] by (simp add: distinct_map)

lemma concat_map_fst: "map fst (concat (map (\<lambda>(ls, c). map (\<lambda>l. (l, c)) ls) xs)) = concat (map fst xs)"
  by (induction xs) (auto simp: comp_def)

lemma cldr_rule_of_row:
  assumes "(ls, c) \<in> set cldr_locales" and "l \<in> set ls"
  shows "cldr_rule_of l = Some c"
  unfolding cldr_rule_of_def
  by (rule map_of_is_SomeI) (use assms cldr_locales_distinct in \<open>auto simp: concat_map_fst\<close>)

lemma cldr_rule_of_None: "\<not> list_ex (\<lambda>row. List.member (fst row) l) cldr_locales \<Longrightarrow> cldr_rule_of l = None"
  by (auto simp: cldr_rule_of_def map_of_eq_None_iff list_ex_iff List.member_iff)

definition entry_of_row :: "'f rule_entry \<Rightarrow> string list \<times> cldr_rule \<Rightarrow> bool" where
  "entry_of_row e row \<longleftrightarrow> fst e = fst row \<and> implements e (snd row)"

lemma cldr_locales_rules: "map snd cldr_locales = cldr_rules"
  by (simp only: cldr_locales_def cldr_rules_def list.map snd_conv)

lemma default_entries_locales: "map fst (default_entries :: 'f rule_entry list) = map fst cldr_locales"
  by (simp only: cldr_locales_def default_entries_def list.map fst_conv rule_defs)

lemma default_entries_rows: "list_all2 entry_of_row default_entries cldr_locales"
proof -
  have "list_all2 implements (default_entries :: 'a rule_entry list) (map snd cldr_locales)"
    unfolding cldr_locales_rules by (rule default_entries_implement)
  moreover have "list_all2 (\<lambda>e row. fst e = fst row) (default_entries :: 'a rule_entry list) cldr_locales"
    using default_entries_locales [where 'f = 'a]
    by (auto simp: list_all2_conv_all_nth) (metis length_map, metis length_map nth_map)
  ultimately show ?thesis
    by (auto simp: list_all2_conv_all_nth entry_of_row_def)
qed

lemma cldr_rule_of_entry:
  assumes "(e :: 'f rule_entry) \<in> set default_entries" and "l \<in> set (fst e)"
  shows "\<exists>c. cldr_rule_of l = Some c \<and> implements e c"
proof -
  obtain row where "row \<in> set cldr_locales" "entry_of_row e row"
    using default_entries_rows [where 'a = 'f] assms(1) by (metis in_set_conv_nth list_all2_conv_all_nth)
  then show ?thesis using assms(2) cldr_rule_of_row [of "fst row" "snd row" l] by (auto simp: entry_of_row_def)
qed

lemma implements_eq: "implements e c \<Longrightarrow> wf_operands ops \<Longrightarrow> PluralFormFunc (snd e) ops = cldr_select c ops"
  by (simp add: implements_def)

text \<open>The rule that the table holds for a tag is that of the ids that are parsed to it.\<close>

lemma addPluralRules_origin:
  "addPluralRules p rules ids ps = Ok rules' \<Longrightarrow> rules' t = Some r \<Longrightarrow>
    rules t = Some r \<or> r = ps \<and> (\<exists>l \<in> set ids. l \<noteq> ''root'' \<and> p l = Some t)"
  by (induction p rules ids ps rule: addPluralRules.induct) (auto split: if_splits option.splits)

lemma add_entries_origin:
  "add_entries p rules es = Ok rules' \<Longrightarrow> rules' t = Some r \<Longrightarrow>
    rules t = Some r \<or> (\<exists>e \<in> set es. r = snd e \<and> (\<exists>l \<in> set (fst e). l \<noteq> ''root'' \<and> p l = Some t))"
proof (induction es arbitrary: rules)
  case (Cons e es)
  then obtain r1 where r1: "addPluralRules p rules (fst e) (snd e) = Ok r1" and "add_entries p r1 es = Ok rules'"
    by (auto simp: go_bind_Ok_iff)
  from Cons.IH [OF this(2) Cons.prems(2)] show ?case
    using addPluralRules_origin [OF r1] by auto
qed simp

lemma DefaultRules_origin:
  assumes "DefaultRules p = Ok rules" and "rules t = Some r"
  shows "\<exists>l c. l \<noteq> ''root'' \<and> p l = Some t \<and> cldr_rule_of l = Some c \<and>
    (\<forall>ops. wf_operands ops \<longrightarrow> PluralFormFunc r ops = cldr_select c ops)"
proof -
  obtain e l where e: "e \<in> set default_entries" "r = snd e" "l \<in> set (fst e)" "l \<noteq> ''root''" "p l = Some t"
    using add_entries_origin [OF assms(1) [unfolded DefaultRules_def] assms(2)] by auto
  with cldr_rule_of_entry [OF e(1,3)] show ?thesis by (auto simp: implements_def)
qed

lemma cldr_rule_of_entry_exists:
  assumes "cldr_rule_of l = Some c"
  shows "\<exists>e \<in> set (default_entries :: 'f rule_entry list). l \<in> set (fst e)"
proof -
  obtain ls where row: "(ls, c) \<in> set cldr_locales" "l \<in> set ls"
    using map_of_SomeD [OF assms [unfolded cldr_rule_of_def]] by auto
  then have "ls \<in> set (map fst cldr_locales)" by force
  then have "ls \<in> fst ` set (default_entries :: 'f rule_entry list)"
    unfolding default_entries_locales [where 'f = 'f, symmetric] by simp
  with row(2) show ?thesis by auto
qed

text \<open>A tag has a rule in the table exactly when it is that of an id of the CLDR data.\<close>

definition cldr_tag :: "(string \<Rightarrow> 'tag option) \<Rightarrow> 'tag \<Rightarrow> bool" where
  "cldr_tag p t \<longleftrightarrow> (\<exists>l. l \<noteq> ''root'' \<and> p l = Some t \<and> cldr_rule_of l \<noteq> None)"

lemma DefaultRules_dom:
  assumes "DefaultRules p = Ok (rules :: ('tag, 'f) rules)"
  shows "rules t \<noteq> None \<longleftrightarrow> cldr_tag p t"
proof
  assume "rules t \<noteq> None"
  then obtain r where "rules t = Some r" by auto
  from DefaultRules_origin [OF assms this] show "cldr_tag p t" by (auto simp: cldr_tag_def)
next
  assume "cldr_tag p t"
  then obtain l c where l: "l \<noteq> ''root''" "p l = Some t" "cldr_rule_of l = Some c" by (auto simp: cldr_tag_def)
  from cldr_rule_of_entry_exists [OF l(3), where 'f = 'f] obtain e :: "'f rule_entry" where
    "e \<in> set default_entries" "l \<in> set (fst e)" by blast
  from add_entries_dom [OF assms [unfolded DefaultRules_def] this l(1)] l(2)
  show "rules t \<noteq> None" by auto
qed

lemma DefaultRules_form:
  assumes "DefaultRules p = Ok rules" and "aliases_agree p"
    and "cldr_rule_of l = Some c" and "p l = Some t" and "rules t = Some r" and "wf_operands ops"
  shows "PluralFormFunc r ops = cldr_select c ops \<and> PluralFormFunc r ops \<in> PluralForms r"
proof -
  obtain l' c' where l': "p l' = Some t" "cldr_rule_of l' = Some c'"
      and f: "PluralFormFunc r ops = cldr_select c' ops"
    using DefaultRules_origin [OF assms(1,5)] assms(6) by blast
  have "p l' = p l" "p l' \<noteq> None" using l'(1) assms(4) by simp_all
  with assms(2,3) l'(2) have "c' = c" unfolding aliases_agree_def by blast
  then show ?thesis using f DefaultRules_valid [OF assms(1,5)] by (metis valid_rule_def)
qed

subsection \<open>The value of a count\<close>

text \<open>
  The counts that have a value: the integers but the least \<^verbatim>\<open>int64\<close>, whose negation overflows, and the
  decimal literals with an optional sign and exponent.
\<close>

inductive count_value :: "number \<Rightarrow> rat \<Rightarrow> bool" where
  cv_int: "in_int64 i \<Longrightarrow> i \<noteq> min_int64 \<Longrightarrow> n \<in> {NInt i, NInt8 i, NInt16 i, NInt32 i, NInt64 i} \<Longrightarrow>
    count_value n \<bar>of_int i\<bar>"
| cv_literal: "plain sig \<Longrightarrow> c = CHR ''e'' \<or> c = CHR ''E'' \<Longrightarrow> sg = [] \<or> sg = ''-'' \<Longrightarrow>
    (if ex \<noteq> [] then ParseInt ex else Ok 0) = Ok e \<Longrightarrow> e \<noteq> min_int64 \<Longrightarrow>
    count_value (NString (sg @ sig @ (if ex = [] then [] else c # ex))) (dec_rat sig * 10 powi e)"

lemma newOperandsString_exponent:
  assumes "plain sig" and "c = CHR ''e'' \<or> c = CHR ''E''" and "sg = [] \<or> sg = ''-''"
    and "newOperandsString pf (sg @ sig @ (if ex = [] then [] else c # ex)) = Ok ops"
  shows "(if ex \<noteq> [] then ParseInt ex else Ok 0) = Ok (op_C ops)"
proof -
  have "sg @ sig @ (if ex = [] then [] else c # ex) \<noteq> []"
    using assms(4) by (cases "sg @ sig @ (if ex = [] then [] else c # ex)") (simp_all add: newOperandsString_def)
  with assms(4) obtain N C where C: "(if ex \<noteq> [] then ParseInt ex else Ok 0) = Ok C"
    and k: "operandsOfValue N C (applyExponent sig C) = Ok ops"
    by (auto simp: newOperandsString_split [OF assms(1-3)] go_bind_Ok_iff)
  from C operandsOfValue_parts [OF k] show ?thesis by simp
qed

lemma count_value_operands:
  assumes "count_value n q" and "NewOperands f64 pf n = Ok ops"
  shows "wf_operands ops \<and> n_val ops = q"
  using assms
proof (induction rule: count_value.induct)
  case (cv_int i n)
  then have "ops = newOperandsInt64 f64 i" by (auto simp: NewOperands_def)
  then show ?case using newOperandsInt64_wf [OF cv_int(1,2)] by simp
next
  case (cv_literal sig c sg ex e)
  then have r: "newOperandsString pf (sg @ sig @ (if ex = [] then [] else c # ex)) = Ok ops"
    by (simp add: NewOperands_def)
  have "op_C ops = e" using newOperandsString_exponent [OF cv_literal(1-3) r] cv_literal(4) by simp
  with newOperandsString_meaning [OF cv_literal(1-3) r] cv_literal(5) show ?case by simp
qed

end
