(* ===== verification/Icu_Parser.thy ===== *)
theory Icu_Parser
  imports Prelude
begin

section \<open>ICU messages (localize/icu_parser.go, message.go)\<close>

text \<open>
  \<^verbatim>\<open>parseICU\<close> turns a raw translation into a \<^verbatim>\<open>Message\<close> with one text per plural form.  The two
  regular expressions of the source are written out as matchers: \<open>plural_match\<close> follows
  \<^verbatim>\<open>pluralRe\<close> with the greedy, leftmost choices of \<^verbatim>\<open>regexp\<close>, \<open>replace_placeholders\<close> follows
  \<^verbatim>\<open>placeholderRe.ReplaceAllStringFunc\<close>.  The index loops of \<^verbatim>\<open>extractOptions\<close> walk the rest of the
  body that their index points at.  The lemmas show that a printed option list is read back, that
  every accepted text has balanced braces, and that placeholder conversion is idempotent.
\<close>

record Message =
  m_ID :: string
  m_Zero :: string
  m_One :: string
  m_Two :: string
  m_Few :: string
  m_Many :: string
  m_Other :: string

definition empty_message :: "string \<Rightarrow> Message" where
  "empty_message mid =
     \<lparr>m_ID = mid, m_Zero = [], m_One = [], m_Two = [], m_Few = [], m_Many = [], m_Other = []\<rparr>"

subsection \<open>Options\<close>

text \<open>The bytes skipped between options, and the bytes that end a key.\<close>

definition option_space :: "char \<Rightarrow> bool" where
  "option_space c = (c = CHR 0x20 \<or> c = CHR 0x09 \<or> c = CHR 0x0A)"

definition key_char :: "char \<Rightarrow> bool" where
  "key_char c = (c \<noteq> CHR 0x20 \<and> c \<noteq> CHR ''{'')"

text \<open>The nesting loop: the text up to the brace that closes depth 1, and what follows it.\<close>

fun scan_braces :: "nat \<Rightarrow> string \<Rightarrow> (string \<times> string) option" where
  "scan_braces depth [] = None"
| "scan_braces depth (c # cs) =
     (if c = CHR ''{'' then map_option (apfst (Cons c)) (scan_braces (Suc depth) cs)
      else if c = CHR ''}'' then
        (if depth \<le> 1 then Some ([], cs)
         else map_option (apfst (Cons c)) (scan_braces (depth - 1) cs))
      else map_option (apfst (Cons c)) (scan_braces depth cs))"

lemma scan_braces_length: "scan_braces d s = Some (x, r) \<Longrightarrow> length r < length s"
  by (induction d s arbitrary: x r rule: scan_braces.induct) (auto split: if_splits)

function extractOptions :: "string \<Rightarrow> (string \<times> string) list go" where
  "extractOptions body =
     (let b = dropWhile option_space body in
      if b = [] then Ok []
      else
        let key = trim_space (takeWhile key_char b) in
        if key = [] then Err (Sentinel ''empty key'')
        else case dropWhile (\<lambda>c. c \<noteq> CHR ''{'') (dropWhile key_char b) of
          [] \<Rightarrow> Err (Sentinel ''expected { after key'')
        | _ # rest \<Rightarrow>
            (case scan_braces 1 rest of
               None \<Rightarrow> Err (Sentinel ''unclosed {'')
             | Some (content, rest') \<Rightarrow>
                 go_bind (extractOptions rest') (\<lambda>options. Ok ((key, trim_space content) # options))))"
  by pat_completeness auto
termination
proof (relation "measure length", goal_cases)
  case 1
  show ?case by simp
next
  case (2 body b key c rest p content rest')
  have "length rest' < length rest" using 2 by (auto dest: scan_braces_length)
  also have "length rest < length (dropWhile (\<lambda>c. c \<noteq> CHR ''{'') (dropWhile key_char b))"
    using 2 by simp
  also have "\<dots> \<le> length body"
    using 2(1) length_dropWhile_le le_trans by metis
  finally show ?case by simp
qed

declare extractOptions.simps [simp del]

subsection \<open>The plural pattern\<close>

definition name_char :: "char \<Rightarrow> bool" where
  "name_char c = (c \<noteq> CHR ''{'' \<and> c \<noteq> CHR ''}'' \<and> \<not> re_space c)"

text \<open>\<^verbatim>\<open>\s*(.+)\}\s*$\<close>, the body being as long as possible.\<close>

definition plural_body :: "string \<Rightarrow> string option" where
  "plural_body t =
     (let lead = takeWhile re_space t;
          r = rev (dropWhile re_space (rev (dropWhile re_space t)))
      in if r = [] \<or> last r \<noteq> CHR ''}'' then None
         else if butlast r \<noteq> [] then Some (butlast r)
         else if lead \<noteq> [] then Some [last lead]
         else None)"

text \<open>\<^verbatim>\<open>\s*,\s*plural\s*,\<close> and the body, after a candidate for the variable's name.\<close>

definition after_name :: "string \<Rightarrow> string option" where
  "after_name s =
     (case dropWhile re_space s of
        [] \<Rightarrow> None
      | c # r \<Rightarrow>
          if c \<noteq> CHR '','' then None
          else
            let p = dropWhile re_space r in
            if \<not> has_prefix p ''plural'' then None
            else case dropWhile re_space (drop 6 p) of
              [] \<Rightarrow> None
            | d # t \<Rightarrow> if d \<noteq> CHR '','' then None else plural_body t)"

text \<open>The name is greedy: the longest candidate first.\<close>

fun try_names :: "nat \<Rightarrow> string \<Rightarrow> (string \<times> string) option" where
  "try_names 0 s = None"
| "try_names (Suc k) s =
     (case after_name (drop (Suc k) s) of
        Some body \<Rightarrow> Some (take (Suc k) s, body)
      | None \<Rightarrow> try_names k s)"

definition plural_match :: "string \<Rightarrow> (string \<times> string) option" where
  "plural_match icu =
     (case icu of
        [] \<Rightarrow> None
      | c # r \<Rightarrow>
          if c \<noteq> CHR ''{'' then None
          else let s = dropWhile re_space r in try_names (length (takeWhile name_char s)) s)"

subsection \<open>Placeholders\<close>

definition convert_match :: "string \<Rightarrow> string" where
  "convert_match name =
     (let inner = trim_space name in
      if has_prefix inner ''.'' then CHR ''{'' # name @ ''}''
      else ''{.'' @ inner @ ''}'')"

function replace_placeholders :: "string \<Rightarrow> string" where
  "replace_placeholders [] = []"
| "replace_placeholders (c # cs) =
     (if c = CHR ''{'' \<and> takeWhile name_char cs \<noteq> [] \<and>
         take 1 (dropWhile name_char cs) = ''}''
      then convert_match (takeWhile name_char cs) @
           replace_placeholders (drop 1 (dropWhile name_char cs))
      else c # replace_placeholders cs)"
  by pat_completeness auto
termination
proof (relation "measure length", goal_cases)
  case (2 c cs)
  have "length (drop 1 (dropWhile name_char cs)) \<le> length cs"
    using length_dropWhile_le [of name_char cs] by simp
  then show ?case by (simp add: le_imp_less_Suc)
qed simp_all

definition convertPlaceholders :: "string \<Rightarrow> string \<Rightarrow> string" where
  "convertPlaceholders s pluralVar =
     (let s = (if pluralVar \<noteq> []
               then concat (map (\<lambda>c. if c = CHR ''#'' then ''{.'' @ pluralVar @ ''}'' else [c]) s)
               else s)
      in replace_placeholders s)"

subsection \<open>parseICU\<close>

text \<open>
  \<^verbatim>\<open>strconv.Atoi\<close> with its error dropped: 0 for a malformed number, the nearest bound for one out
  of range.
\<close>

definition atoi_value :: "string \<Rightarrow> int" where
  "atoi_value s =
     (case parse_int_syntax s of
        None \<Rightarrow> 0
      | Some i \<Rightarrow> if in_int64 i then i else if i < 0 then min_int64 else max_int64)"

definition set_exact :: "int \<Rightarrow> string \<Rightarrow> Message \<Rightarrow> Message" where
  "set_exact n content m =
     (if n = 0 then (if m_Zero m = [] then m\<lparr>m_Zero := content\<rparr> else m)
      else if n = 1 then (if m_One m = [] then m\<lparr>m_One := content\<rparr> else m)
      else if n = 2 then (if m_Two m = [] then m\<lparr>m_Two := content\<rparr> else m)
      else m)"

definition set_option :: "string \<Rightarrow> string \<Rightarrow> Message \<Rightarrow> Message go" where
  "set_option key content m =
     (if key = ''zero'' then Ok (m\<lparr>m_Zero := content\<rparr>)
      else if key = ''one'' then Ok (m\<lparr>m_One := content\<rparr>)
      else if key = ''two'' then Ok (m\<lparr>m_Two := content\<rparr>)
      else if key = ''few'' then Ok (m\<lparr>m_Few := content\<rparr>)
      else if key = ''many'' then Ok (m\<lparr>m_Many := content\<rparr>)
      else if key = ''other'' then Ok (m\<lparr>m_Other := content\<rparr>)
      else if has_prefix key ''='' then Ok (set_exact (atoi_value (trim_prefix key ''='')) content m)
      else Err (Sentinel (''unknown key: '' @ key)))"

fun set_options :: "string \<Rightarrow> (string \<times> string) list \<Rightarrow> Message \<Rightarrow> Message go" where
  "set_options pluralVar [] m = Ok m"
| "set_options pluralVar ((key, content) # opts) m =
     go_bind (set_option key (convertPlaceholders content pluralVar) m) (set_options pluralVar opts)"

definition trim_quotes :: "string \<Rightarrow> string" where
  "trim_quotes s =
     rev (dropWhile (\<lambda>c. c = CHR 0x22) (rev (dropWhile (\<lambda>c. c = CHR 0x22) s)))"

definition parseICU :: "string \<Rightarrow> string \<Rightarrow> Message go" where
  "parseICU mid icu =
     (let m = empty_message mid; icu = trim_space icu in
      case plural_match icu of
        None \<Rightarrow> Ok (m\<lparr>m_Other := convertPlaceholders (trim_quotes icu) []\<rparr>)
      | Some (var, body) \<Rightarrow>
          let pluralVar = trim_space var in
          go_bind (extractOptions body) (\<lambda>opts.
            if opts = [] then Err (Sentinel ''no plural forms'')
            else set_options pluralVar opts m))"


subsection \<open>Balanced braces\<close>

text \<open>The nesting depth after a text, when no brace of it closes more than was open.\<close>

fun depth_after :: "nat \<Rightarrow> string \<Rightarrow> nat option" where
  "depth_after d [] = Some d"
| "depth_after d (c # cs) =
     (if c = CHR ''{'' then depth_after (Suc d) cs
      else if c = CHR ''}'' then (case d of 0 \<Rightarrow> None | Suc d' \<Rightarrow> depth_after d' cs)
      else depth_after d cs)"

definition balanced :: "string \<Rightarrow> bool" where
  "balanced s = (depth_after 0 s = Some 0)"

lemma depth_after_append:
  "depth_after d (s @ t) = (case depth_after d s of None \<Rightarrow> None | Some e \<Rightarrow> depth_after e t)"
  by (induction d s rule: depth_after.induct) (auto split: nat.splits)

lemma depth_after_no_braces:
  "CHR ''{'' \<notin> set s \<Longrightarrow> CHR ''}'' \<notin> set s \<Longrightarrow> depth_after d s = Some d"
  by (induction s) auto

lemma scan_braces_append:
  "depth_after d s = Some e \<Longrightarrow>
     scan_braces (Suc d) (s @ r) = map_option (apfst (append s)) (scan_braces (Suc e) r)"
proof (induction d s rule: depth_after.induct)
  case (1 d)
  then show ?case by (cases "scan_braces (Suc d) r") auto
next
  case (2 d c cs)
  then show ?case
    by (cases "scan_braces (Suc e) r") (auto split: nat.splits if_splits)
qed

lemma scan_braces_balanced: "balanced s \<Longrightarrow> scan_braces 1 (s @ CHR ''}'' # r) = Some (s, r)"
  by (auto simp: balanced_def scan_braces_append [where d = 0 and e = 0, simplified])

lemma scan_braces_Some:
  "scan_braces (Suc d) s = Some (content, r) \<Longrightarrow>
     depth_after d content = Some 0 \<and> s = content @ CHR ''}'' # r"
proof (induction "Suc d" s arbitrary: d content r rule: scan_braces.induct)
  case 1
  then show ?case by simp
next
  case (2 c cs)
  then show ?case by (cases d) (auto split: if_splits)
qed

lemma space_byte_no_brace: "list_all space_byte a \<Longrightarrow> CHR ''{'' \<notin> set a \<and> CHR ''}'' \<notin> set a"
  using space_byte_not_visible [of "CHR ''{''"] space_byte_not_visible [of "CHR ''}''"]
  by (auto simp: list_all_iff visible_def)

lemma balanced_trim_space: "balanced (trim_space s) = balanced s"
proof -
  obtain a b where s: "s = a @ trim_space s @ b" "list_all space_byte a" "list_all space_byte b"
    using trim_space_split by blast
  have "depth_after 0 s = depth_after 0 (trim_space s)"
    using s(2,3) by (subst s(1), simp add: depth_after_append depth_after_no_braces
        space_byte_no_brace split: option.splits)
  then show ?thesis by (simp add: balanced_def)
qed

subsection \<open>Printed option lists\<close>

definition option_key :: "string \<Rightarrow> bool" where
  "option_key k = (k \<noteq> [] \<and> list_all key_char k \<and> list_all visible k)"

definition option_text :: "string \<Rightarrow> bool" where
  "option_text t = (balanced t \<and> trim_space t = t)"

fun printed_options :: "(string \<times> string) list \<Rightarrow> string" where
  "printed_options [] = []"
| "printed_options ((k, t) # os) = k @ '' {'' @ t @ ''} '' @ printed_options os"

lemma dropWhile_option_space: "dropWhile option_space (CHR '' '' # s) = dropWhile option_space s"
  by (simp add: option_space_def)

lemma extractOptions_space:
  "extractOptions (CHR '' '' # s) = extractOptions s"
  by (simp only: extractOptions.simps [of "CHR '' '' # s"] extractOptions.simps [of s]
      dropWhile_option_space)

lemma extractOptions_Nil [simp]: "extractOptions [] = Ok []"
  by (simp add: extractOptions.simps)

lemma extractOptions_option:
  assumes "option_key k" and "option_text t"
  shows "extractOptions (k @ '' {'' @ t @ ''}'' @ r) =
           go_bind (extractOptions r) (\<lambda>os. Ok ((k, t) # os))"
proof -
  obtain c k' where k: "k = c # k'" using assms(1) by (cases k) (auto simp: option_key_def)
  have vis: "visible (hd k)" "visible (last k)"
    using assms(1) k by (auto simp: option_key_def list_all_iff)
  have c: "\<not> option_space c" using vis(1) k by (auto simp: option_space_def visible_def)
  have keys: "\<forall>x \<in> set k. key_char x" using assms(1) by (simp add: option_key_def list_all_iff)
  have "\<not> key_char (CHR '' '')" by (simp add: key_char_def)
  then have tk: "takeWhile key_char (k @ '' {'' @ t @ ''}'' @ r) = k"
    and dk: "dropWhile key_char (k @ '' {'' @ t @ ''}'' @ r) = '' {'' @ t @ ''}'' @ r"
    using keys by (simp_all add: takeWhile_append2 dropWhile_append2)
  have sp: "dropWhile option_space (k @ '' {'' @ t @ ''}'' @ r) = k @ '' {'' @ t @ ''}'' @ r"
    using c k by simp
  have tr: "trim_space k = k" using vis k by (intro trim_space_visible) auto
  have sc: "scan_braces (Suc 0) (t @ CHR ''}'' # r) = Some (t, r)"
    using scan_braces_balanced [of t r] assms(2) by (simp add: option_text_def)
  show ?thesis
    using sp tk dk tr sc assms(2) k
    by (subst extractOptions.simps) (simp add: Let_def option_text_def)
qed

lemma extractOptions_print:
  "list_all (\<lambda>(k, t). option_key k \<and> option_text t) os \<Longrightarrow> extractOptions (printed_options os) = Ok os"
proof (induction os rule: printed_options.induct)
  case 1
  then show ?case by simp
next
  case (2 k t os)
  then show ?case
    using extractOptions_option [of k t "CHR '' '' # printed_options os"]
    by (simp add: extractOptions_space)
qed

lemma extractOptions_Ok:
  "extractOptions body = Ok opts \<Longrightarrow> (k, t) \<in> set opts \<Longrightarrow> k \<noteq> [] \<and> balanced t"
proof (induction body arbitrary: opts rule: extractOptions.induct)
  case (1 body)
  let ?b = "dropWhile option_space body"
  let ?r = "dropWhile (\<lambda>c. c \<noteq> CHR ''{'') (dropWhile key_char ?b)"
  let ?key = "trim_space (takeWhile key_char ?b)"
  show ?case
  proof (cases "?b = []")
    case True
    with "1.prems" show ?thesis by (subst (asm) extractOptions.simps) simp
  next
    case False
    from "1.prems"(1) False obtain p rest content rest' os where
        key: "?key \<noteq> []" and r: "?r = p # rest" and sc: "scan_braces 1 rest = Some (content, rest')"
        and os: "extractOptions rest' = Ok os" and opts: "opts = (?key, trim_space content) # os"
      by (subst (asm) extractOptions.simps)
        (auto simp: Let_def go_bind_Ok_iff split: if_splits list.splits option.splits)
    have "balanced content" using scan_braces_Some [of 0 rest content rest'] sc
      by (simp add: balanced_def)
    moreover have "(k, t) \<in> set os \<Longrightarrow> k \<noteq> [] \<and> balanced t"
      using "1.IH" [OF refl False refl key r sc refl os] by blast
    ultimately show ?thesis using "1.prems"(2) opts key by (auto simp: balanced_trim_space)
  qed
qed


subsection \<open>Placeholder conversion\<close>

lemma not_name_char [simp]: "\<not> name_char (CHR ''{'')" "\<not> name_char (CHR ''}'')"
  by (simp_all add: name_char_def)

lemma name_char_dot [simp]: "name_char (CHR ''.'')"
  by (simp add: name_char_def re_space_def)

lemma takeWhile_until:
  assumes "\<forall>x \<in> set n. P x" and "\<not> P c"
  shows "takeWhile P (n @ c # r) = n" "dropWhile P (n @ c # r) = c # r"
  using assms by (simp_all add: takeWhile_append2 dropWhile_append2)

lemma replace_keep:
  "\<not> (c = CHR ''{'' \<and> takeWhile name_char cs \<noteq> [] \<and> take 1 (dropWhile name_char cs) = ''}'') \<Longrightarrow>
     replace_placeholders (c # cs) = c # replace_placeholders cs"
  by (simp only: replace_placeholders.simps if_False)

lemma replace_at_name:
  assumes "\<forall>c \<in> set n. name_char c" and "n \<noteq> []"
  shows "replace_placeholders (CHR ''{'' # n @ CHR ''}'' # r) =
           convert_match n @ replace_placeholders r"
  using assms takeWhile_until [of n name_char "CHR ''}''" r] by simp

text \<open>A converted placeholder is \<open>{m}\<close> for a name \<open>m\<close> that is left as it is.\<close>

lemma convert_match_again:
  assumes "\<forall>c \<in> set n. name_char c" and "n \<noteq> []"
  shows "\<exists>m. m \<noteq> [] \<and> (\<forall>c \<in> set m. name_char c) \<and>
             convert_match n = CHR ''{'' # m @ ''}'' \<and> convert_match m = convert_match n"
proof (cases "has_prefix (trim_space n) ''.''")
  case True
  then show ?thesis using assms by (intro exI [of _ n]) (simp add: convert_match_def Let_def)
next
  case False
  let ?i = "trim_space n"
  obtain a b where n: "n = a @ ?i @ b" using trim_space_split by blast
  have chars: "\<forall>c \<in> set ?i. name_char c" using assms(1) by (subst (asm) n) simp
  have again: "has_prefix (trim_space (CHR ''.'' # ?i)) ''.''"
  proof -
    obtain a' b' where t: "CHR ''.'' # ?i = a' @ trim_space (CHR ''.'' # ?i) @ b'"
        "list_all space_byte a'" "list_all space_byte b'"
      using trim_space_split by blast
    have dot: "\<not> space_byte (CHR ''.'')" using space_byte_not_visible [of "CHR ''.''"] by (auto simp: visible_def)
    then have "a' = []" using t(1,2) by (cases a') auto
    moreover have "trim_space (CHR ''.'' # ?i) \<noteq> []"
    proof
      assume "trim_space (CHR ''.'' # ?i) = []"
      with t(1) have "a' @ b' = CHR ''.'' # ?i" by simp
      with t(2,3) dot show False by (cases a'; cases b') auto
    qed
    ultimately show ?thesis
      using t(1) by (cases "trim_space (CHR ''.'' # ?i)") (auto simp: has_prefix_def)
  qed
  have "convert_match n = CHR ''{'' # (CHR ''.'' # ?i) @ ''}''"
    using False by (simp add: convert_match_def Let_def)
  moreover have "convert_match (CHR ''.'' # ?i) = CHR ''{'' # (CHR ''.'' # ?i) @ ''}''"
    using again by (simp add: convert_match_def Let_def)
  ultimately show ?thesis
    using chars by (intro exI [of _ "CHR ''.'' # ?i"]) simp
qed

text \<open>The replacement copies every byte up to the first one that is no name byte.\<close>

lemma replace_takeWhile:
  "takeWhile name_char (replace_placeholders s) = takeWhile name_char s \<and>
   take 1 (dropWhile name_char (replace_placeholders s)) = take 1 (dropWhile name_char s)"
proof (induction s rule: replace_placeholders.induct)
  case 1
  show ?case by simp
next
  case (2 c cs)
  show ?case
  proof (cases "c = CHR ''{'' \<and> takeWhile name_char cs \<noteq> [] \<and>
                take 1 (dropWhile name_char cs) = ''}''")
    case True
    then have "\<exists>m. convert_match (takeWhile name_char cs) = CHR ''{'' # m"
      using convert_match_again [of "takeWhile name_char cs"]
      by (metis set_takeWhileD)
    with True show ?thesis by auto
  next
    case False
    show ?thesis
      unfolding replace_keep [OF False] using 2(2) [OF False] by (cases "name_char c") simp_all
  qed
qed

lemma replace_placeholders_idem: "replace_placeholders (replace_placeholders s) = replace_placeholders s"
proof (induction s rule: replace_placeholders.induct)
  case 1
  show ?case by simp
next
  case (2 c cs)
  show ?case
  proof (cases "c = CHR ''{'' \<and> takeWhile name_char cs \<noteq> [] \<and>
                take 1 (dropWhile name_char cs) = ''}''")
    case True
    let ?n = "takeWhile name_char cs"
    let ?r = "replace_placeholders (drop 1 (dropWhile name_char cs))"
    have "\<forall>c \<in> set ?n. name_char c" by (auto dest: set_takeWhileD)
    then obtain m where m: "m \<noteq> []" "\<forall>c \<in> set m. name_char c"
        "convert_match ?n = CHR ''{'' # m @ ''}''" "convert_match m = convert_match ?n"
      using convert_match_again [of ?n] True by blast
    have "replace_placeholders (replace_placeholders (c # cs)) =
            replace_placeholders (CHR ''{'' # m @ CHR ''}'' # ?r)"
      using True m(3) by simp
    also have "\<dots> = convert_match m @ replace_placeholders ?r"
      by (rule replace_at_name [OF m(2,1)])
    also have "\<dots> = replace_placeholders (c # cs)"
      using True m(4) 2(1) by simp
    finally show ?thesis .
  next
    case False
    then have step: "replace_placeholders (c # cs) = c # replace_placeholders cs"
      by (rule replace_keep)
    have "\<not> (c = CHR ''{'' \<and> takeWhile name_char (replace_placeholders cs) \<noteq> [] \<and>
              take 1 (dropWhile name_char (replace_placeholders cs)) = ''}'')"
      using False replace_takeWhile [of cs] by (simp only: not_False_eq_True)
    then have "replace_placeholders (c # replace_placeholders cs) =
                 c # replace_placeholders (replace_placeholders cs)"
      by (rule replace_keep)
    then show ?thesis using 2(2) [OF False] step by (simp only:)
  qed
qed

lemma convertPlaceholders_twice:
  "convertPlaceholders (convertPlaceholders s v) [] = convertPlaceholders s v"
  by (simp add: convertPlaceholders_def Let_def replace_placeholders_idem)

lemma replace_no_brace: "CHR ''{'' \<notin> set s \<Longrightarrow> replace_placeholders s = s"
  by (induction s) auto

definition plain_text :: "string \<Rightarrow> bool" where
  "plain_text t = (t \<noteq> [] \<and> visible (hd t) \<and> visible (last t) \<and>
     CHR ''{'' \<notin> set t \<and> CHR ''}'' \<notin> set t \<and> CHR ''#'' \<notin> set t)"

lemma plain_text_option: "plain_text t \<Longrightarrow> option_text t"
  by (simp add: plain_text_def option_text_def balanced_def depth_after_no_braces trim_space_visible)

lemma concat_map_id: "CHR ''#'' \<notin> set t \<Longrightarrow> concat (map (\<lambda>c. if c = CHR ''#'' then w else [c]) t) = t"
  by (induction t) auto

lemma convertPlaceholders_plain: "plain_text t \<Longrightarrow> convertPlaceholders t v = t"
  by (simp add: convertPlaceholders_def plain_text_def concat_map_id replace_no_brace)


subsection \<open>Printed plural messages\<close>

definition var_name :: "string \<Rightarrow> bool" where
  "var_name v = (v \<noteq> [] \<and> list_all name_char v \<and> list_all visible v \<and> CHR '','' \<notin> set v)"

definition print_plural :: "string \<Rightarrow> (string \<times> string) list \<Rightarrow> string" where
  "print_plural v os = ''{'' @ v @ '', plural, '' @ printed_options os @ ''}''"

definition message_options :: "Message \<Rightarrow> (string \<times> string) list" where
  "message_options m = filter (\<lambda>(k, t). t \<noteq> [])
     [(''zero'', m_Zero m), (''one'', m_One m), (''two'', m_Two m), (''few'', m_Few m),
      (''many'', m_Many m), (''other'', m_Other m)]"

definition plain_message :: "Message \<Rightarrow> bool" where
  "plain_message m = (message_options m \<noteq> [] \<and> list_all (\<lambda>(k, t). plain_text t) (message_options m))"

lemma re_space_not_visible: "visible c \<Longrightarrow> \<not> re_space c"
  by (auto simp: visible_def re_space_def)

lemma plural_body_print:
  assumes "os \<noteq> []" and "list_all (\<lambda>(k, t). option_key k \<and> option_text t) os"
  shows "plural_body (CHR '' '' # printed_options os @ ''}'') = Some (printed_options os)"
proof -
  obtain k t os' where os: "os = (k, t) # os'" using assms(1) by (cases os) auto
  obtain c k' where k: "k = c # k'" and c: "visible c"
    using assms(2) os by (cases k) (auto simp: option_key_def)
  have sp: "re_space (CHR '' '')" "\<not> re_space (CHR ''}'')" by (simp_all add: re_space_def)
  have "printed_options os = c # (k' @ '' {'' @ t @ ''} '' @ printed_options os')"
    using os k by simp
  then have d: "dropWhile re_space (CHR '' '' # printed_options os @ ''}'') = printed_options os @ ''}''"
    using sp(1) re_space_not_visible [OF c] by simp
  have "printed_options os \<noteq> []" using os k by simp
  then show ?thesis unfolding plural_body_def Let_def d by (simp add: sp(2))
qed

lemma after_name_comma:
  "after_name ('', plural,'' @ t) = plural_body t"
  by (simp add: after_name_def re_space_def has_prefix_def Let_def)

lemma after_name_other: "c \<noteq> CHR '','' \<Longrightarrow> \<not> re_space c \<Longrightarrow> after_name (c # s) = None"
  by (simp add: after_name_def)

lemma plural_match_print:
  assumes v: "var_name v" and "os \<noteq> []"
    and "list_all (\<lambda>(k, t). option_key k \<and> option_text t) os"
  shows "plural_match (print_plural v os) = Some (v, printed_options os)"
proof -
  let ?t = "CHR '' '' # printed_options os @ ''}''"
  let ?s = "v @ '', plural,'' @ ?t"
  obtain c v' where cv: "v = c # v'" using v by (cases v) (auto simp: var_name_def)
  have "visible c" and nc: "\<forall>x \<in> set v. name_char x"
    using v cv by (auto simp: var_name_def list_all_iff)
  then have lead: "dropWhile re_space ?s = ?s" using cv re_space_not_visible by simp
  have chars: "name_char (CHR '','')" "\<not> name_char (CHR '' '')"
    by (simp_all add: name_char_def re_space_def)
  have tw: "takeWhile name_char ?s = v @ '',''"
    using nc chars by (simp add: takeWhile_append2)
  have "length (takeWhile name_char ?s) = Suc (length v)" by (simp only: tw) simp
  then have "try_names (length (takeWhile name_char ?s)) ?s = try_names (Suc (length v)) ?s"
    by (simp only:)
  also have "\<dots> = try_names (length v) ?s"
  proof -
    have "after_name ('' plural,'' @ ?t) = None" by (simp add: after_name_def re_space_def)
    then show ?thesis by simp
  qed
  also have "\<dots> = Some (v, printed_options os)"
  proof -
    have "after_name ('', plural,'' @ ?t) = Some (printed_options os)"
      using after_name_comma [of ?t] plural_body_print assms(2,3) by simp
    then show ?thesis by (simp add: cv)
  qed
  finally have "try_names (length (takeWhile name_char ?s)) ?s = Some (v, printed_options os)" .
  moreover have "print_plural v os = CHR ''{'' # ?s" by (simp add: print_plural_def)
  ultimately show ?thesis using lead by (simp add: plural_match_def Let_def)
qed

lemma parseICU_print:
  assumes "var_name v" and "os \<noteq> []"
    and "list_all (\<lambda>(k, t). option_key k \<and> option_text t) os"
  shows "parseICU mid (print_plural v os) = set_options v os (empty_message mid)"
proof -
  have tr: "trim_space (print_plural v os) = print_plural v os"
    by (intro trim_space_visible) (simp_all add: print_plural_def visible_def)
  have tv: "trim_space v = v"
    using assms(1) by (intro trim_space_visible) (auto simp: var_name_def list_all_iff)
  show ?thesis
    using assms
    by (simp add: parseICU_def Let_def tr tv plural_match_print extractOptions_print)
qed

lemma set_options_plain:
  "plain_text t \<Longrightarrow> set_options v ((k, t) # os) m = go_bind (set_option k t m) (set_options v os)"
  by (simp add: convertPlaceholders_plain)

lemma message_options_keys:
  "plain_message m \<Longrightarrow> list_all (\<lambda>(k, t). option_key k \<and> option_text t) (message_options m)"
  by (auto simp: plain_message_def message_options_def list_all_iff plain_text_option
      option_key_def key_char_def visible_def)

lemma set_options_message:
  assumes "plain_message m"
  shows "set_options v (message_options m) (empty_message (m_ID m)) = Ok m"
proof -
  have app: "set_options v (os @ os') n = go_bind (set_options v os n) (set_options v os')" for os os' n
  proof (induction os arbitrary: n)
    case Nil
    show ?case by simp
  next
    case (Cons p os)
    obtain k t where p: "p = (k, t)" by (cases p)
    show ?case using Cons by (cases "set_option k (convertPlaceholders t v) n") (simp_all add: p)
  qed
  have split: "message_options m =
      filter (\<lambda>(k, t). t \<noteq> []) [(''zero'', m_Zero m)] @ filter (\<lambda>(k, t). t \<noteq> []) [(''one'', m_One m)] @
      filter (\<lambda>(k, t). t \<noteq> []) [(''two'', m_Two m)] @ filter (\<lambda>(k, t). t \<noteq> []) [(''few'', m_Few m)] @
      filter (\<lambda>(k, t). t \<noteq> []) [(''many'', m_Many m)] @ filter (\<lambda>(k, t). t \<noteq> []) [(''other'', m_Other m)]"
    by (simp add: message_options_def)
  have nil: "convertPlaceholders [] v = []" by (simp add: convertPlaceholders_def)
  have conv: "convertPlaceholders (m_Zero m) v = m_Zero m" "convertPlaceholders (m_One m) v = m_One m"
    "convertPlaceholders (m_Two m) v = m_Two m" "convertPlaceholders (m_Few m) v = m_Few m"
    "convertPlaceholders (m_Many m) v = m_Many m" "convertPlaceholders (m_Other m) v = m_Other m"
    using assms nil
    by (auto simp: plain_message_def message_options_def convertPlaceholders_plain split: if_splits)
  show ?thesis
    by (simp only: split app, cases m) (use conv in \<open>simp add: set_option_def empty_message_def\<close>)
qed

end
