(* ===== verification/Interfaces.thy ===== *)
theory Interfaces
  imports Prelude "HOL-Library.Multiset"
begin

section \<open>Contracts shared by the components\<close>

text \<open>
  The interfaces that more than one component relies on, as locales: a store with keyed insertion
  (message catalogue, bindings of the dependency container), a chain of wrappers (HTTP, Kafka
  consumers and producers), a registry that keeps the first entry of a key (application
  components).  The lemmas proved here once are used by the components through the interpretations
  on their own definitions.
\<close>

locale keyed_store =
  fixes lookup :: "'s \<Rightarrow> 'k \<Rightarrow> 'v option"
    and update :: "'s \<Rightarrow> 'k \<Rightarrow> 'v \<Rightarrow> 's"
  assumes lookup_same: "lookup (update s k v) k = Some v"
    and lookup_other: "k' \<noteq> k \<Longrightarrow> lookup (update s k v) k' = lookup s k'"
begin

lemma lookup_update: "lookup (update s k v) k' = (if k' = k then Some v else lookup s k')"
  by (simp add: lookup_same lookup_other)

lemma lookup_updates:
  "lookup (foldl (\<lambda>s (k, v). update s k v) s kvs) k =
     (case map_of (rev kvs) k of Some v \<Rightarrow> Some v | None \<Rightarrow> lookup s k)"
proof (induction kvs arbitrary: s)
  case Nil
  show ?case by simp
next
  case (Cons p kvs)
  obtain k1 v1 where p: "p = (k1, v1)" by (cases p)
  show ?case
    using Cons [of "update s k1 v1"]
    by (auto simp: p lookup_update map_add_def map_of_append split: option.splits)
qed

lemma updates_permute:
  assumes "distinct (map fst kvs)" and "mset kvs = mset kvs'"
  shows "lookup (foldl (\<lambda>s (k, v). update s k v) s kvs) k =
         lookup (foldl (\<lambda>s (k, v). update s k v) s kvs') k"
proof -
  have d': "distinct (map fst kvs')"
    using assms by (metis mset_eq_imp_distinct_iff mset_map)
  have "set (rev kvs) = set (rev kvs')"
    using assms(2) by (metis mset_eq_setD set_rev)
  moreover have "distinct (map fst (rev kvs))" "distinct (map fst (rev kvs'))"
    using assms(1) d' by (simp_all add: rev_map [symmetric])
  ultimately have "map_of (rev kvs) = map_of (rev kvs')"
    by (simp add: map_of_inject_set)
  then show ?thesis by (simp add: lookup_updates)
qed

end

text \<open>
  A chain of wrappers built by registration at the end: \<open>wrap m h\<close> is the handler that \<open>m\<close> makes of
  its successor \<open>h\<close>.
\<close>

locale handler_chain =
  fixes chain :: "'m list \<Rightarrow> 'h \<Rightarrow> 'h"
    and wrap :: "'m \<Rightarrow> 'h \<Rightarrow> 'h"
  assumes chain_Nil: "chain [] h = h"
    and chain_snoc: "chain (ms @ [m]) h = chain ms (wrap m h)"
begin

lemma chain_foldr: "chain ms h = foldr wrap ms h"
  by (induction ms arbitrary: h rule: rev_induct) (simp_all add: chain_Nil chain_snoc)

lemma chain_Cons: "chain (m # ms) h = wrap m (chain ms h)"
  by (simp add: chain_foldr)

lemma chain_append: "chain (ms @ ms') h = chain ms (chain ms' h)"
  by (simp add: chain_foldr)

text \<open>What every wrapper keeps of a handler, the chain keeps.\<close>

lemma chain_preserves:
  assumes "P h" and "\<And>m h. m \<in> set ms \<Longrightarrow> P h \<Longrightarrow> P (wrap m h)"
  shows "P (chain ms h)"
  using assms(2)
proof (induction ms)
  case Nil
  show ?case using assms(1) by (simp add: chain_Nil)
next
  case (Cons m ms)
  have "P (chain ms h)" by (rule Cons.IH) (simp add: Cons.prems)
  then show ?case by (simp add: chain_Cons Cons.prems)
qed

end

text \<open>
  A registry that refuses a second entry for a key: the first one stays.
\<close>

locale registry =
  fixes entry :: "'s \<Rightarrow> 'k \<Rightarrow> 'v option"
    and add :: "'k \<Rightarrow> 'v \<Rightarrow> 's \<Rightarrow> 's"
  assumes add_new: "entry s k = None \<Longrightarrow> entry (add k v s) k = Some v"
    and add_present: "entry s k = Some u \<Longrightarrow> add k v s = s"
    and add_other: "k' \<noteq> k \<Longrightarrow> entry (add k v s) k' = entry s k'"
begin

lemma entry_add:
  "entry (add k v s) k' = (if k' = k \<and> entry s k = None then Some v else entry s k')"
  by (cases "entry s k") (auto simp: add_new add_present add_other)

lemma entry_adds:
  "entry (fold (\<lambda>(k, v). add k v) kvs s) k =
     (case entry s k of Some v \<Rightarrow> Some v | None \<Rightarrow> map_of kvs k)"
proof (induction kvs arbitrary: s)
  case Nil
  show ?case by (simp split: option.splits)
next
  case (Cons p kvs)
  obtain k1 v1 where p: "p = (k1, v1)" by (cases p)
  show ?case using Cons [of "add k1 v1 s"] by (auto simp: p entry_add split: option.splits)
qed

lemma entry_kept: "entry s k = Some v \<Longrightarrow> entry (fold (\<lambda>(k, v). add k v) kvs s) k = Some v"
  by (simp add: entry_adds)

end

end
