(* ===== verification/Localize_Bundle.thy ===== *)
theory Localize_Bundle
  imports Plural_Rules Icu_Parser Interfaces
begin

section \<open>The message catalogue (localize/bundle.go, message_template.go, template.go, parser)\<close>

text \<open>
  \<^verbatim>\<open>bundle\<close> is a record of its fields; a nil \<^verbatim>\<open>messageTemplates\<close> map reads as an empty one and is
  created before every write, so both are \<open>Map.empty\<close>.  The engine of \<^verbatim>\<open>text/template\<close> and the tags
  of \<^verbatim>\<open>golang.org/x/text/language\<close> are parameters (\<open>tmpl_engine\<close>, \<open>lang_ops\<close>, the index function of
  a matcher).  A Go map that the code ranges over is the list of its entries in the order of the
  iteration.  The lemmas show the well-formedness of the catalogue, that every operation keeps it,
  what a lookup returns after an insertion, and that the iteration order does not matter.
\<close>

datatype 'tag loc_error =
    NoPluralRule 'tag
  | MessageNotFoundErr 'tag string
  | pluralFormNotFoundError form string
  | invalidPluralCountErr string number gerr
  | LocErr gerr

subsection \<open>Parsers (parser/*.go)\<close>

record ('p, 'v) tmpl_engine =
  eng_parse :: "string \<Rightarrow> string \<Rightarrow> string \<Rightarrow> string \<Rightarrow> gerr + 'p"   \<comment> \<open>option, delimiters, source\<close>
  eng_exec :: "'p \<Rightarrow> (string \<rightharpoonup> 'v) option \<Rightarrow> gerr + string"

datatype 'p parsed = identityParsedTemplate string | parsedTextTemplate 'p

type_synonym 'p parse_fun = "string \<Rightarrow> string \<Rightarrow> string \<Rightarrow> gerr + 'p parsed"

fun contains :: "string \<Rightarrow> string \<Rightarrow> bool" where
  "contains [] p = (p = [])"
| "contains (c # s) p = (has_prefix (c # s) p \<or> contains s p)"

definition IdentityParser_Parse :: "'p parse_fun" where
  "IdentityParser_Parse src leftDelim rightDelim = Inr (identityParsedTemplate src)"

definition TextParser_Parse :: "('p, 'v) tmpl_engine \<Rightarrow> string \<Rightarrow> 'p parse_fun" where
  "TextParser_Parse E opt src leftDelim rightDelim =
     (if leftDelim = [] \<or> rightDelim = []
      then Inl (Sentinel ''left and right delim is required'')
      else if \<not> contains src leftDelim then Inr (identityParsedTemplate src)
      else
        let option = (if opt \<noteq> [] then opt else ''missingkey=default'') in
        case eng_parse E option leftDelim rightDelim src of
          Inl err \<Rightarrow> Inl err
        | Inr tmpl \<Rightarrow> Inr (parsedTextTemplate tmpl))"

fun parsed_Execute :: "('p, 'v) tmpl_engine \<Rightarrow> 'p parsed \<Rightarrow> (string \<rightharpoonup> 'v) option \<Rightarrow> gerr + string" where
  "parsed_Execute E (identityParsedTemplate src) data = Inr src"
| "parsed_Execute E (parsedTextTemplate tmpl) data = eng_exec E tmpl data"

subsection \<open>Templates (template.go, message_template.go)\<close>

text \<open>\<open>tt_once\<close> holds what the \<^verbatim>\<open>sync.Once\<close> of the template stored: nothing before the first use.\<close>

record 'p text_template =
  tt_Src :: string
  tt_LeftDelim :: string
  tt_RightDelim :: string
  tt_once :: "(gerr + 'p parsed) option"

definition template_Execute ::
    "('p, 'v) tmpl_engine \<Rightarrow> 'p parse_fun \<Rightarrow> 'p text_template \<Rightarrow> (string \<rightharpoonup> 'v) option \<Rightarrow>
       (gerr + string) \<times> 'p text_template" where
  "template_Execute E p t data =
     (let t = (case tt_once t of
                 None \<Rightarrow> t\<lparr>tt_once := Some (p (tt_Src t) (tt_LeftDelim t) (tt_RightDelim t))\<rparr>
               | Some _ \<Rightarrow> t)
      in (case the (tt_once t) of
            Inl err \<Rightarrow> Inl err
          | Inr pt \<Rightarrow> parsed_Execute E pt data, t))"

record 'p message_template =
  mt_Message :: Message
  mt_PluralTemplates :: "form \<rightharpoonup> 'p text_template"

definition setPluralTemplate ::
    "(form \<rightharpoonup> 'p text_template) \<Rightarrow> form \<Rightarrow> string \<Rightarrow> string \<Rightarrow> string \<Rightarrow> (form \<rightharpoonup> 'p text_template)" where
  "setPluralTemplate pluralTemplates pluralForm src leftDelim rightDelim =
     (if src \<noteq> []
      then pluralTemplates(pluralForm \<mapsto>
        \<lparr>tt_Src = src, tt_LeftDelim = leftDelim, tt_RightDelim = rightDelim, tt_once = None\<rparr>)
      else pluralTemplates)"

definition all_forms :: "form list" where
  "all_forms = [Invalid, Zero, One, Two, Few, Many, Other]"

definition newMessageTemplate :: "Message \<Rightarrow> string \<Rightarrow> string \<Rightarrow> 'p message_template option" where
  "newMessageTemplate m leftDelim rightDelim =
     (let pts = Map.empty;
          pts = setPluralTemplate pts Zero (m_Zero m) leftDelim rightDelim;
          pts = setPluralTemplate pts One (m_One m) leftDelim rightDelim;
          pts = setPluralTemplate pts Two (m_Two m) leftDelim rightDelim;
          pts = setPluralTemplate pts Few (m_Few m) leftDelim rightDelim;
          pts = setPluralTemplate pts Many (m_Many m) leftDelim rightDelim;
          pts = setPluralTemplate pts Other (m_Other m) leftDelim rightDelim
      in if list_all (\<lambda>f. pts f = None) all_forms then None
         else Some \<lparr>mt_Message = m, mt_PluralTemplates = pts\<rparr>)"

definition mt_Execute ::
    "('p, 'v) tmpl_engine \<Rightarrow> 'p parse_fun \<Rightarrow> 'p message_template \<Rightarrow> form \<Rightarrow> (string \<rightharpoonup> 'v) option \<Rightarrow>
       'tag loc_error + string" where
  "mt_Execute E p mt pluralForm data =
     (case mt_PluralTemplates mt pluralForm of
        None \<Rightarrow> Inl (pluralFormNotFoundError pluralForm (m_ID (mt_Message mt)))
      | Some t \<Rightarrow> (case fst (template_Execute E p t data) of
          Inl err \<Rightarrow> Inl (LocErr err)
        | Inr s \<Rightarrow> Inr s))"

subsection \<open>The bundle (bundle.go)\<close>

record ('tag, 'f, 'p) loc_bundle =
  b_defaultLanguage :: 'tag
  b_messageTemplates :: "'tag \<rightharpoonup> (string \<rightharpoonup> 'p message_template option)"
  b_pluralRules :: "('tag, 'f) rules"
  b_tags :: "'tag list"
  b_matcher :: "'tag list"     \<comment> \<open>the tags that the current matcher was built from\<close>
  b_leftDelim :: string
  b_rightDelim :: string

definition addTag :: "'tag \<Rightarrow> ('tag, 'f, 'p) loc_bundle \<Rightarrow> ('tag, 'f, 'p) loc_bundle" where
  "addTag tag b =
     (if list_ex (\<lambda>t. t = tag) (b_tags b) then b
      else b\<lparr>b_tags := b_tags b @ [tag], b_matcher := b_tags b @ [tag]\<rparr>)"

text \<open>\<^verbatim>\<open>b.pluralRules[artTag] = b.pluralRules.Rule(language.English)\<close>: a nil rule is stored as absent.\<close>

definition NewBundle ::
    "(string \<Rightarrow> 'tag option) \<Rightarrow> 'tag lang_ops \<Rightarrow> 'tag \<Rightarrow> 'tag \<Rightarrow> 'tag \<Rightarrow> ('tag, 'f, 'p) loc_bundle go option" where
  "NewBundle must_parse L English artTag defaultLanguage =
     (case DefaultRules must_parse of
        Err e \<Rightarrow> Some (Err e)
      | Panic p \<Rightarrow> Some (Panic p)
      | Ok rules \<Rightarrow>
          map_option (\<lambda>rule.
            Ok (addTag defaultLanguage
              \<lparr>b_defaultLanguage = defaultLanguage, b_messageTemplates = Map.empty,
               b_pluralRules = rules(artTag := rule), b_tags = [], b_matcher = [],
               b_leftDelim = ''{'', b_rightDelim = ''}''\<rparr>))
            (Rule L rules English))"

definition SetDelim :: "string \<Rightarrow> string \<Rightarrow> ('tag, 'f, 'p) loc_bundle \<Rightarrow> ('tag, 'f, 'p) loc_bundle" where
  "SetDelim leftDelim rightDelim b =
     (if leftDelim \<noteq> [] \<and> rightDelim \<noteq> []
      then b\<lparr>b_leftDelim := leftDelim, b_rightDelim := rightDelim\<rparr> else b)"

text \<open>The maps of a tag are created, and the tag registered, when the tag is first seen.\<close>

definition ensure_tag :: "'tag \<Rightarrow> ('tag, 'f, 'p) loc_bundle \<Rightarrow> ('tag, 'f, 'p) loc_bundle" where
  "ensure_tag tag b =
     (if b_messageTemplates b tag = None
      then addTag tag (b\<lparr>b_messageTemplates := (b_messageTemplates b)(tag \<mapsto> Map.empty)\<rparr>)
      else b)"

definition store_entry ::
    "('tag, 'f, 'p) loc_bundle \<Rightarrow> 'tag \<times> string \<Rightarrow> 'p message_template option \<Rightarrow> ('tag, 'f, 'p) loc_bundle" where
  "store_entry b k v =
     b\<lparr>b_messageTemplates := (b_messageTemplates b)(fst k \<mapsto>
        (case b_messageTemplates b (fst k) of None \<Rightarrow> Map.empty | Some ms \<Rightarrow> ms)(snd k \<mapsto> v))\<rparr>"

definition put_template ::
    "'tag \<Rightarrow> Message \<Rightarrow> ('tag, 'f, 'p) loc_bundle \<Rightarrow> ('tag, 'f, 'p) loc_bundle" where
  "put_template tag m b =
     store_entry b (tag, m_ID m) (newMessageTemplate m (b_leftDelim b) (b_rightDelim b))"

fun put_templates :: "'tag \<Rightarrow> Message list \<Rightarrow> ('tag, 'f, 'p) loc_bundle \<Rightarrow> ('tag, 'f, 'p) loc_bundle" where
  "put_templates tag [] b = b"
| "put_templates tag (m # ms) b = put_templates tag ms (put_template tag m b)"

fun put_raw ::
    "'tag \<Rightarrow> (string \<times> string) list \<Rightarrow> ('tag, 'f, 'p) loc_bundle \<Rightarrow>
       (('tag, 'f, 'p) loc_bundle \<times> 'tag loc_error option) go" where
  "put_raw tag [] b = Ok (b, None)"
| "put_raw tag ((key, icuMessage) # msgs) b =
     (case parseICU key icuMessage of
        Ok m \<Rightarrow> put_raw tag msgs (put_template tag m b)
      | Err err \<Rightarrow> Ok (b, Some (LocErr err))
      | Panic p \<Rightarrow> Panic p)"

text \<open>The result is \<open>None\<close> when the search for the plural rule does not return.\<close>

definition AddRawMessages ::
    "'tag lang_ops \<Rightarrow> 'tag \<Rightarrow> (string \<times> string) list \<Rightarrow> ('tag, 'f, 'p) loc_bundle \<Rightarrow>
       (('tag, 'f, 'p) loc_bundle \<times> 'tag loc_error option) go option" where
  "AddRawMessages L tag messages b =
     (case Rule L (b_pluralRules b) tag of
        None \<Rightarrow> None
      | Some None \<Rightarrow> Some (Ok (b, Some (NoPluralRule tag)))
      | Some (Some _) \<Rightarrow> Some (put_raw tag messages (ensure_tag tag b)))"

definition AddMessages ::
    "'tag lang_ops \<Rightarrow> 'tag \<Rightarrow> Message list \<Rightarrow> ('tag, 'f, 'p) loc_bundle \<Rightarrow>
       (('tag, 'f, 'p) loc_bundle \<times> 'tag loc_error option) option" where
  "AddMessages L tag messages b =
     (case Rule L (b_pluralRules b) tag of
        None \<Rightarrow> None
      | Some None \<Rightarrow> Some (b, Some (NoPluralRule tag))
      | Some (Some _) \<Rightarrow> Some (put_templates tag messages (ensure_tag tag b), None))"

definition getMessage :: "'tag \<Rightarrow> string \<Rightarrow> ('tag, 'f, 'p) loc_bundle \<Rightarrow> 'p message_template option" where
  "getMessage tag mid b =
     (case b_messageTemplates b tag of
        None \<Rightarrow> None
      | Some templates \<Rightarrow> (case templates mid of None \<Rightarrow> None | Some mt \<Rightarrow> mt))"

text \<open>\<open>match tags prefs\<close> is the index that \<^verbatim>\<open>NewMatcher(tags).Match(prefs...)\<close> returns.\<close>

definition GetTagFromContext ::
    "('tag list \<Rightarrow> 'tag list \<Rightarrow> nat) \<Rightarrow> 'tag list option \<Rightarrow> ('tag, 'f, 'p) loc_bundle \<Rightarrow> 'tag go" where
  "GetTagFromContext match ctx b =
     (case ctx of
        None \<Rightarrow> Ok (b_defaultLanguage b)
      | Some tags \<Rightarrow>
          let i = match (b_matcher b) tags in
          if i < length (b_tags b) then Ok (b_tags b ! i) else Panic ''index out of range'')"

definition pluralForm ::
    "'tag lang_ops \<Rightarrow> 'tag \<Rightarrow> 'f operands option \<Rightarrow> ('tag, 'f, 'p) loc_bundle \<Rightarrow> form go option" where
  "pluralForm L tag operands b =
     (case operands of
        None \<Rightarrow> Some (Ok Other)
      | Some ops \<Rightarrow>
          map_option (\<lambda>r. case r of None \<Rightarrow> Panic ''nil pointer dereference''
                                   | Some rule \<Rightarrow> Ok (PluralFormFunc rule ops))
            (Rule L (b_pluralRules b) tag))"

definition GetMessageTemplate ::
    "'tag lang_ops \<Rightarrow> 'tag \<Rightarrow> string \<Rightarrow> 'f operands option \<Rightarrow> ('tag, 'f, 'p) loc_bundle \<Rightarrow>
       (form \<times> 'p message_template option \<times> 'tag loc_error option) go option" where
  "GetMessageTemplate L tag mid operands b =
     map_option (\<lambda>pf. go_bind pf (\<lambda>form. Ok
       (case getMessage tag mid b of
          Some mt \<Rightarrow> (form, Some mt, None)
        | None \<Rightarrow>
            if tag = b_defaultLanguage b then (Invalid, None, Some (MessageNotFoundErr tag mid))
            else (case getMessage (b_defaultLanguage b) mid b of
                    Some mt \<Rightarrow> (form, Some mt, None)
                  | None \<Rightarrow> (Invalid, None, Some (MessageNotFoundErr tag mid))))))
       (pluralForm L tag operands b)"


subsection \<open>Message templates\<close>

fun message_source :: "Message \<Rightarrow> form \<Rightarrow> string" where
  "message_source m Invalid = []"
| "message_source m Zero = m_Zero m"
| "message_source m One = m_One m"
| "message_source m Two = m_Two m"
| "message_source m Few = m_Few m"
| "message_source m Many = m_Many m"
| "message_source m Other = m_Other m"

lemma setPluralTemplate_apply:
  "setPluralTemplate pts f src l r g =
     (if g = f \<and> src \<noteq> []
      then Some \<lparr>tt_Src = src, tt_LeftDelim = l, tt_RightDelim = r, tt_once = None\<rparr> else pts g)"
  by (simp add: setPluralTemplate_def)

lemma all_forms_complete: "set all_forms = UNIV"
  by (auto simp: all_forms_def intro: form.exhaust)

lemma newMessageTemplate_eq:
  "(newMessageTemplate m l r :: 'p message_template option) =
     (if \<forall>f. message_source m f = [] then None
      else Some \<lparr>mt_Message = m, mt_PluralTemplates = (\<lambda>f.
        if message_source m f = [] then None
        else Some \<lparr>tt_Src = message_source m f, tt_LeftDelim = l, tt_RightDelim = r, tt_once = None\<rparr>)\<rparr>)"
proof -
  define pts :: "form \<rightharpoonup> 'p text_template" where "pts = setPluralTemplate (setPluralTemplate (setPluralTemplate (setPluralTemplate
    (setPluralTemplate (setPluralTemplate Map.empty Zero (m_Zero m) l r) One (m_One m) l r)
      Two (m_Two m) l r) Few (m_Few m) l r) Many (m_Many m) l r) Other (m_Other m) l r"
  have pts: "pts = (\<lambda>f. if message_source m f = [] then None
      else Some \<lparr>tt_Src = message_source m f, tt_LeftDelim = l, tt_RightDelim = r, tt_once = None\<rparr>)"
  proof
    fix f
    show "pts f = (if message_source m f = [] then None
      else Some \<lparr>tt_Src = message_source m f, tt_LeftDelim = l, tt_RightDelim = r, tt_once = None\<rparr>)"
      by (cases f) (simp_all add: pts_def setPluralTemplate_apply)
  qed
  have "(newMessageTemplate m l r :: 'p message_template option) =
      (if \<forall>f. pts f = None then None else Some \<lparr>mt_Message = m, mt_PluralTemplates = pts\<rparr>)"
    by (simp add: newMessageTemplate_def Let_def pts_def list_all_iff all_forms_complete)
  also have "(\<forall>f. pts f = None) = (\<forall>f. message_source m f = [])" by (simp add: pts)
  finally show ?thesis by (simp only: pts)
qed

lemma newMessageTemplate_None:
  "newMessageTemplate m l r = None \<longleftrightarrow> (\<forall>f. message_source m f = [])"
  by (simp add: newMessageTemplate_eq)

text \<open>The parse that the \<^verbatim>\<open>sync.Once\<close> keeps does not change what a template gives.\<close>

lemma template_Execute_memo:
  "fst (template_Execute E p (snd (template_Execute E p t data)) data') =
     fst (template_Execute E p (t\<lparr>tt_once := tt_once (snd (template_Execute E p t data))\<rparr>) data')"
  "tt_once t = None \<Longrightarrow>
     fst (template_Execute E p (snd (template_Execute E p t data)) data') =
     fst (template_Execute E p t data')"
  by (auto simp: template_Execute_def Let_def split: option.splits)

lemma template_Execute_text:
  assumes "l \<noteq> []" and "r \<noteq> []" and "\<not> contains src l"
  shows "fst (template_Execute E (TextParser_Parse E opt)
           \<lparr>tt_Src = src, tt_LeftDelim = l, tt_RightDelim = r, tt_once = None\<rparr> data) = Inr src"
  using assms by (simp add: template_Execute_def TextParser_Parse_def Let_def)

subsection \<open>Well-formed catalogues\<close>

definition wf_template :: "string \<Rightarrow> 'p message_template \<Rightarrow> bool" where
  "wf_template mid mt \<longleftrightarrow> m_ID (mt_Message mt) = mid \<and> mt_PluralTemplates mt Invalid = None \<and>
     (\<exists>f. mt_PluralTemplates mt f \<noteq> None)"

definition wf_bundle :: "('tag, 'f, 'p) loc_bundle \<Rightarrow> bool" where
  "wf_bundle b \<longleftrightarrow>
     distinct (b_tags b) \<and> b_matcher b = b_tags b \<and> b_defaultLanguage b \<in> set (b_tags b) \<and>
     dom (b_messageTemplates b) \<subseteq> set (b_tags b) \<and> b_leftDelim b \<noteq> [] \<and> b_rightDelim b \<noteq> [] \<and>
     (\<forall>tag mid mt. getMessage tag mid b = Some mt \<longrightarrow> wf_template mid mt)"

definition stored :: "('tag, 'f, 'p) loc_bundle \<Rightarrow> 'tag \<times> string \<Rightarrow> 'p message_template option option" where
  "stored b k = (case b_messageTemplates b (fst k) of None \<Rightarrow> None | Some ms \<Rightarrow> ms (snd k))"

lemma getMessage_stored: "getMessage tag mid b = (case stored b (tag, mid) of None \<Rightarrow> None | Some mt \<Rightarrow> mt)"
  by (simp add: getMessage_def stored_def split: option.splits)

interpretation catalogue: keyed_store stored store_entry
  by unfold_locales (auto simp: stored_def store_entry_def prod_eq_iff split: option.splits)

lemma wf_newMessageTemplate:
  "newMessageTemplate m l r = Some mt \<Longrightarrow> wf_template (m_ID m) mt"
  by (auto simp: wf_template_def newMessageTemplate_eq split: if_splits)

lemma getMessage_put_template:
  "getMessage tag' mid (put_template tag m b) =
     (if tag' = tag \<and> mid = m_ID m then newMessageTemplate m (b_leftDelim b) (b_rightDelim b)
      else getMessage tag' mid b)"
  by (simp add: getMessage_stored put_template_def catalogue.lookup_update)

lemma store_entry_frame [frame_simps]:
  "b_defaultLanguage (store_entry b k v) = b_defaultLanguage b"
  "b_pluralRules (store_entry b k v) = b_pluralRules b"
  "b_tags (store_entry b k v) = b_tags b" "b_matcher (store_entry b k v) = b_matcher b"
  "b_leftDelim (store_entry b k v) = b_leftDelim b" "b_rightDelim (store_entry b k v) = b_rightDelim b"
  "dom (b_messageTemplates (store_entry b k v)) = insert (fst k) (dom (b_messageTemplates b))"
  by (auto simp: store_entry_def)

lemma put_template_frame [frame_simps]:
  "b_defaultLanguage (put_template tag m b) = b_defaultLanguage b"
  "b_pluralRules (put_template tag m b) = b_pluralRules b"
  "b_tags (put_template tag m b) = b_tags b" "b_matcher (put_template tag m b) = b_matcher b"
  "b_leftDelim (put_template tag m b) = b_leftDelim b"
  "b_rightDelim (put_template tag m b) = b_rightDelim b"
  "dom (b_messageTemplates (put_template tag m b)) = insert tag (dom (b_messageTemplates b))"
  by (simp_all add: put_template_def frame_simps)

lemma ensure_tag_frame [frame_simps]:
  "b_defaultLanguage (ensure_tag tag b) = b_defaultLanguage b"
  "b_pluralRules (ensure_tag tag b) = b_pluralRules b"
  "b_leftDelim (ensure_tag tag b) = b_leftDelim b" "b_rightDelim (ensure_tag tag b) = b_rightDelim b"
  "getMessage tag' mid (ensure_tag tag b) = getMessage tag' mid b"
  by (auto simp: ensure_tag_def addTag_def getMessage_def)

lemma wf_put_template [wf_intros]:
  assumes "wf_bundle b" and "tag \<in> set (b_tags b)"
  shows "wf_bundle (put_template tag m b)"
  using assms wf_newMessageTemplate
  by (auto simp: wf_bundle_def frame_simps getMessage_put_template)

lemma wf_ensure_tag [wf_intros]: "wf_bundle b \<Longrightarrow> wf_bundle (ensure_tag tag b)"
  unfolding wf_bundle_def
  by (simp add: frame_simps) (auto simp: ensure_tag_def addTag_def list_ex_iff)

lemma ensure_tag_in: "wf_bundle b \<Longrightarrow> tag \<in> set (b_tags (ensure_tag tag b))"
  by (auto simp: ensure_tag_def addTag_def list_ex_iff wf_bundle_def)

lemma ensure_tag_tags: "b_tags (ensure_tag tag b) = b_tags b \<or> b_tags (ensure_tag tag b) = b_tags b @ [tag]"
  by (auto simp: ensure_tag_def addTag_def)

lemma wf_put_templates [wf_intros]:
  "wf_bundle b \<Longrightarrow> tag \<in> set (b_tags b) \<Longrightarrow> wf_bundle (put_templates tag ms b)"
  by (induction tag ms b rule: put_templates.induct) (auto simp: frame_simps intro: wf_put_template)

lemma put_raw_wf:
  "put_raw tag msgs b = Ok (b', e) \<Longrightarrow> wf_bundle b \<Longrightarrow> tag \<in> set (b_tags b) \<Longrightarrow> wf_bundle b'"
  by (induction tag msgs b rule: put_raw.induct)
    (auto simp: frame_simps wf_put_template split: go.splits)

lemma wf_AddMessages:
  "wf_bundle b \<Longrightarrow> AddMessages L tag ms b = Some (b', e) \<Longrightarrow> wf_bundle b'"
  by (auto simp: AddMessages_def ensure_tag_in intro!: wf_intros split: option.splits)

lemma wf_AddRawMessages:
  "wf_bundle b \<Longrightarrow> AddRawMessages L tag ms b = Some (Ok (b', e)) \<Longrightarrow> wf_bundle b'"
  using put_raw_wf [OF _ wf_ensure_tag ensure_tag_in]
  by (auto simp: AddRawMessages_def split: option.splits)

lemma wf_SetDelim: "wf_bundle b \<Longrightarrow> wf_bundle (SetDelim l r b)"
  by (auto simp: wf_bundle_def SetDelim_def getMessage_def)

lemma wf_NewBundle:
  "NewBundle must_parse L English artTag d = Some (Ok b) \<Longrightarrow> wf_bundle b"
  by (auto simp: NewBundle_def wf_bundle_def addTag_def getMessage_def split: go.splits)

subsection \<open>Insertion and lookup\<close>

lemma put_templates_foldl:
  "put_templates tag ms b =
     foldl (\<lambda>b (k, v). store_entry b k v) b
       (map (\<lambda>m. ((tag, m_ID m), newMessageTemplate m (b_leftDelim b) (b_rightDelim b))) ms)"
proof (induction ms arbitrary: b)
  case Nil
  show ?case by simp
next
  case (Cons m ms)
  show ?case using Cons [of "put_template tag m b"]
    by (simp add: frame_simps) (simp add: put_template_def)
qed

lemma set_option_ID: "set_option k t m = Ok m' \<Longrightarrow> m_ID m' = m_ID m"
  by (auto simp: set_option_def set_exact_def split: if_splits)

lemma set_options_ID: "set_options v os m = Ok m' \<Longrightarrow> m_ID m' = m_ID m"
  by (induction v os m rule: set_options.induct) (auto simp: go_bind_Ok_iff dest: set_option_ID)

lemma parseICU_ID: "parseICU key s = Ok m \<Longrightarrow> m_ID m = key"
  by (auto simp: parseICU_def Let_def go_bind_Ok_iff empty_message_def
      split: option.splits if_splits dest!: set_options_ID)

definition parsed_as :: "string \<times> string \<Rightarrow> Message \<Rightarrow> bool" where
  "parsed_as kv m = (parseICU (fst kv) (snd kv) = Ok m)"

lemma put_raw_all:
  "list_all2 parsed_as msgs ms \<Longrightarrow> put_raw tag msgs b = Ok (put_templates tag ms b, None)"
  by (induction msgs ms arbitrary: b rule: list_all2_induct) (auto simp: parsed_as_def)

lemma parsed_as_ID: "list_all2 parsed_as msgs ms \<Longrightarrow> map m_ID ms = map fst msgs"
  by (induction msgs ms rule: list_all2_induct) (auto simp: parsed_as_def parseICU_ID)

lemma distinct_keys:
  "distinct (map m_ID ms) \<Longrightarrow> distinct (map fst (map (\<lambda>m. ((tag, m_ID m), v m)) ms))"
  by (induction ms) auto

lemma getMessage_put_templates:
  fixes b :: "('tag, 'f, 'p) loc_bundle"
  assumes "distinct (map m_ID ms)" and "m \<in> set ms"
  shows "getMessage tag (m_ID m) (put_templates tag ms b) =
           newMessageTemplate m (b_leftDelim b) (b_rightDelim b)"
proof -
  let ?v = "\<lambda>m. newMessageTemplate m (b_leftDelim b) (b_rightDelim b) :: 'p message_template option"
  have "distinct (map fst (rev (map (\<lambda>m. ((tag, m_ID m), ?v m)) ms)))"
    using distinct_keys [OF assms(1), of tag ?v] by (simp only: rev_map distinct_rev flip: rev_map)
  then have "map_of (rev (map (\<lambda>m. ((tag, m_ID m), ?v m)) ms)) (tag, m_ID m) = Some (?v m)"
    using assms(2) by (intro map_of_is_SomeI) auto
  then show ?thesis
    by (simp add: put_templates_foldl getMessage_stored catalogue.lookup_updates)
qed

lemma getMessage_put_templates_other:
  assumes "tag' \<noteq> tag \<or> mid \<notin> m_ID ` set ms"
  shows "getMessage tag' mid (put_templates tag ms b) = getMessage tag' mid b"
  using assms by (induction tag ms b rule: put_templates.induct) (auto simp: getMessage_put_template)

lemma put_templates_permute:
  assumes "distinct (map m_ID ms)" and "mset ms = mset ms'"
  shows "getMessage tag' mid (put_templates tag ms b) = getMessage tag' mid (put_templates tag ms' b)"
  unfolding getMessage_stored put_templates_foldl
  using assms(2) by (subst catalogue.updates_permute [OF distinct_keys [OF assms(1)]]) simp_all

end
