(* ===== verification/Localizer.thy ===== *)
theory Localizer
  imports Localize_Bundle
begin

section \<open>The localizer (localize/localizer.go, options.go, context.go)\<close>

text \<open>
  What \<^verbatim>\<open>golang.org/x/text\<close>, \<^verbatim>\<open>text/template\<close> and \<^verbatim>\<open>strconv.ParseFloat\<close> provide is the record
  \<open>loc_env\<close>.  A call returns its results, the parameters (whose data map the call may write to) and,
  where it writes to it, the catalogue; \<open>None\<close> is a call that does not return, \<open>Panic\<close> a run-time
  panic.  The context carries the tags that \<^verbatim>\<open>WithLocale\<close> put there.
\<close>

record ('tag, 'f, 'p, 'v) loc_env =
  le_lang :: "'tag lang_ops"
  le_match :: "'tag list \<Rightarrow> 'tag list \<Rightarrow> nat"
  le_Parse :: "string \<Rightarrow> 'tag \<times> gerror"                         \<comment> \<open>\<^verbatim>\<open>language.Parse\<close>\<close>
  le_ParseAcceptLanguage :: "string \<Rightarrow> gerr + 'tag list"
  le_float64 :: "int \<Rightarrow> 'f"
  le_ParseFloat :: "string \<Rightarrow> 'f go"
  le_engine :: "('p, 'v) tmpl_engine"
  le_any :: "number \<Rightarrow> 'v"                                     \<comment> \<open>a number as an \<^verbatim>\<open>any\<close> value\<close>

definition WithLocale ::
    "('tag, 'f, 'p, 'v) loc_env \<Rightarrow> string \<Rightarrow> gerr + 'tag list option" where
  "WithLocale env lang =
     (case le_ParseAcceptLanguage env lang of Inl err \<Rightarrow> Inl err | Inr t \<Rightarrow> Inr (Some t))"

subsection \<open>Parameters and options\<close>

record 'v localize_params =
  TemplateData :: "(string \<rightharpoonup> 'v) option"
  PluralCount :: "number option"
  Lang :: string

type_synonym 'v loc_option = "'v localize_params \<Rightarrow> 'v localize_params"

definition WithPlural :: "number \<Rightarrow> 'v loc_option" where
  "WithPlural plural lc = lc\<lparr>PluralCount := Some plural\<rparr>"

definition WithData :: "(string \<rightharpoonup> 'v) option \<Rightarrow> 'v loc_option" where
  "WithData data lc = lc\<lparr>TemplateData := data\<rparr>"

definition WithValue :: "string \<Rightarrow> 'v \<Rightarrow> 'v loc_option" where
  "WithValue key val lc =
     lc\<lparr>TemplateData := Some ((case TemplateData lc of None \<Rightarrow> Map.empty | Some m \<Rightarrow> m)(key \<mapsto> val))\<rparr>"

definition WithLang :: "string \<Rightarrow> 'v loc_option" where
  "WithLang lang lc = lc\<lparr>Lang := lang\<rparr>"

definition no_params :: "'v localize_params" where
  "no_params = \<lparr>TemplateData = None, PluralCount = None, Lang = []\<rparr>"

text \<open>Options are applied in order, nil ones are skipped.\<close>

definition apply_options :: "'v loc_option option list \<Rightarrow> 'v localize_params" where
  "apply_options opts = foldl (\<lambda>lc o'. case o' of None \<Rightarrow> lc | Some f \<Rightarrow> f lc) no_params opts"

subsection \<open>Operations\<close>

definition getLangTag ::
    "('tag, 'f, 'p, 'v) loc_env \<Rightarrow> 'tag list option \<Rightarrow> 'v localize_params \<Rightarrow> ('tag, 'f, 'p) loc_bundle \<Rightarrow>
       ('tag \<times> gerror) go" where
  "getLangTag env ctx lc b =
     (if Lang lc = [] then go_bind (GetTagFromContext (le_match env) ctx b) (\<lambda>tag. Ok (tag, None))
      else Ok (le_Parse env (Lang lc)))"

text \<open>The data that the templates see, and what the caller's map has become.\<close>

definition plural_data ::
    "('tag, 'f, 'p, 'v) loc_env \<Rightarrow> number \<Rightarrow> 'v localize_params \<Rightarrow>
       (string \<rightharpoonup> 'v) option \<times> 'v localize_params" where
  "plural_data env n lc =
     (case TemplateData lc of
        None \<Rightarrow> (Some [''value'' \<mapsto> le_any env n, ''PluralCount'' \<mapsto> le_any env n], lc)
      | Some m \<Rightarrow>
          let m' = m(''value'' \<mapsto> le_any env n, ''PluralCount'' \<mapsto> le_any env n)
          in (Some m', lc\<lparr>TemplateData := Some m'\<rparr>))"

definition render ::
    "('tag, 'f, 'p, 'v) loc_env \<Rightarrow> 'p message_template \<Rightarrow> form \<Rightarrow> (string \<rightharpoonup> 'v) option \<Rightarrow>
       'tag loc_error + string" where
  "render env mt f data = mt_Execute (le_engine env) (TextParser_Parse (le_engine env) []) mt f data"

definition execute_with_fallback ::
    "('tag, 'f, 'p, 'v) loc_env \<Rightarrow> form \<Rightarrow> 'p message_template \<Rightarrow> (string \<rightharpoonup> 'v) option \<Rightarrow>
       'tag loc_error option \<Rightarrow> string \<times> 'tag loc_error option" where
  "execute_with_fallback env form mt data err =
     (case render env mt form data of
        Inr msg \<Rightarrow> (msg, err)
      | Inl err2 \<Rightarrow>
          let err = (case err of None \<Rightarrow> Some err2 | Some e \<Rightarrow> Some e);
              msg = (if form \<noteq> Other
                     then (case render env mt Other data of
                             Inl err3 \<Rightarrow> [] | Inr msg2 \<Rightarrow> msg2)
                     else [])
          in (msg, err))"

definition localizeWithTag ::
    "('tag, 'f, 'p, 'v) loc_env \<Rightarrow> 'tag list option \<Rightarrow> string \<Rightarrow> 'v localize_params \<Rightarrow>
       ('tag, 'f, 'p) loc_bundle \<Rightarrow>
       (string \<times> 'tag \<times> 'tag loc_error option \<times> 'v localize_params) go option" where
  "localizeWithTag env ctx key lc b =
     (case getLangTag env ctx lc b of
        Panic p \<Rightarrow> Some (Panic p)
      | Err e \<Rightarrow> Some (Err e)
      | Ok (tag, Some err) \<Rightarrow> Some (Ok (key, tag, Some (LocErr err), lc))
      | Ok (tag, None) \<Rightarrow>
          let lookup = (\<lambda>operands data lc.
                map_option (\<lambda>res. go_bind res (\<lambda>(form, mt, err).
                  case mt of
                    None \<Rightarrow> Ok ([], tag, err, lc)
                  | Some template \<Rightarrow>
                      let (msg, err') = execute_with_fallback env form template data err
                      in Ok (msg, tag, err', lc)))
                  (GetMessageTemplate (le_lang env) tag key operands b))
          in case PluralCount lc of
               None \<Rightarrow> lookup None (TemplateData lc) lc
             | Some n \<Rightarrow>
                 (case NewOperands (le_float64 env) (le_ParseFloat env) n of
                    Panic p \<Rightarrow> Some (Panic p)
                  | Err err \<Rightarrow> Some (Ok ([], tag, Some (invalidPluralCountErr key n err), lc))
                  | Ok operands \<Rightarrow>
                      let (data, lc') = plural_data env n lc in lookup (Some operands) data lc'))"

definition key_message :: "string \<Rightarrow> Message" where
  "key_message key = (empty_message key)\<lparr>m_Other := key\<rparr>"

definition GetWithParams ::
    "('tag, 'f, 'p, 'v) loc_env \<Rightarrow> 'tag list option \<Rightarrow> string \<Rightarrow> 'v localize_params \<Rightarrow>
       ('tag, 'f, 'p) loc_bundle \<Rightarrow> (string \<times> ('tag, 'f, 'p) loc_bundle) go option" where
  "GetWithParams env ctx key lc b =
     (case localizeWithTag env ctx key lc b of
        None \<Rightarrow> None
      | Some (Panic p) \<Rightarrow> Some (Panic p)
      | Some (Err e) \<Rightarrow> Some (Err e)
      | Some (Ok (translate, tag, err, lc')) \<Rightarrow>
          (case err of
             None \<Rightarrow> Some (Ok (translate, b))
           | Some e \<Rightarrow>
               map_option (\<lambda>(b', e'). Ok (key, b')) (AddMessages (le_lang env) tag [key_message key] b)))"

definition loc_Get ::
    "('tag, 'f, 'p, 'v) loc_env \<Rightarrow> 'tag list option \<Rightarrow> string \<Rightarrow> 'v loc_option option list \<Rightarrow>
       ('tag, 'f, 'p) loc_bundle \<Rightarrow> (string \<times> ('tag, 'f, 'p) loc_bundle) go option" where
  "loc_Get env ctx key opts b = GetWithParams env ctx key (apply_options opts) b"

definition TryGetWithParams ::
    "('tag, 'f, 'p, 'v) loc_env \<Rightarrow> 'tag list option \<Rightarrow> string \<Rightarrow> 'v localize_params \<Rightarrow>
       ('tag, 'f, 'p) loc_bundle \<Rightarrow> (string \<times> 'tag loc_error option) go option" where
  "TryGetWithParams env ctx key lc b =
     map_option (\<lambda>r. go_bind r (\<lambda>(key', tag, err, lc'). Ok (key', err))) (localizeWithTag env ctx key lc b)"

definition TryGet ::
    "('tag, 'f, 'p, 'v) loc_env \<Rightarrow> 'tag list option \<Rightarrow> string \<Rightarrow> 'v loc_option option list \<Rightarrow>
       ('tag, 'f, 'p) loc_bundle \<Rightarrow> (string \<times> 'tag loc_error option) go option" where
  "TryGet env ctx key opts b = TryGetWithParams env ctx key (apply_options opts) b"

subsection \<open>Which calls return, and which panic\<close>

text \<open>
  What the parameters promise: the parents of every tag reach the root, and a matcher answers with
  an index into the tags it was built from.
\<close>

definition loc_env_ok :: "('tag, 'f, 'p, 'v) loc_env \<Rightarrow> ('tag \<Rightarrow> nat) \<Rightarrow> bool" where
  "loc_env_ok env depth \<longleftrightarrow> parents_reach_root (le_lang env) depth \<and>
     (\<forall>tags prefs. tags \<noteq> [] \<longrightarrow> le_match env tags prefs < length tags)"

definition has_rule :: "'tag lang_ops \<Rightarrow> 'tag \<Rightarrow> ('tag, 'f, 'p) loc_bundle \<Rightarrow> bool" where
  "has_rule L tag b \<longleftrightarrow> (\<exists>r. Rule L (b_pluralRules b) tag = Some (Some r))"

lemma GetTagFromContext_in:
  assumes "wf_bundle b" and "loc_env_ok env depth"
  shows "\<exists>tag \<in> set (b_tags b). GetTagFromContext (le_match env) ctx b = Ok tag"
proof (cases ctx)
  case None
  then show ?thesis using assms(1) by (simp add: GetTagFromContext_def wf_bundle_def)
next
  case (Some tags)
  have "b_tags b \<noteq> []" using assms(1) by (auto simp: wf_bundle_def)
  then have "le_match env (b_tags b) tags < length (b_tags b)"
    using assms(2) by (simp add: loc_env_ok_def)
  then show ?thesis using Some assms(1) by (simp add: GetTagFromContext_def wf_bundle_def Let_def)
qed

lemma getLangTag_Ok:
  "wf_bundle b \<Longrightarrow> loc_env_ok env depth \<Longrightarrow> \<exists>tag e. getLangTag env ctx lc b = Ok (tag, e)"
  using GetTagFromContext_in [of b env depth ctx]
  by (cases "le_Parse env (Lang lc)") (auto simp: getLangTag_def)

lemma pluralForm_Ok:
  "has_rule L tag b \<Longrightarrow> \<exists>f. pluralForm L tag ops b = Some (Ok f)"
  by (cases ops) (auto simp: pluralForm_def has_rule_def)

lemma GetMessageTemplate_Ok:
  assumes "ops = None \<or> has_rule L tag b"
  shows "\<exists>r. GetMessageTemplate L tag mid ops b = Some (Ok r)"
proof -
  obtain f where "pluralForm L tag ops b = Some (Ok f)"
    using assms pluralForm_Ok [of L tag b ops] by (auto simp: pluralForm_def)
  then show ?thesis
    by (simp only: GetMessageTemplate_def option.map go_bind.simps option.inject go.inject) blast
qed

lemma GetMessageTemplate_own:
  assumes "getMessage tag mid b = Some mt" and "pluralForm L tag ops b = Some (Ok f)"
  shows "GetMessageTemplate L tag mid ops b = Some (Ok (f, Some mt, None))"
  using assms by (simp add: GetMessageTemplate_def)

lemma GetMessageTemplate_default:
  assumes "getMessage tag mid b = None" and "tag \<noteq> b_defaultLanguage b"
    and "getMessage (b_defaultLanguage b) mid b = Some mt" and "pluralForm L tag ops b = Some (Ok f)"
  shows "GetMessageTemplate L tag mid ops b = Some (Ok (f, Some mt, None))"
  using assms by (simp add: GetMessageTemplate_def)

lemma GetMessageTemplate_missing:
  assumes "getMessage tag mid b = None" and "getMessage (b_defaultLanguage b) mid b = None"
    and "pluralForm L tag ops b = Some (Ok f)"
  shows "GetMessageTemplate L tag mid ops b = Some (Ok (Invalid, None, Some (MessageNotFoundErr tag mid)))"
  using assms by (simp add: GetMessageTemplate_def)

lemma GetMessageTemplate_no_rule:
  assumes "Rule L (b_pluralRules b) tag = Some None"
  shows "GetMessageTemplate L tag mid (Some ops) b = Some (Panic ''nil pointer dereference'')"
  using assms by (simp add: GetMessageTemplate_def pluralForm_def)

lemma Rule_returns_iff:
  "parents_reach_root L depth \<Longrightarrow> \<not> has_rule L tag b \<longleftrightarrow> Rule L (b_pluralRules b) tag = Some None"
  using Rule_terminates [of L depth "b_pluralRules b" tag] by (auto simp: has_rule_def)


subsection \<open>Results of a translation\<close>

text \<open>The operands that a call computes from its plural count.\<close>

definition count_operands ::
    "('tag, 'f, 'p, 'v) loc_env \<Rightarrow> 'v localize_params \<Rightarrow> 'f operands option go" where
  "count_operands env lc =
     (case PluralCount lc of
        None \<Rightarrow> Ok None
      | Some n \<Rightarrow> go_bind (NewOperands (le_float64 env) (le_ParseFloat env) n) (\<lambda>ops. Ok (Some ops)))"

definition count_data ::
    "('tag, 'f, 'p, 'v) loc_env \<Rightarrow> 'v localize_params \<Rightarrow> (string \<rightharpoonup> 'v) option \<times> 'v localize_params" where
  "count_data env lc =
     (case PluralCount lc of None \<Rightarrow> (TemplateData lc, lc) | Some n \<Rightarrow> plural_data env n lc)"

lemma localizeWithTag_found:
  assumes "getLangTag env ctx lc b = Ok (tag, None)" and "count_operands env lc = Ok ops"
    and "GetMessageTemplate (le_lang env) tag key ops b = Some (Ok (f, Some mt, err))"
  shows "localizeWithTag env ctx key lc b =
     Some (Ok (fst (execute_with_fallback env f mt (fst (count_data env lc)) err), tag,
               snd (execute_with_fallback env f mt (fst (count_data env lc)) err),
               snd (count_data env lc)))"
proof (cases "PluralCount lc")
  case None
  then show ?thesis
    using assms by (simp add: localizeWithTag_def count_operands_def count_data_def split: prod.splits)
next
  case (Some n)
  then obtain o' where "NewOperands (le_float64 env) (le_ParseFloat env) n = Ok o'" "ops = Some o'"
    using assms(2)
    by (cases "NewOperands (le_float64 env) (le_ParseFloat env) n") (auto simp: count_operands_def)
  then show ?thesis
    using assms Some
    by (simp add: localizeWithTag_def count_data_def split: prod.splits)
qed

lemma localizeWithTag_missing:
  assumes "getLangTag env ctx lc b = Ok (tag, None)" and "count_operands env lc = Ok ops"
    and "GetMessageTemplate (le_lang env) tag key ops b = Some (Ok (f, None, err))"
  shows "localizeWithTag env ctx key lc b = Some (Ok ([], tag, err, snd (count_data env lc)))"
proof (cases "PluralCount lc")
  case None
  then show ?thesis
    using assms by (simp add: localizeWithTag_def count_operands_def count_data_def split: prod.splits)
next
  case (Some n)
  then obtain o' where "NewOperands (le_float64 env) (le_ParseFloat env) n = Ok o'" "ops = Some o'"
    using assms(2)
    by (cases "NewOperands (le_float64 env) (le_ParseFloat env) n") (auto simp: count_operands_def)
  then show ?thesis
    using assms Some
    by (simp add: localizeWithTag_def count_data_def split: prod.splits)
qed

lemma localizeWithTag_no_rule:
  assumes "getLangTag env ctx lc b = Ok (tag, None)" and "count_operands env lc = Ok (Some ops)"
    and "Rule (le_lang env) (b_pluralRules b) tag = Some None"
  shows "localizeWithTag env ctx key lc b = Some (Panic ''nil pointer dereference'')"
proof -
  obtain n where n: "PluralCount lc = Some n"
    using assms(2) by (auto simp: count_operands_def split: option.splits)
  then have "NewOperands (le_float64 env) (le_ParseFloat env) n = Ok ops"
    using assms(2)
    by (cases "NewOperands (le_float64 env) (le_ParseFloat env) n") (auto simp: count_operands_def)
  then show ?thesis
    using assms n
    by (simp add: localizeWithTag_def GetMessageTemplate_no_rule split: prod.splits)
qed

lemma render_form:
  assumes "newMessageTemplate m l r = Some mt" and "message_source m f \<noteq> []"
    and "l \<noteq> []" and "r \<noteq> []" and "\<not> contains (message_source m f) l"
  shows "render env mt f data = Inr (message_source m f)"
proof -
  have "mt_PluralTemplates mt f =
      Some \<lparr>tt_Src = message_source m f, tt_LeftDelim = l, tt_RightDelim = r, tt_once = None\<rparr>"
    using assms(1,2) by (auto simp: newMessageTemplate_eq split: if_splits)
  then show ?thesis using assms by (simp add: render_def mt_Execute_def template_Execute_text)
qed

lemma render_missing_form:
  assumes "newMessageTemplate m l r = Some mt" and "message_source m f = []"
  shows "render env mt f data = Inl (pluralFormNotFoundError f (m_ID m))"
  using assms by (auto simp: render_def mt_Execute_def newMessageTemplate_eq split: if_splits)

text \<open>
  The \<^verbatim>\<open>Other\<close> text stands in for a missing form, but the error of the first attempt is kept.
\<close>

lemma execute_with_fallback_other:
  assumes "newMessageTemplate m l r = Some mt" and "message_source m f = []" and "f \<noteq> Other"
    and "m_Other m \<noteq> []" and "l \<noteq> []" and "r \<noteq> []" and "\<not> contains (m_Other m) l"
  shows "execute_with_fallback env f mt data None = (m_Other m, Some (pluralFormNotFoundError f (m_ID m)))"
  using assms render_missing_form [OF assms(1,2), of env data]
    render_form [OF assms(1), of Other env data]
  by (simp add: execute_with_fallback_def)

lemma execute_with_fallback_form:
  assumes "newMessageTemplate m l r = Some mt" and "message_source m f \<noteq> []"
    and "l \<noteq> []" and "r \<noteq> []" and "\<not> contains (message_source m f) l"
  shows "execute_with_fallback env f mt data err = (message_source m f, err)"
  using assms by (simp add: execute_with_fallback_def render_form)

text \<open>A key that a failed \<^verbatim>\<open>Get\<close> stored is found by the next call.\<close>

lemma AddMessages_key:
  assumes "has_rule L tag b"
  shows "\<exists>b'. AddMessages L tag [m] b = Some (b', None) \<and>
    getMessage tag (m_ID m) b' = newMessageTemplate m (b_leftDelim b) (b_rightDelim b) \<and>
    b_pluralRules b' = b_pluralRules b \<and>
    (\<forall>tag' mid. tag' \<noteq> tag \<or> mid \<noteq> m_ID m \<longrightarrow> getMessage tag' mid b' = getMessage tag' mid b)"
  using assms
  by (auto simp: AddMessages_def has_rule_def frame_simps getMessage_put_template)

lemma key_message_source [simp]:
  "m_ID (key_message key) = key"
  "message_source (key_message key) f = (if f = Other then key else [])"
  by (cases f; simp add: key_message_def empty_message_def)+

lemma key_template: "key \<noteq> [] \<Longrightarrow> \<exists>mt. newMessageTemplate (key_message key) l r = Some mt"
  by (auto simp: newMessageTemplate_eq)

lemma localizeWithTag_key:
  assumes "getLangTag env ctx lc b = Ok (tag, None)" and "PluralCount lc = None"
    and "getMessage tag key b = newMessageTemplate (key_message key) l r"
    and "key \<noteq> []" and "l \<noteq> []" and "r \<noteq> []" and "\<not> contains key l"
  shows "localizeWithTag env ctx key lc b = Some (Ok (key, tag, None, lc))"
proof -
  obtain mt where gm: "getMessage tag key b = Some mt"
    and mt: "newMessageTemplate (key_message key) l r = Some mt"
    using key_template [OF assms(4)] assms(3) by metis
  have g: "GetMessageTemplate (le_lang env) tag key None b = Some (Ok (Other, Some mt, None))"
    using gm by (intro GetMessageTemplate_own) (simp_all add: pluralForm_def)
  have c: "count_operands env lc = Ok None" using assms(2) by (simp add: count_operands_def)
  have "execute_with_fallback env Other mt data None = (key, None)" for data
    using execute_with_fallback_form [OF mt, of Other env data None] assms
    by (simp add: key_message_def empty_message_def)
  then show ?thesis
    using localizeWithTag_found [OF assms(1) c g] assms(2) by (simp add: count_data_def)
qed

lemma GetWithParams_error:
  assumes "localizeWithTag env ctx key lc b = Some (Ok (s, tag, Some e, lc'))"
    and "AddMessages (le_lang env) tag [key_message key] b = Some (b', e')"
  shows "GetWithParams env ctx key lc b = Some (Ok (key, b'))"
  using assms by (simp add: GetWithParams_def)

lemma GetWithParams_Ok:
  assumes "localizeWithTag env ctx key lc b = Some (Ok (s, tag, None, lc'))"
  shows "GetWithParams env ctx key lc b = Some (Ok (s, b))"
  using assms by (simp add: GetWithParams_def)

end
