(* ===== verification/Consul_Config.thy ===== *)
theory Consul_Config
  imports Prelude "HOL-Library.AList" "HOL-Library.Multiset"
begin

section \<open>Configuration in Consul (config_provider/consul, internal/pkg/consul)\<close>

text \<open>
  A Go value of type \<^verbatim>\<open>any\<close> that a configuration holds is a \<open>cval\<close>; a \<^verbatim>\<open>map[string]any\<close> is the list
  of its entries in the order of an iteration, read by \<open>map_of\<close> and written by \<open>AList.update\<close>.
  The nested maps that the source mutates through pointers are rebuilt on the way back.  The key
  value store and its \<^verbatim>\<open>CAS\<close> belong to the Consul client and are a parameter.  The lemmas show what
  insertion of a path changes, that the order of the pairs of a prefix-free set does not matter, and
  that a configuration saved and loaded again has the same value at every path.
\<close>

datatype 'f cval =
    VNil | VBytes string | VString string | VInt int | VFloat 'f | VBool bool
  | VStrings "string list" | VInts "int list" | VFloats "'f list" | VBools "bool list"
  | VOther string                          \<comment> \<open>any other type, by its name\<close>
  | VMap "(string \<times> 'f cval) list"

type_synonym 'f config_data = "(string \<times> 'f cval) list"

subsection \<open>convertor.go\<close>

fun add_path :: "'f config_data \<Rightarrow> string list \<Rightarrow> string \<Rightarrow> 'f config_data" where
  "add_path childSection [] val = childSection"
| "add_path childSection [key] val =
     (case map_of childSection key of
        Some (VMap c) \<Rightarrow> childSection
      | _ \<Rightarrow> AList.update key (VString val) childSection)"
| "add_path childSection (key # key' # keys) val =
     (let nextMap = (case map_of childSection key of Some (VMap c) \<Rightarrow> c | _ \<Rightarrow> [])
      in AList.update key (VMap (add_path nextMap (key' # keys) val)) childSection)"

definition addToObject :: "'f config_data \<Rightarrow> string \<Rightarrow> string \<Rightarrow> 'f config_data" where
  "addToObject config parentKey val = add_path config (split_on (CHR ''/'') parentKey) val"

definition convertPairsToObject :: "string \<Rightarrow> (string \<times> string) list \<Rightarrow> 'f config_data" where
  "convertPairsToObject pfx pairs =
     foldl (\<lambda>config (k, v).
       let key = trim_prefix k (pfx @ ''/'') in
       if key = [] then config else addToObject config key v) [] pairs"

definition show_bool :: "bool \<Rightarrow> string" where
  "show_bool b = (if b then ''true'' else ''false'')"

fun anyToBytes :: "('f \<Rightarrow> string) \<Rightarrow> 'f cval \<Rightarrow> gerr + string" where
  "anyToBytes fmt VNil = Inr []"
| "anyToBytes fmt (VBytes v) = Inr v"
| "anyToBytes fmt (VString v) = Inr v"
| "anyToBytes fmt (VInt v) = Inr (show_int v)"
| "anyToBytes fmt (VFloat v) = Inr (fmt v)"
| "anyToBytes fmt (VBool v) = Inr (show_bool v)"
| "anyToBytes fmt (VStrings v) = Inr (join_with '','' v)"
| "anyToBytes fmt (VInts v) = Inr (join_with '','' (map show_int v))"
| "anyToBytes fmt (VFloats v) = Inr (join_with '','' (map fmt v))"
| "anyToBytes fmt (VBools v) = Inr (join_with '','' (map show_bool v))"
| "anyToBytes fmt (VOther ty) = Inl (Sentinel (''type is not supported: '' @ ty))"
| "anyToBytes fmt (VMap m) = Inl (Sentinel ''type is not supported: map[string]interface {}'')"

text \<open>
  The closure \<^verbatim>\<open>dfs\<close>: the entries it writes to the result, in order, and the error it returns.  The
  recursive call's error is dropped, as in the source.
\<close>

fun conv_dfs :: "('f \<Rightarrow> string) \<Rightarrow> string \<Rightarrow> 'f cval \<Rightarrow> (string \<times> string) list \<times> gerror"
and conv_entries :: "('f \<Rightarrow> string) \<Rightarrow> string \<Rightarrow> 'f config_data \<Rightarrow> (string \<times> string) list" where
  "conv_dfs fmt parentPath (VMap m) = (conv_entries fmt parentPath m, None)"
| "conv_dfs fmt parentPath cfg =
     (case anyToBytes fmt cfg of
        Inl err \<Rightarrow> ([], Some err)
      | Inr val \<Rightarrow> ([(parentPath, val)], None))"
| "conv_entries fmt parentPath [] = []"
| "conv_entries fmt parentPath ((key, cfg) # m) =
     fst (conv_dfs fmt (parentPath @ ''/'' @ key) cfg) @ conv_entries fmt parentPath m"

text \<open>The map \<^verbatim>\<open>res\<close>: a later write to a key replaces an earlier one.  \<open>None\<close> is the nil map.\<close>

definition convertObjectToKeys ::
    "('f \<Rightarrow> string) \<Rightarrow> string \<Rightarrow> 'f config_data option \<Rightarrow> (string \<times> string) list option \<times> gerror" where
  "convertObjectToKeys fmt pfx root_map =
     (case root_map of
        None \<Rightarrow> (None, None)
      | Some m \<Rightarrow>
          (case conv_dfs fmt pfx (VMap m) of
             (writes, err) \<Rightarrow> (Some (foldl (\<lambda>res (k, v). AList.update k v res) [] writes), err)))"

subsection \<open>The client and the provider (internal/pkg/consul/consul.go, consul.go)\<close>

text \<open>
  \<open>ck_list p kv\<close> lists the pairs whose key has the prefix \<open>p\<close>; \<open>ck_cas key val kv\<close> is \<^verbatim>\<open>KV.CAS\<close> with
  \<^verbatim>\<open>ModifyIndex\<close> 0.  Either may fail.
\<close>

record 'kv consul_kv =
  ck_list :: "string \<Rightarrow> 'kv \<Rightarrow> gerr + (string \<times> string) list"
  ck_cas :: "string \<Rightarrow> string \<Rightarrow> 'kv \<Rightarrow> 'kv \<times> gerror"

definition consul_GetConfig :: "'kv consul_kv \<Rightarrow> string \<Rightarrow> 'kv \<Rightarrow> gerr + (string \<times> string) list" where
  "consul_GetConfig K pfx kv =
     (case ck_list K pfx kv of
        Inl err \<Rightarrow> Inl (Wrapped ''failed to get config from consul'' err)
      | Inr pairs \<Rightarrow> Inr pairs)"

definition consul_Insert :: "'kv consul_kv \<Rightarrow> string \<Rightarrow> string \<Rightarrow> 'kv \<Rightarrow> 'kv \<times> gerror" where
  "consul_Insert K key val kv =
     (case ck_cas K key val kv of
        (kv', Some err) \<Rightarrow> (kv', Some (Wrapped ''failed to create consul config'' err))
      | (kv', None) \<Rightarrow> (kv', None))"

definition consulProvider_Get :: "'kv consul_kv \<Rightarrow> string \<Rightarrow> 'kv \<Rightarrow> gerr + 'f config_data" where
  "consulProvider_Get K pfx kv =
     (case consul_GetConfig K pfx kv of
        Inl err \<Rightarrow> Inl err
      | Inr pairs \<Rightarrow> Inr (convertPairsToObject pfx pairs))"

definition SaveError :: "string \<Rightarrow> gerr \<Rightarrow> gerr" where
  "SaveError key err = Wrapped (''save key '' @ key) err"

text \<open>The goroutines of \<^verbatim>\<open>Set\<close>, in the order in which they insert; the first error is kept.\<close>

fun save_all :: "'kv consul_kv \<Rightarrow> (string \<times> string) list \<Rightarrow> gerror \<Rightarrow> 'kv \<Rightarrow> 'kv \<times> gerror" where
  "save_all K [] first kv = (kv, first)"
| "save_all K ((key, val) # data) first kv =
     (case consul_Insert K key val kv of
        (kv', err) \<Rightarrow>
          save_all K data
            (case first of Some e \<Rightarrow> Some e | None \<Rightarrow> map_option (SaveError key) err) kv')"

definition consulProvider_Set ::
    "'kv consul_kv \<Rightarrow> ('f \<Rightarrow> string) \<Rightarrow> ((string \<times> string) list \<Rightarrow> (string \<times> string) list) \<Rightarrow> string \<Rightarrow>
       'f config_data option \<Rightarrow> 'kv \<Rightarrow> 'kv \<times> gerror" where
  "consulProvider_Set K fmt schedule pfx val kv =
     (case convertObjectToKeys fmt pfx val of
        (_, Some err) \<Rightarrow> (kv, Some err)
      | (None, None) \<Rightarrow> (kv, None)
      | (Some data, None) \<Rightarrow> save_all K (schedule data) None kv)"


subsection \<open>Values at paths\<close>

fun value_at :: "'f config_data \<Rightarrow> string list \<Rightarrow> 'f cval option" where
  "value_at m [] = None"
| "value_at m [k] = map_of m k"
| "value_at m (k # k' # ks) = (case map_of m k of Some (VMap c) \<Rightarrow> value_at c (k' # ks) | _ \<Rightarrow> None)"

definition is_map :: "'f cval \<Rightarrow> bool" where
  "is_map v = (case v of VMap c \<Rightarrow> True | _ \<Rightarrow> False)"

definition leaf_at :: "'f config_data \<Rightarrow> string list \<Rightarrow> 'f cval option" where
  "leaf_at m p = (case value_at m p of Some v \<Rightarrow> if is_map v then None else Some v | None \<Rightarrow> None)"

lemma is_map_simps [simp]:
  "is_map (VMap c)" "\<not> is_map (VString s)"
  by (simp_all add: is_map_def)

lemma value_at_Nil [simp]: "value_at [] p = None"
  by (cases p rule: value_at.cases [of "([], p)" for p, simplified]) auto

lemma value_at_Cons:
  "value_at m (k # ks) =
     (if ks = [] then map_of m k
      else case map_of m k of Some (VMap c) \<Rightarrow> value_at c ks | _ \<Rightarrow> None)"
  by (cases ks) auto

lemma add_path_here:
  "p \<noteq> [] \<Longrightarrow> \<not> (\<exists>c. value_at m p = Some (VMap c)) \<Longrightarrow>
     value_at (add_path m p v) p = Some (VString v)"
proof (induction m p v rule: add_path.induct)
  case (3 m k k' ks v)
  then show ?case
    by (auto simp: Let_def update_conv split: option.splits cval.splits)
qed (auto simp: update_conv split: option.splits cval.splits)

lemma add_path_value:
  "value_at (add_path m p v) r = Some x \<Longrightarrow>
     (r = p \<and> x = VString v) \<or> (is_map x \<and> strict_prefix r p) \<or> value_at m r = Some x \<or>
     (\<exists>y. is_map x \<and> value_at m r = Some y \<and> is_map y)"
proof (induction m p v arbitrary: r x rule: add_path.induct)
  case (1 m v)
  then show ?case by simp
next
  case (2 m k v)
  show ?case
  proof (cases "\<exists>c. map_of m k = Some (VMap c)")
    case True
    with 2 show ?thesis by auto
  next
    case False
    then have upd: "add_path m [k] v = AList.update k (VString v) m"
      by (auto split: option.splits cval.splits)
    show ?thesis
    proof (cases r)
      case Nil
      with 2 show ?thesis by simp
    next
      case (Cons j js)
      with 2 show ?thesis unfolding upd
        by (auto simp: value_at_Cons update_conv split: if_splits)
    qed
  qed
next
  case (3 m k k' ks v)
  let ?c = "case map_of m k of Some (VMap c) \<Rightarrow> c | _ \<Rightarrow> []"
  have upd: "add_path m (k # k' # ks) v = AList.update k (VMap (add_path ?c (k' # ks) v)) m"
    by (simp add: Let_def)
  show ?case
  proof (cases r)
    case Nil
    with 3 show ?thesis by simp
  next
    case (Cons j js)
    show ?thesis
    proof (cases "j = k")
      case False
      then show ?thesis using "3.prems" Cons unfolding upd
          by (cases "js = []") (simp_all add: value_at_Cons update_conv)
    next
      case True
      show ?thesis
      proof (cases "js = []")
        case True
        then show ?thesis using "3.prems" Cons \<open>j = k\<close> unfolding upd
          by (auto simp: value_at_Cons update_conv strict_prefix_def)
      next
        case False
        then have "value_at (add_path ?c (k' # ks) v) js = Some x"
          using "3.prems" Cons \<open>j = k\<close> unfolding upd
          by (cases "js = []") (simp_all add: value_at_Cons update_conv)
        from "3.IH" [OF refl this] have
          "js = k' # ks \<and> x = VString v \<or> is_map x \<and> strict_prefix js (k' # ks) \<or>
           value_at ?c js = Some x \<or> (\<exists>y. is_map x \<and> value_at ?c js = Some y \<and> is_map y)" .
        moreover have "value_at m r = value_at ?c js"
          using Cons \<open>j = k\<close> False
          by (auto simp: value_at_Cons split: option.splits cval.splits)
        ultimately show ?thesis using Cons \<open>j = k\<close> by auto
      qed
    qed
  qed
qed

lemma add_path_frame:
  "\<not> prefix p q \<Longrightarrow> \<not> prefix q p \<Longrightarrow> value_at (add_path m p v) q = value_at m q"
proof (induction m p v arbitrary: q rule: add_path.induct)
  case (2 m k v)
  then obtain j js where "q = j # js" "j \<noteq> k" by (cases q) auto
  then show ?case by (auto simp: value_at_Cons update_conv split: option.splits cval.splits)
next
  case (3 m k k' ks v)
  let ?c = "case map_of m k of Some (VMap c) \<Rightarrow> c | _ \<Rightarrow> []"
  obtain j js where q: "q = j # js" using 3 by (cases q) auto
  show ?case
  proof (cases "j = k")
    case False
    with q show ?thesis by (simp add: value_at_Cons update_conv Let_def)
  next
    case True
    with q 3 have np: "\<not> prefix (k' # ks) js" "\<not> prefix js (k' # ks)" "js \<noteq> []" by auto
    have "value_at (add_path ?c (k' # ks) v) js = value_at ?c js" by (rule "3.IH" [OF refl np(1,2)])
    then show ?thesis using q True np(3)
      by (auto simp: value_at_Cons update_conv Let_def split: option.splits cval.splits)
  qed
qed simp

text \<open>A value that is no map has nothing below it.\<close>

lemma value_at_below:
  "value_at m p = Some v \<Longrightarrow> strict_prefix p q \<Longrightarrow> value_at m q = Some w \<Longrightarrow> is_map v"
proof (induction m p arbitrary: q rule: value_at.induct)
  case (2 m k)
  then obtain zs where "q = k # zs" "zs \<noteq> []" by (auto simp: strict_prefix_def prefix_def)
  with 2 show ?case by (auto simp: value_at_Cons split: option.splits cval.splits)
next
  case (3 m k k' ks)
  then obtain js where q: "q = k # js" and js: "strict_prefix (k' # ks) js" by (cases q) auto
  then have "js \<noteq> []" by auto
  with "3.prems" q obtain c where c: "map_of m k = Some (VMap c)"
    and below: "value_at c (k' # ks) = Some v" "value_at c js = Some w"
    by (auto simp: value_at_Cons split: option.splits cval.splits)
  show ?case by (rule "3.IH" [OF c refl below(1) js below(2)])
qed simp


subsection \<open>Objects built from a consistent set of paths\<close>

definition consistent :: "(string list \<times> string) list \<Rightarrow> bool" where
  "consistent ps \<longleftrightarrow> (\<forall>(p, v) \<in> set ps. p \<noteq> [] \<and> (\<forall>(q, w) \<in> set ps. prefix p q \<longrightarrow> p = q \<and> v = w))"

definition object_of :: "(string list \<times> string) list \<Rightarrow> 'f config_data" where
  "object_of ps = foldl (\<lambda>config (p, v). add_path config p v) [] ps"

lemma object_of_snoc: "object_of (ps @ [(p, v)]) = add_path (object_of ps) p v"
  by (simp add: object_of_def)

lemma object_of_map:
  "value_at (object_of ps :: 'f config_data) r = Some x \<Longrightarrow> is_map x \<Longrightarrow> \<exists>(q, w) \<in> set ps. strict_prefix r q"
proof (induction ps arbitrary: x rule: rev_induct)
  case Nil
  then show ?case by (simp add: object_of_def)
next
  case (snoc a ps)
  obtain p v where a: "a = (p, v)" by (cases a)
  from add_path_value [OF snoc.prems(1) [unfolded a object_of_snoc]] snoc.prems(2)
  consider "strict_prefix r p" | y where "value_at (object_of ps :: 'f config_data) r = Some y" "is_map y"
    by auto
  then show ?case
  proof cases
    case 1
    then show ?thesis by (auto simp: a)
  next
    case 2
    then show ?thesis using snoc.IH by (auto simp: a)
  qed
qed

lemma consistent_butlast: "consistent (ps @ [a]) \<Longrightarrow> consistent ps"
  by (auto simp: consistent_def)

lemma leaf_at_object_of:
  assumes "consistent ps"
  shows "leaf_at (object_of ps :: 'f config_data) r = Some x \<longleftrightarrow> (\<exists>v. (r, v) \<in> set ps \<and> x = VString v)"
  using assms
proof (induction ps arbitrary: x rule: rev_induct)
  case Nil
  then show ?case by (simp add: object_of_def leaf_at_def)
next
  case (snoc a ps)
  obtain p v where a: "a = (p, v)" by (cases a)
  let ?m = "object_of ps :: 'f config_data"
  have pne: "p \<noteq> []" using snoc.prems by (auto simp: consistent_def a)
  have here: "value_at (add_path ?m p v) p = Some (VString v)"
  proof (rule add_path_here [OF pne])
    show "\<not> (\<exists>c. value_at ?m p = Some (VMap c))"
    proof
      assume "\<exists>c. value_at ?m p = Some (VMap c)"
      then obtain q w where "(q, w) \<in> set ps" "strict_prefix p q"
        using object_of_map [of ps p] by fastforce
      then show False using snoc.prems by (auto simp: consistent_def a strict_prefix_def)
    qed
  qed
  show ?case
  proof (cases "r = p")
    case True
    have "(\<exists>w. (r, w) \<in> set (ps @ [a]) \<and> x = VString w) \<longleftrightarrow> x = VString v"
      using snoc.prems True by (auto simp: consistent_def a)
    moreover have "leaf_at (object_of (ps @ [a]) :: 'f config_data) r = Some x \<longleftrightarrow> x = VString v"
      using here True by (auto simp: leaf_at_def a object_of_snoc)
    ultimately show ?thesis by simp
  next
    case False
    have IH: "leaf_at ?m r = Some x \<longleftrightarrow> (\<exists>w. (r, w) \<in> set ps \<and> x = VString w)"
      using snoc.IH consistent_butlast [OF snoc.prems] by blast
    have "leaf_at (add_path ?m p v) r = Some x \<longleftrightarrow> leaf_at ?m r = Some x"
    proof
      assume l: "leaf_at (add_path ?m p v) r = Some x"
      then have "value_at (add_path ?m p v) r = Some x" "\<not> is_map x"
        by (auto simp: leaf_at_def split: option.splits if_splits)
      from add_path_value [OF this(1)] this(2) False show "leaf_at ?m r = Some x"
        by (auto simp: leaf_at_def)
    next
      assume l: "leaf_at ?m r = Some x"
      with IH obtain w where w: "(r, w) \<in> set ps" by blast
      with snoc.prems False have "\<not> prefix p r" "\<not> prefix r p" by (auto simp: consistent_def a)
      with l show "leaf_at (add_path ?m p v) r = Some x" by (simp add: leaf_at_def add_path_frame)
    qed
    then show ?thesis using IH False by (auto simp: a object_of_snoc)
  qed
qed

subsection \<open>Saving and loading\<close>

text \<open>The paths that \<^verbatim>\<open>dfs\<close> writes, before they are joined to keys.\<close>

fun leaf_paths :: "('f \<Rightarrow> string) \<Rightarrow> 'f cval \<Rightarrow> (string list \<times> string) list"
and entry_paths :: "('f \<Rightarrow> string) \<Rightarrow> 'f config_data \<Rightarrow> (string list \<times> string) list" where
  "leaf_paths fmt (VMap m) = entry_paths fmt m"
| "leaf_paths fmt cfg = (case anyToBytes fmt cfg of Inl err \<Rightarrow> [] | Inr b \<Rightarrow> [([], b)])"
| "entry_paths fmt [] = []"
| "entry_paths fmt ((key, cfg) # m) = map (apfst (Cons key)) (leaf_paths fmt cfg) @ entry_paths fmt m"

definition path_key :: "string \<Rightarrow> string list \<Rightarrow> string" where
  "path_key pfx p = pfx @ concat (map (\<lambda>k. ''/'' @ k) p)"

fun wf_cval :: "'f cval \<Rightarrow> bool" and wf_entries :: "'f config_data \<Rightarrow> bool" where
  "wf_cval (VMap m) = wf_entries m"
| "wf_cval cfg = True"
| "wf_entries [] = True"
| "wf_entries ((key, cfg) # m) =
     (key \<noteq> [] \<and> CHR ''/'' \<notin> set key \<and> key \<notin> fst ` set m \<and> wf_cval cfg \<and> wf_entries m)"

lemma conv_paths:
  "fst (conv_dfs fmt P c) = map (\<lambda>(p, b). (path_key P p, b)) (leaf_paths fmt c)"
  "conv_entries fmt P m = map (\<lambda>(p, b). (path_key P p, b)) (entry_paths fmt m)"
proof (induction fmt P c and fmt P m rule: conv_dfs_conv_entries.induct)
  case (4 fmt P k c m)
  then show ?case by (simp add: path_key_def comp_def case_prod_beta)
qed (simp_all add: path_key_def)

lemma anyToBytes_not_map: "anyToBytes fmt c = Inr b \<Longrightarrow> \<not> is_map c"
  by (cases c) (simp_all add: is_map_def)

lemma mem_apfst_Cons: "(p, b) \<in> apfst (Cons key) ` S \<longleftrightarrow> (\<exists>ks. p = key # ks \<and> (ks, b) \<in> S)"
  by (force simp: apfst_def)

lemma entry_paths_leaf:
  fixes c :: "'f cval" and m :: "'f config_data"
  shows
  "wf_cval c \<Longrightarrow> ((p, b) \<in> set (leaf_paths fmt c) \<longleftrightarrow>
     (if is_map c then (\<exists>m v. c = VMap m \<and> leaf_at m p = Some v \<and> anyToBytes fmt v = Inr b)
      else p = [] \<and> anyToBytes fmt c = Inr b))"
  "wf_entries m \<Longrightarrow> ((p, b) \<in> set (entry_paths fmt m) \<longleftrightarrow>
     (\<exists>v. leaf_at m p = Some v \<and> anyToBytes fmt v = Inr b))"
proof (induction fmt c and fmt m arbitrary: p and p rule: leaf_paths_entry_paths.induct)
  case (4 fmt key cfg m)
  show ?case
  proof (cases p)
    case Nil
    have "leaf_at ((key, cfg) # m) [] = None" "leaf_at m [] = None" by (simp_all add: leaf_at_def)
    then show ?thesis using "4.IH"(2) [of "[]"] "4.prems" Nil by (simp add: mem_apfst_Cons)
  next
    case (Cons k ks)
    have other: "map_of m key = None" using "4.prems" by (simp add: map_of_eq_None_iff)
    show ?thesis
    proof (cases "k = key")
      case False
      have "leaf_at ((key, cfg) # m) p = leaf_at m p"
        using Cons False by (simp add: leaf_at_def value_at_Cons)
      then show ?thesis using "4.IH"(2) [of p] "4.prems" Cons False by (simp add: mem_apfst_Cons)
    next
      case True
      have "leaf_at m p = None"
        using Cons True other by (simp add: leaf_at_def value_at_Cons)
      then have "(p, b) \<notin> set (entry_paths fmt m)" using "4.IH"(2) [of p] "4.prems" by simp
      then have mem: "(p, b) \<in> set (entry_paths fmt ((key, cfg) # m)) \<longleftrightarrow> (ks, b) \<in> set (leaf_paths fmt cfg)"
        using Cons True by (simp add: mem_apfst_Cons)
      have la: "leaf_at ((key, cfg) # m) p =
          (case cfg of VMap c \<Rightarrow> leaf_at c ks | _ \<Rightarrow> if ks = [] then Some cfg else None)"
        using Cons True
        by (cases cfg) (auto simp: leaf_at_def value_at_Cons is_map_def)
      have wf: "wf_cval cfg" using "4.prems" by simp
      show ?thesis
        unfolding mem "4.IH"(1) [OF wf] la
        by (cases cfg) (auto simp: is_map_def)
    qed
  qed
qed (auto simp: is_map_def leaf_at_def split: sum.splits)

lemma entry_paths_consistent:
  assumes "wf_entries m"
  shows "consistent (entry_paths fmt m)"
  unfolding consistent_def
proof (clarify, intro conjI ballI impI)
  fix p v assume pv: "(p, v) \<in> set (entry_paths fmt m)"
  then obtain x where x: "leaf_at m p = Some x" "anyToBytes fmt x = Inr v"
    using entry_paths_leaf(2) [OF assms] by blast
  then have vp: "value_at m p = Some x" "\<not> is_map x"
    by (auto simp: leaf_at_def split: option.splits if_splits)
  then show "p \<noteq> []" by auto
  show "case qw of (q, w) \<Rightarrow> prefix p q \<longrightarrow> p = q \<and> v = w" if "qw \<in> set (entry_paths fmt m)" for qw
  proof (clarify)
    fix q w assume qw: "qw = (q, w)" and pq: "prefix p q"
    then obtain y where y: "leaf_at m q = Some y" "anyToBytes fmt y = Inr w"
      using entry_paths_leaf(2) [OF assms] \<open>qw \<in> _\<close> by blast
    then have "value_at m q = Some y" by (auto simp: leaf_at_def split: option.splits if_splits)
    then have "p = q" using value_at_below [OF vp(1), of q y] vp(2) pq by (auto simp: strict_prefix_def)
    with x y show "p = q \<and> v = w" by simp
  qed
qed


lemma path_key_join: "p \<noteq> [] \<Longrightarrow> path_key pfx p = pfx @ ''/'' @ join_with ''/'' p"
  by (induction "''/''" p rule: join_with.induct) (simp_all add: path_key_def)

definition slash_free :: "string list \<Rightarrow> bool" where
  "slash_free p = (\<forall>k \<in> set p. k \<noteq> [] \<and> CHR ''/'' \<notin> set k)"

lemma slash_free_simps [simp]:
  "slash_free []"
  "slash_free (k # p) \<longleftrightarrow> k \<noteq> [] \<and> CHR ''/'' \<notin> set k \<and> slash_free p"
  by (auto simp: slash_free_def)

lemma path_keys:
  assumes "wf_entries m" and "(p, b) \<in> set (entry_paths fmt m)"
  shows "p \<noteq> [] \<and> slash_free p"
proof -
  have "wf_cval c \<Longrightarrow> (q, b') \<in> set (leaf_paths fmt c) \<Longrightarrow> slash_free q"
    "wf_entries m' \<Longrightarrow> (q, b') \<in> set (entry_paths fmt m') \<Longrightarrow> slash_free q"
    for c m' q b'
    by (induction fmt c and fmt m' arbitrary: q and q rule: leaf_paths_entry_paths.induct)
      (auto simp: mem_apfst_Cons split: sum.splits)
  moreover have "p \<noteq> []" using entry_paths_consistent [OF assms(1)] assms(2) by (fastforce simp: consistent_def)
  ultimately show ?thesis using assms by blast
qed

lemma join_not_empty: "p \<noteq> [] \<Longrightarrow> slash_free p \<Longrightarrow> join_with sep p \<noteq> []"
  by (induction sep p rule: join_with.induct) simp_all

text \<open>Loading the keys of a path list rebuilds the object of the paths.\<close>

lemma convertPairs_object_of:
  assumes "\<forall>(p, b) \<in> set ps. p \<noteq> [] \<and> slash_free p"
  shows "convertPairsToObject pfx (map (\<lambda>(p, b). (path_key pfx p, b)) ps) = object_of ps"
  using assms
proof (induction ps rule: rev_induct)
  case Nil
  show ?case by (simp add: convertPairsToObject_def object_of_def)
next
  case (snoc a ps)
  obtain p b where a: "a = (p, b)" by (cases a)
  have p: "p \<noteq> []" "slash_free p" using snoc.prems by (simp_all add: a)
  have k: "path_key pfx p = (pfx @ ''/'') @ join_with ''/'' p" using p(1) by (simp add: path_key_join)
  have "join_with ''/'' p \<noteq> []" using p by (simp add: join_not_empty)
  moreover have "split_on (CHR ''/'') (join_with ''/'' p) = p"
    using p by (intro split_join) (auto simp: slash_free_def)
  moreover have "trim_prefix (path_key pfx p) (pfx @ ''/'') = join_with ''/'' p"
    unfolding k by (rule trim_prefix_append)
  ultimately show ?case
    using snoc by (simp add: a object_of_snoc convertPairsToObject_def addToObject_def)
qed

lemma path_key_inj:
  assumes "slash_free p" "slash_free q"
    and "p \<noteq> []" "q \<noteq> []" and "path_key pfx p = path_key pfx q"
  shows "p = q"
proof -
  have "join_with ''/'' p = join_with ''/'' q" using assms(3-5) by (simp add: path_key_join)
  moreover have "split_on (CHR ''/'') (join_with ''/'' p) = p" "split_on (CHR ''/'') (join_with ''/'' q) = q"
    using assms by (auto intro!: split_join simp: slash_free_def)
  ultimately show ?thesis by metis
qed

text \<open>Different leaves of a well-formed configuration have different keys.\<close>

lemma wf_entries_map_of:
  "wf_entries m \<Longrightarrow> map_of m k = Some c \<Longrightarrow> k \<noteq> [] \<and> CHR ''/'' \<notin> set k \<and> wf_cval c"
  by (induction m) (auto split: if_splits)

lemma value_at_slash_free: "wf_entries m \<Longrightarrow> value_at m p = Some v \<Longrightarrow> p \<noteq> [] \<and> slash_free p"
proof (induction m p rule: value_at.induct)
  case (3 m k k' ks)
  then obtain c where c: "map_of m k = Some (VMap c)" "value_at c (k' # ks) = Some v"
    by (auto split: option.splits cval.splits)
  with 3 wf_entries_map_of [OF "3.prems"(1) c(1)] show ?case by simp
qed (auto dest: wf_entries_map_of)

lemma leaf_key_unique:
  assumes "wf_entries m" and "leaf_at m p = Some v" and "leaf_at m q = Some w"
    and "path_key pfx p = path_key pfx q"
  shows "p = q \<and> v = w"
proof -
  have "value_at m p = Some v" "value_at m q = Some w"
    using assms(2,3) by (auto simp: leaf_at_def split: option.splits if_splits)
  then have "p = q"
    using value_at_slash_free [OF assms(1)] by (intro path_key_inj [OF _ _ _ _ assms(4)]) blast+
  with assms(2,3) show ?thesis by simp
qed

text \<open>\<^verbatim>\<open>convertObjectToKeys\<close> of a well-formed configuration has one key per leaf.\<close>

lemma update_fold_distinct:
  "distinct (map fst res) \<Longrightarrow> distinct (map fst (foldl (\<lambda>res (k, v). AList.update k v res) res ws))"
  by (induction ws arbitrary: res) (auto simp: distinct_update)

lemma convertObjectToKeys_distinct:
  "convertObjectToKeys fmt pfx val = (Some data, err) \<Longrightarrow> distinct (map fst data)"
  by (auto simp: convertObjectToKeys_def update_fold_distinct split: option.splits)

lemma update_fold_set:
  assumes "\<forall>(k, v) \<in> set ws. \<forall>(k', v') \<in> set ws. k = k' \<longrightarrow> v = v'"
  shows "set (foldl (\<lambda>res (k, v). AList.update k v res) [] ws) = set ws \<and>
    distinct (map fst (foldl (\<lambda>res (k, v). AList.update k v res) [] ws))"
  using assms
proof (induction ws rule: rev_induct)
  case Nil
  show ?case by simp
next
  case (snoc a ws)
  obtain k v where a: "a = (k, v)" by (cases a)
  let ?r = "foldl (\<lambda>res (k, v). AList.update k v res) [] ws"
  have "\<forall>(k, v) \<in> set ws. \<forall>(k', v') \<in> set ws. k = k' \<longrightarrow> v = v'" using snoc.prems by auto
  from snoc.IH [OF this] have IH: "set ?r = set ws" "distinct (map fst ?r)" by auto
  have d: "distinct (map fst (AList.update k v ?r))" using IH(2) by (rule distinct_update)
  have "(k', v') \<in> set (AList.update k v ?r) \<longleftrightarrow> (k', v') \<in> set (ws @ [a])" for k' v'
  proof -
    have "(k', v') \<in> set (AList.update k v ?r) \<longleftrightarrow> map_of (AList.update k v ?r) k' = Some v'"
      using d by (simp add: map_of_eq_Some_iff)
    also have "\<dots> \<longleftrightarrow> (if k' = k then v' = v else map_of ?r k' = Some v')"
      by (auto simp: update_conv)
    also have "\<dots> \<longleftrightarrow> (if k' = k then v' = v else (k', v') \<in> set ws)"
      using IH by (simp add: map_of_eq_Some_iff)
    also have "\<dots> \<longleftrightarrow> (k', v') \<in> set (ws @ [a])" using snoc.prems by (auto simp: a)
    finally show ?thesis .
  qed
  then have "set (AList.update k v ?r) = set (ws @ [a])" by auto
  with d show ?case by (simp add: a)
qed

lemma convertObjectToKeys_set:
  assumes "wf_entries m" and "convertObjectToKeys fmt pfx (Some m) = (Some res, err)"
  shows "err = None \<and> distinct (map fst res) \<and>
    set res = (\<lambda>(p, b). (path_key pfx p, b)) ` set (entry_paths fmt m)"
proof -
  let ?ws = "map (\<lambda>(p, b). (path_key pfx p, b)) (entry_paths fmt m)"
  have res: "res = foldl (\<lambda>res (k, v). AList.update k v res) [] ?ws" "err = None"
    using assms(2) by (auto simp: convertObjectToKeys_def conv_paths)
  have "\<forall>(k, v) \<in> set ?ws. \<forall>(k', v') \<in> set ?ws. k = k' \<longrightarrow> v = v'"
  proof (clarsimp)
    fix p v q w
    assume p: "(p, v) \<in> set (entry_paths fmt m)" and q: "(q, w) \<in> set (entry_paths fmt m)"
      and eq: "path_key pfx p = path_key pfx q"
    have "p = q"
      using path_keys [OF assms(1) p] path_keys [OF assms(1) q] eq by (intro path_key_inj) auto
    then show "v = w" using entry_paths_leaf(2) [OF assms(1)] p q by fastforce
  qed
  from update_fold_set [OF this] res show ?thesis by simp
qed

definition stored_leaf :: "('f \<Rightarrow> string) \<Rightarrow> 'f config_data \<Rightarrow> string list \<Rightarrow> 'f cval option" where
  "stored_leaf fmt m p =
     (case leaf_at m p of
        None \<Rightarrow> None
      | Some v \<Rightarrow> (case anyToBytes fmt v of Inl e \<Rightarrow> None | Inr b \<Rightarrow> Some (VString b)))"

text \<open>Pairs that are the keys of a consistent set of paths, in any order, load to the object of these paths.\<close>

lemma convertPairs_paths:
  assumes "consistent P" and free: "\<forall>(p, b) \<in> set P. slash_free p"
    and pairs: "set pairs = (\<lambda>(p, b). (path_key pfx p, b)) ` set P"
  shows "leaf_at (convertPairsToObject pfx pairs :: 'f config_data) r = Some x \<longleftrightarrow> (\<exists>v. (r, v) \<in> set P \<and> x = VString v)"
proof -
  have ok: "p \<noteq> [] \<and> slash_free p" if "(p, b) \<in> set P" for p b
    using that assms(1) free unfolding consistent_def by blast
  have uniq: "q = p" if "(p, b) \<in> set P" "(q, c) \<in> set P" "path_key pfx q = path_key pfx p" for p q b c
    using ok [OF that(1)] ok [OF that(2)] that(3) by (blast intro: path_key_inj)
  define path where "path = (\<lambda>kb :: string \<times> string. THE p. (p, snd kb) \<in> set P \<and> path_key pfx p = fst kb)"
  have path: "(path kb, snd kb) \<in> set P \<and> path_key pfx (path kb) = fst kb" if "kb \<in> set pairs" for kb
  proof -
    from that obtain pb where "pb \<in> set P" "kb = (path_key pfx (fst pb), snd pb)"
      unfolding pairs by (auto simp: case_prod_beta)
    then have p: "(fst pb, snd kb) \<in> set P" "path_key pfx (fst pb) = fst kb" by simp_all
    have "q = fst pb" if "(q, snd kb) \<in> set P \<and> path_key pfx q = fst kb" for q
      using uniq [OF p(1), of q "snd kb"] that p(2) by simp
    then have "path kb = fst pb" unfolding path_def using p by (intro the_equality) blast+
    with p show ?thesis by simp
  qed
  define ps where "ps = map (\<lambda>kb. (path kb, snd kb)) pairs"
  have again: "map (\<lambda>(p, b). (path_key pfx p, b)) ps = pairs"
    unfolding ps_def using path by (auto simp: comp_def intro: map_idI)
  have "set ps = set P"
  proof
    show "set ps \<subseteq> set P" using path by (auto simp: ps_def)
    show "set P \<subseteq> set ps"
    proof
      fix pb assume pb: "pb \<in> set P"
      let ?kb = "(path_key pfx (fst pb), snd pb)"
      from pb have kb: "?kb \<in> set pairs" unfolding pairs by (force simp: case_prod_beta)
      have "path ?kb = fst pb" using path [OF kb] pb uniq [of "fst pb" "snd pb" "path ?kb" "snd pb"] by simp
      with kb show "pb \<in> set ps" unfolding ps_def by (force intro!: image_eqI [of _ _ ?kb])
    qed
  qed
  then have c: "consistent ps" and f: "\<forall>(p, b) \<in> set ps. p \<noteq> [] \<and> slash_free p"
    using assms(1) ok by (simp add: consistent_def, blast)
  have obj: "(convertPairsToObject pfx pairs :: 'f config_data) = object_of ps"
    using convertPairs_object_of [OF f, of pfx] again by simp
  show ?thesis unfolding obj leaf_at_object_of [OF c] \<open>set ps = set P\<close> ..
qed

lemma save_load:
  assumes "wf_entries m" and "convertObjectToKeys fmt pfx (Some m) = (Some res, err)"
    and "set pairs = set res"
  shows "leaf_at (convertPairsToObject pfx pairs) q = stored_leaf fmt m q"
proof -
  have "leaf_at (convertPairsToObject pfx pairs) q = Some x \<longleftrightarrow> stored_leaf fmt m q = Some x" for x
    using convertPairs_paths [OF entry_paths_consistent [OF assms(1)], of fmt pairs pfx q x]
      convertObjectToKeys_set [OF assms(1,2)] assms(3) path_keys [OF assms(1)] entry_paths_leaf(2) [OF assms(1), of q]
    by (fastforce simp: stored_leaf_def split: option.splits sum.splits)
  then show ?thesis by (metis option.exhaust)
qed

subsection \<open>Saving never overwrites\<close>

text \<open>
  What Consul documents of \<^verbatim>\<open>CAS\<close> with index 0: a missing key is created, a present one is left alone,
  and no other key is touched.  A request that fails may have created the key or not: its reply can be lost.
\<close>

definition cas_creates :: "'kv consul_kv \<Rightarrow> ('kv \<Rightarrow> string \<Rightarrow> string option) \<Rightarrow> bool" where
  "cas_creates K get \<longleftrightarrow> (\<forall>k v kv kv' e. ck_cas K k v kv = (kv', e) \<longrightarrow>
     (\<forall>k'. k' \<noteq> k \<longrightarrow> get kv' k' = get kv k') \<and>
     (get kv k \<noteq> None \<longrightarrow> get kv' k = get kv k) \<and>
     (get kv k = None \<longrightarrow> get kv' k = Some v \<or> e \<noteq> None \<and> get kv' k = None))"

lemma Insert_creates:
  assumes "cas_creates K get" and "consul_Insert K k v kv = (kv', e)"
  shows "(k' \<noteq> k \<longrightarrow> get kv' k' = get kv k') \<and> (get kv k \<noteq> None \<longrightarrow> get kv' k = get kv k) \<and>
    (get kv k = None \<longrightarrow> get kv' k = Some v \<or> e \<noteq> None \<and> get kv' k = None)"
proof -
  obtain e1 where c: "ck_cas K k v kv = (kv', e1)" and "e = None \<longleftrightarrow> e1 = None"
    using assms(2) by (auto simp: consul_Insert_def split: prod.splits option.splits)
  then show ?thesis using assms(1) [unfolded cas_creates_def, rule_format, OF c] by blast
qed

lemma save_all_first: "save_all K data (Some e) kv = (kv', r) \<Longrightarrow> r = Some e"
  by (induction data arbitrary: kv) (auto split: prod.splits)

text \<open>Whatever fails, a save only creates keys of its data that were missing, with their values.\<close>

lemma save_all_changes:
  assumes "cas_creates K get" and "save_all K data first kv = (kv', e)"
  shows "get kv' k = get kv k \<or> get kv k = None \<and> (\<exists>v. (k, v) \<in> set data \<and> get kv' k = Some v)"
  using assms(2)
proof (induction data arbitrary: first kv)
  case (Cons p data)
  obtain k1 v1 where p: "p = (k1, v1)" by (cases p)
  obtain kv1 e1 where i: "consul_Insert K k1 v1 kv = (kv1, e1)" by force
  obtain first1 where "save_all K data first1 kv1 = (kv', e)" using Cons.prems by (auto simp: p i)
  from Cons.IH [OF this] Insert_creates [OF assms(1) i, of k] show ?case
    by (cases "k = k1"; cases "get kv k") (auto simp: p)
qed simp

lemma save_all_creates:
  assumes "cas_creates K get" and "save_all K data None kv = (kv', None)"
    and "distinct (map fst data)"
  shows "get kv' k = (case get kv k of Some v \<Rightarrow> Some v | None \<Rightarrow> map_of data k)"
  using assms(2,3)
proof (induction data arbitrary: kv)
  case Nil
  then show ?case by (simp split: option.splits)
next
  case (Cons p data)
  obtain k1 v1 where p: "p = (k1, v1)" by (cases p)
  obtain kv1 e1 where i: "consul_Insert K k1 v1 kv = (kv1, e1)" by force
  have e1: "e1 = None"
  proof (rule ccontr)
    assume "e1 \<noteq> None"
    then obtain x where "e1 = Some x" by auto
    then show False using Cons.prems(1) save_all_first by (fastforce simp: p i)
  qed
  have rest: "save_all K data None kv1 = (kv', None)" using Cons.prems(1) by (simp add: p i e1)
  have g: "get kv1 k = (if k = k1 \<and> get kv k1 = None then Some v1 else get kv k)"
    using Insert_creates [OF assms(1) i, of k] by (auto simp: e1)
  show ?case using Cons.IH [OF rest] Cons.prems(2) g by (auto simp: p split: option.splits)
qed

subsection \<open>Foreign keys\<close>

text \<open>
  A pair whose key does not have the prefix as a whole path segment keeps its full key: the
  configuration of an application whose name continues this one's is read as part of it.
\<close>

lemma foreign_key:
  assumes "\<not> has_prefix k (pfx @ ''/'')" and "split_on (CHR ''/'') k = p" and "p \<noteq> [[]]"
  shows "convertPairsToObject pfx [(k, v)] = add_path [] p v"
proof -
  have "k \<noteq> []" using assms(2,3) by auto
  then show ?thesis
    using assms by (simp add: convertPairsToObject_def trim_prefix_def addToObject_def)
qed

end
