(* ===== verification/Config_Store.thy ===== *)
theory Config_Store
  imports Consul_Config Interfaces
begin

section \<open>The configuration store (internal/pkg/config, pkg/config)\<close>

text \<open>
  A \<open>Config\<close> has one \<^verbatim>\<open>viper\<close> instance read from the file and the environment and one per provider
  loaded, the last one first.  \<^verbatim>\<open>viper\<close> is the parameter record \<open>viper_ops\<close>, a provider the record
  \<open>cfg_provider\<close> of its operations on the world \<open>'w\<close> of remote stores.  The lemmas show which instance
  answers for a key, what a watched update changes, what a bootstrap writes, how a component's
  configuration is replaced, and that closing happens once.
\<close>

definition cp_ErrUnsupported :: gerr where "cp_ErrUnsupported = Sentinel ''method unsupported''"

record ('v, 'f) viper_ops =
  vp_New :: 'v
  vp_ReadInConfig :: "string list \<Rightarrow> string \<Rightarrow> bool \<Rightarrow> gerr + 'v"   \<comment> \<open>paths, name, \<^verbatim>\<open>AutomaticEnv\<close>\<close>
  vp_MergeConfigMap :: "'f config_data \<Rightarrow> 'v \<Rightarrow> 'v \<times> gerror"
  vp_AllSettings :: "'v \<Rightarrow> 'f config_data"
  vp_IsSet :: "string \<Rightarrow> 'v \<Rightarrow> bool"
  vp_GetString :: "string \<Rightarrow> 'v \<Rightarrow> string"
  vp_GetBool :: "string \<Rightarrow> 'v \<Rightarrow> bool"
  vp_GetInt :: "string \<Rightarrow> 'v \<Rightarrow> int"
  vp_GetInt32 :: "string \<Rightarrow> 'v \<Rightarrow> int"
  vp_GetInt64 :: "string \<Rightarrow> 'v \<Rightarrow> int"
  vp_GetStringSlice :: "string \<Rightarrow> 'v \<Rightarrow> string list"
  vp_GetIntSlice :: "string \<Rightarrow> 'v \<Rightarrow> int list"
  vp_GetDuration :: "string \<Rightarrow> 'v \<Rightarrow> int"
  vp_GetFloat64 :: "string \<Rightarrow> 'v \<Rightarrow> 'f"

record ('w, 'f) cfg_provider =
  pr_Get :: "'w \<Rightarrow> gerr + 'f config_data option"
  pr_Set :: "'f config_data \<Rightarrow> 'w \<Rightarrow> 'w \<times> gerror"
  pr_Watch :: gerror
  pr_Close :: "'w \<Rightarrow> 'w \<times> gerror"

record ('v, 'w, 'f) storage =
  st_provider :: "('w, 'f) cfg_provider"
  st_viper :: 'v

record ('v, 'w, 'f) cfg_store =
  cfg_path :: string
  cfg_file :: string
  cfg_envViper :: "'v option"
  cfg_storages :: "('v, 'w, 'f) storage list"
  cfg_subscribes :: "string list"              \<comment> \<open>the subscribers' names\<close>
  cfg_watchChan :: "nat option"                \<comment> \<open>updates waiting in the channel; \<open>None\<close> is nil\<close>
  cfg_closed :: bool

definition config_New :: "string \<Rightarrow> string \<Rightarrow> ('v, 'w, 'f) cfg_store" where
  "config_New configPath fileName =
     \<lparr>cfg_path = configPath, cfg_file = fileName, cfg_envViper = None, cfg_storages = [],
      cfg_subscribes = [], cfg_watchChan = None, cfg_closed = False\<rparr>"

subsection \<open>Loading (config.go)\<close>

definition LoadEnv ::
    "('v, 'f) viper_ops \<Rightarrow> ('v, 'w, 'f) cfg_store \<Rightarrow> ('v, 'w, 'f) cfg_store \<times> gerror" where
  "LoadEnv V c =
     (case vp_ReadInConfig V [cfg_path c, ''.'', ''./configs''] (cfg_file c) True of
        Inl err \<Rightarrow> (c, Some (Wrapped ''failed to load config from file'' err))
      | Inr v \<Rightarrow> (c\<lparr>cfg_envViper := Some v\<rparr>, None))"

definition Bootstrap ::
    "('v, 'f) viper_ops \<Rightarrow> ('w, 'f) cfg_provider \<Rightarrow> ('v, 'w, 'f) cfg_store \<Rightarrow> 'w \<Rightarrow> 'w \<times> gerror" where
  "Bootstrap V p c w =
     (case vp_ReadInConfig V [cfg_path c, ''.''] (cfg_file c) False of
        Inl err \<Rightarrow> (w, Some (Wrapped ''failed to load config from file'' err))
      | Inr v \<Rightarrow>
          (case pr_Get p w of
             Inl err \<Rightarrow> (w, Some (Wrapped ''failed to load config from provider'' err))
           | Inr providerData \<Rightarrow>
               (case (case providerData of None \<Rightarrow> (v, None) | Some d \<Rightarrow> vp_MergeConfigMap V d v) of
                  (v', Some err) \<Rightarrow> (w, Some (Wrapped ''failed to merge config from provider'' err))
                | (v', None) \<Rightarrow>
                    (case pr_Set p (vp_AllSettings V v') w of
                       (w', None) \<Rightarrow> (w', None)
                     | (w', Some err) \<Rightarrow>
                         if errors_is err cp_ErrUnsupported then (w', None)
                         else (w', Some (Wrapped ''failed to save config to provider'' err))))))"

definition LoadFromProvider ::
    "('v, 'f) viper_ops \<Rightarrow> ('w, 'f) cfg_provider \<Rightarrow> 'w \<Rightarrow> ('v, 'w, 'f) cfg_store \<Rightarrow>
       ('v, 'w, 'f) cfg_store \<times> gerror" where
  "LoadFromProvider V p w c =
     (case pr_Get p w of
        Inl err \<Rightarrow> (c, Some (Wrapped ''failed to load config from provider'' err))
      | Inr providerData \<Rightarrow>
          (case (case providerData of None \<Rightarrow> (vp_New V, None)
                                    | Some d \<Rightarrow> vp_MergeConfigMap V d (vp_New V)) of
             (v, Some err) \<Rightarrow> (c, Some (Wrapped ''failed to merge config from provider'' err))
           | (v, None) \<Rightarrow>
               (c\<lparr>cfg_storages := \<lparr>st_provider = p, st_viper = v\<rparr> # cfg_storages c\<rparr>, None)))"

subsection \<open>Getters (methods.go)\<close>

text \<open>The first storage that has the key, else the environment's instance, which may be nil.\<close>

fun getViperInstance ::
    "('v, 'f) viper_ops \<Rightarrow> string \<Rightarrow> ('v, 'w, 'f) storage list \<Rightarrow> 'v option \<Rightarrow> 'v option" where
  "getViperInstance V key [] env = env"
| "getViperInstance V key (s # ss) env =
     (if vp_IsSet V key (st_viper s) then Some (st_viper s) else getViperInstance V key ss env)"

definition with_viper ::
    "('v, 'f) viper_ops \<Rightarrow> string \<Rightarrow> ('v \<Rightarrow> 'r) \<Rightarrow> ('v, 'w, 'f) cfg_store \<Rightarrow> 'r go" where
  "with_viper V key f c =
     (case getViperInstance V key (cfg_storages c) (cfg_envViper c) of
        None \<Rightarrow> Panic ''nil pointer dereference''
      | Some v \<Rightarrow> Ok (f v))"

definition GetString :: "('v, 'f) viper_ops \<Rightarrow> string \<Rightarrow> ('v, 'w, 'f) cfg_store \<Rightarrow> string go" where
  "GetString V key c = with_viper V key (vp_GetString V key) c"

definition GetStringOrDefault ::
    "('v, 'f) viper_ops \<Rightarrow> string \<Rightarrow> string \<Rightarrow> ('v, 'w, 'f) cfg_store \<Rightarrow> string go" where
  "GetStringOrDefault V key def_val c =
     go_bind (GetString V key c) (\<lambda>v. Ok (if v \<noteq> [] then v else def_val))"

definition GetBool :: "('v, 'f) viper_ops \<Rightarrow> string \<Rightarrow> ('v, 'w, 'f) cfg_store \<Rightarrow> bool go" where
  "GetBool V key c = with_viper V key (vp_GetBool V key) c"

definition GetInt :: "('v, 'f) viper_ops \<Rightarrow> string \<Rightarrow> ('v, 'w, 'f) cfg_store \<Rightarrow> int go" where
  "GetInt V key c = with_viper V key (vp_GetInt V key) c"

definition GetIntOrDefault ::
    "('v, 'f) viper_ops \<Rightarrow> string \<Rightarrow> int \<Rightarrow> ('v, 'w, 'f) cfg_store \<Rightarrow> int go" where
  "GetIntOrDefault V key def_val c =
     with_viper V key (\<lambda>v. if vp_IsSet V key v then vp_GetInt V key v else def_val) c"

definition GetBoolOrDefault ::
    "('v, 'f) viper_ops \<Rightarrow> string \<Rightarrow> bool \<Rightarrow> ('v, 'w, 'f) cfg_store \<Rightarrow> bool go" where
  "GetBoolOrDefault V key def_val c =
     with_viper V key (\<lambda>v. if vp_IsSet V key v then vp_GetBool V key v else def_val) c"

definition GetInt32 :: "('v, 'f) viper_ops \<Rightarrow> string \<Rightarrow> ('v, 'w, 'f) cfg_store \<Rightarrow> int go" where
  "GetInt32 V key c = with_viper V key (vp_GetInt32 V key) c"

definition GetInt64 :: "('v, 'f) viper_ops \<Rightarrow> string \<Rightarrow> ('v, 'w, 'f) cfg_store \<Rightarrow> int go" where
  "GetInt64 V key c = with_viper V key (vp_GetInt64 V key) c"

definition GetStringSlice ::
    "('v, 'f) viper_ops \<Rightarrow> string \<Rightarrow> ('v, 'w, 'f) cfg_store \<Rightarrow> string list go" where
  "GetStringSlice V key c = with_viper V key (vp_GetStringSlice V key) c"

definition GetIntSlice ::
    "('v, 'f) viper_ops \<Rightarrow> string \<Rightarrow> ('v, 'w, 'f) cfg_store \<Rightarrow> int list go" where
  "GetIntSlice V key c = with_viper V key (vp_GetIntSlice V key) c"

definition GetDuration :: "('v, 'f) viper_ops \<Rightarrow> string \<Rightarrow> ('v, 'w, 'f) cfg_store \<Rightarrow> int go" where
  "GetDuration V key c = with_viper V key (vp_GetDuration V key) c"

definition GetFloat64 :: "('v, 'f) viper_ops \<Rightarrow> string \<Rightarrow> ('v, 'w, 'f) cfg_store \<Rightarrow> 'f go" where
  "GetFloat64 V key c = with_viper V key (vp_GetFloat64 V key) c"

subsection \<open>Watching and closing (watch.go, close.go)\<close>

definition watchStorage :: "('v, 'w, 'f) storage \<Rightarrow> gerror" where
  "watchStorage s =
     (case pr_Watch (st_provider s) of
        Some err \<Rightarrow> if errors_is err cp_ErrUnsupported then None else Some err
      | None \<Rightarrow> None)"

text \<open>\<^verbatim>\<open>Watch\<close> creates the channel and starts one watcher per storage; a failed one is only logged.\<close>

definition Watch ::
    "('v, 'w, 'f) cfg_store \<Rightarrow> ('v, 'w, 'f) cfg_store \<times> gerr list" where
  "Watch c = (c\<lparr>cfg_watchChan := Some 0\<rparr>, non_nil (map watchStorage (cfg_storages c)))"

definition Subscribe :: "string \<Rightarrow> ('v, 'w, 'f) cfg_store \<Rightarrow> ('v, 'w, 'f) cfg_store" where
  "Subscribe s c = c\<lparr>cfg_subscribes := cfg_subscribes c @ [s]\<rparr>"

text \<open>
  The callback that the provider of storage \<open>i\<close> calls with new data: it merges it and wakes the
  update loop, unless an update is already waiting (the channel holds one).
\<close>

definition on_change ::
    "('v, 'f) viper_ops \<Rightarrow> nat \<Rightarrow> 'f config_data \<Rightarrow> ('v, 'w, 'f) cfg_store \<Rightarrow> ('v, 'w, 'f) cfg_store" where
  "on_change V i data c =
     (case cfg_watchChan c of
        None \<Rightarrow> c
      | Some n \<Rightarrow>
          if cfg_closed c then c
          else
            let s = cfg_storages c ! i in
            case vp_MergeConfigMap V data (st_viper s) of
              (v', err) \<Rightarrow>
                let c' = c\<lparr>cfg_storages := (cfg_storages c)[i := s\<lparr>st_viper := v'\<rparr>]\<rparr> in
                if err \<noteq> None then c'
                else if n < 1 then c'\<lparr>cfg_watchChan := Some (Suc n)\<rparr> else c')"

fun close_storages :: "('v, 'w, 'f) storage list \<Rightarrow> gerror \<Rightarrow> 'w \<Rightarrow> 'w \<times> gerror" where
  "close_storages [] err w = (w, err)"
| "close_storages (s # ss) err w =
     (case pr_Close (st_provider s) w of
        (w', None) \<Rightarrow> close_storages ss err w'
      | (w', Some perr) \<Rightarrow> close_storages ss (errors_Join [err, Some perr]) w')"

definition config_Close ::
    "('v, 'w, 'f) cfg_store \<Rightarrow> 'w \<Rightarrow> ('v, 'w, 'f) cfg_store \<times> 'w \<times> gerror" where
  "config_Close c w =
     (if cfg_closed c then (c, w, None)
      else case close_storages (cfg_storages c) None w of
        (w', err) \<Rightarrow> (c\<lparr>cfg_closed := True\<rparr>, w', err))"

subsection \<open>Component configurations (config_watcher.go)\<close>

text \<open>
  \<open>create\<close> reads a component's configuration from the store, \<open>equal\<close> compares two (\<^verbatim>\<open>Compare\<close> or
  \<^verbatim>\<open>reflect.DeepEqual\<close>); both may panic, \<open>create\<close> before the recovery is installed.
\<close>

record ('c, 't) cfg_watcher =
  cw_data :: 't
  cw_onRefresh :: "('t \<Rightarrow> gerror go) option"
  cw_create :: "'c \<Rightarrow> 't go"
  cw_name :: string

definition NewConfigWatcher :: "string \<Rightarrow> 'c \<Rightarrow> ('c \<Rightarrow> 't go) \<Rightarrow> ('c, 't) cfg_watcher go" where
  "NewConfigWatcher name cfg create =
     go_bind (create cfg) (\<lambda>d. Ok \<lparr>cw_data = d, cw_onRefresh = None, cw_create = create, cw_name = name\<rparr>)"

definition OnRefresh :: "('t \<Rightarrow> gerror go) \<Rightarrow> ('c, 't) cfg_watcher \<Rightarrow> ('c, 't) cfg_watcher" where
  "OnRefresh cb c = c\<lparr>cw_onRefresh := Some cb\<rparr>"

definition ErrPanic :: gerr where "ErrPanic = Sentinel ''panic unhandled error''"

definition TryUpdate ::
    "('t \<Rightarrow> 't \<Rightarrow> bool go) \<Rightarrow> 'c \<Rightarrow> ('c, 't) cfg_watcher \<Rightarrow> (('c, 't) cfg_watcher \<times> bool \<times> gerror) go" where
  "TryUpdate equal cfg c =
     (case cw_create c cfg of
        Panic p \<Rightarrow> Panic p
      | Err e \<Rightarrow> Err e
      | Ok newCfg \<Rightarrow>
          (case equal newCfg (cw_data c) of
             Ok True \<Rightarrow> Ok (c, False, None)
           | Ok False \<Rightarrow>
               (case cw_onRefresh c of
                  None \<Rightarrow> Ok (c\<lparr>cw_data := newCfg\<rparr>, True, None)
                | Some cb \<Rightarrow>
                    (case cb newCfg of
                       Ok (Some err) \<Rightarrow> Ok (c, False, Some err)
                     | Ok None \<Rightarrow> Ok (c\<lparr>cw_data := newCfg\<rparr>, True, None)
                     | Err e \<Rightarrow> Err e
                     | Panic p \<Rightarrow> Ok (c, True, Some ErrPanic)))
           | Err e \<Rightarrow> Err e
           | Panic p \<Rightarrow> Ok (c, True, Some ErrPanic)))"

definition watcher_Get :: "('c, 't) cfg_watcher \<Rightarrow> 't" where
  "watcher_Get c = cw_data c"

definition watcher_GetName :: "('c, 't) cfg_watcher \<Rightarrow> string" where
  "watcher_GetName c = cw_name c"

text \<open>\<open>comparable a\<close> is the method \<^verbatim>\<open>Compare\<close> of a value that has one, \<open>deep\<close> is \<^verbatim>\<open>reflect.DeepEqual\<close>.\<close>

definition equalConfig :: "('t \<Rightarrow> ('t \<Rightarrow> bool go) option) \<Rightarrow> ('t \<Rightarrow> 't \<Rightarrow> bool) \<Rightarrow> 't \<Rightarrow> 't \<Rightarrow> bool go" where
  "equalConfig comparable deep a b = (case comparable a of Some Compare \<Rightarrow> Compare b | None \<Rightarrow> Ok (deep a b))"

text \<open>\<^verbatim>\<open>triggerUpdates\<close>: every subscriber is updated on its own; the results are only logged.\<close>

definition triggerUpdates ::
    "('t \<Rightarrow> 't \<Rightarrow> bool go) \<Rightarrow> 'c \<Rightarrow> ('c, 't) cfg_watcher list \<Rightarrow> ('c, 't) cfg_watcher list go" where
  "triggerUpdates equal cfg subs =
     foldr (\<lambda>s acc. go_bind (TryUpdate equal cfg s) (\<lambda>(s', _). go_bind acc (\<lambda>ss. Ok (s' # ss)))) subs (Ok [])"


subsection \<open>Initialisation (pkg/config)\<close>

record consul_config =
  cc_Address :: string
  cc_Token :: string
  cc_TokenFile :: string

record vault_config =
  vc_Address :: string
  vc_Token :: string

type_synonym environment = "string \<Rightarrow> string option"     \<comment> \<open>\<^verbatim>\<open>os.LookupEnv\<close>\<close>

definition env_or_empty :: "environment \<Rightarrow> string \<Rightarrow> string" where
  "env_or_empty env k = (case env k of Some v \<Rightarrow> v | None \<Rightarrow> [])"

definition getVaultMount :: "environment \<Rightarrow> string" where
  "getVaultMount env =
     (let str = env_or_empty env ''VAULT_MOUNT_PATH'' in if str = [] then ''kv'' else str)"

definition getVaultConfig :: "environment \<Rightarrow> vault_config option go" where
  "getVaultConfig env =
     (if env ''VAULT_DISABLED'' = Some ''true'' then Ok None
      else
        let addr = (case env ''VAULT_ADDR'' of None \<Rightarrow> ''http://vault:8200'' | Some a \<Rightarrow> a) in
        case env ''VAULT_TOKEN_PATH'' of
          None \<Rightarrow> Err (Sentinel ''vault token is required'')
        | Some token \<Rightarrow> Ok (Some \<lparr>vc_Address = addr, vc_Token = token\<rparr>))"

definition getConsulConfig :: "environment \<Rightarrow> consul_config option go" where
  "getConsulConfig env =
     (if env ''CONSUL_DISABLED'' = Some ''true'' then Ok None
      else
        let addr = (case env ''CONSUL_ADDR'' of None \<Rightarrow> ''consul:8500'' | Some a \<Rightarrow> a) in
        Ok (Some \<lparr>cc_Address = addr, cc_Token = env_or_empty env ''CONSUL_TOKEN'',
                  cc_TokenFile = env_or_empty env ''CONSUL_TOKEN_PATH''\<rparr>))"

record init_options =
  io_ConfigPath :: string
  io_FileName :: string

type_synonym init_option = "init_options \<Rightarrow> init_options"

definition WithConfigPath :: "string \<Rightarrow> init_option" where
  "WithConfigPath p o' = o'\<lparr>io_ConfigPath := p\<rparr>"

definition WithFileName :: "string \<Rightarrow> init_option" where
  "WithFileName name o' = o'\<lparr>io_FileName := name\<rparr>"

definition applyInitOptions :: "environment \<Rightarrow> init_option option list \<Rightarrow> init_options" where
  "applyInitOptions env opts =
     (let fileName = env_or_empty env ''CONFIG_NAME'';
          fileName = (if fileName = [] then ''config'' else fileName)
      in foldl (\<lambda>o' opt. case opt of None \<Rightarrow> o' | Some f \<Rightarrow> f o')
           \<lparr>io_ConfigPath = ''./bootstrap'', io_FileName = fileName\<rparr> opts)"

text \<open>
  The clients of Consul and Vault: creating one may fail, and a provider is made of a client's
  configuration and a path.  \<^verbatim>\<open>logger.Fatal\<close> ends the process, here a panic.
\<close>

record ('w, 'f) remote_clients =
  rc_consul :: "consul_config \<Rightarrow> gerror"
  rc_consul_provider :: "consul_config \<Rightarrow> string \<Rightarrow> ('w, 'f) cfg_provider"
  rc_vault :: "vault_config \<Rightarrow> gerror"
  rc_vault_provider :: "vault_config \<Rightarrow> string \<Rightarrow> string \<Rightarrow> ('w, 'f) cfg_provider"   \<comment> \<open>path, mount\<close>

definition getConsulClient :: "('w, 'f) remote_clients \<Rightarrow> environment \<Rightarrow> consul_config option go" where
  "getConsulClient R env =
     (case getConsulConfig env of
        Ok (Some cc) \<Rightarrow>
          (case rc_consul R cc of
             Some err \<Rightarrow> Err (Wrapped ''failed to create consul client'' err)
           | None \<Rightarrow> Ok (Some cc))
      | r \<Rightarrow> r)"

definition getVaultClient :: "('w, 'f) remote_clients \<Rightarrow> environment \<Rightarrow> vault_config option go" where
  "getVaultClient R env =
     (case getVaultConfig env of
        Ok (Some vc) \<Rightarrow>
          (case rc_vault R vc of
             Some err \<Rightarrow> Err (Wrapped ''failed to create vault client'' err)
           | None \<Rightarrow> Ok (Some vc))
      | r \<Rightarrow> r)"

definition getAppName :: "('v, 'f) viper_ops \<Rightarrow> ('v, 'w, 'f) cfg_store \<Rightarrow> string go" where
  "getAppName V cfg =
     go_bind (GetString V ''app.name'' cfg) (\<lambda>appName.
       if appName = [] then Err (Sentinel ''required parameter app.name is not set'') else Ok appName)"

definition fatal :: "'a go \<Rightarrow> 'a go" where
  "fatal r = (case r of Err e \<Rightarrow> Panic ''fatal'' | _ \<Rightarrow> r)"

definition mustLoadProvider ::
    "('v, 'f) viper_ops \<Rightarrow> 'w \<Rightarrow> ('w, 'f) cfg_provider \<Rightarrow> ('v, 'w, 'f) cfg_store \<Rightarrow>
       ('v, 'w, 'f) cfg_store go" where
  "mustLoadProvider V w p cfg =
     (case LoadFromProvider V p w cfg of
        (cfg', None) \<Rightarrow> Ok cfg'
      | (cfg', Some err) \<Rightarrow> Panic ''fatal'')"

definition load_consul ::
    "('v, 'f) viper_ops \<Rightarrow> ('w, 'f) remote_clients \<Rightarrow> consul_config \<Rightarrow> string \<Rightarrow> ('v, 'w, 'f) cfg_store \<Rightarrow> 'w \<Rightarrow>
       (('v, 'w, 'f) cfg_store \<times> 'w) go" where
  "load_consul V R cc appName cfg w =
     go_bind (GetStringOrDefault V ''consul.shared_prefix'' ''shared'' cfg) (\<lambda>sharedPrefix.
     go_bind (GetStringOrDefault V ''consul.app_prefix'' appName cfg) (\<lambda>appPrefix.
     go_bind (mustLoadProvider V w (rc_consul_provider R cc sharedPrefix) cfg) (\<lambda>cfg.
     go_bind (mustLoadProvider V w (rc_consul_provider R cc appPrefix) cfg) (\<lambda>cfg.
       case Bootstrap V (rc_consul_provider R cc appPrefix) cfg w of
         (w', None) \<Rightarrow> Ok (cfg, w')
       | (w', Some err) \<Rightarrow> Panic ''fatal''))))"

definition load_vault ::
    "('v, 'f) viper_ops \<Rightarrow> ('w, 'f) remote_clients \<Rightarrow> environment \<Rightarrow> vault_config \<Rightarrow> string \<Rightarrow>
       ('v, 'w, 'f) cfg_store \<Rightarrow> 'w \<Rightarrow> (('v, 'w, 'f) cfg_store \<times> 'w) go" where
  "load_vault V R env vc appName cfg w =
     (let mount = getVaultMount env in
      go_bind (GetStringOrDefault V ''vault.app_path'' appName cfg) (\<lambda>appPath.
      go_bind (GetStringOrDefault V ''vault.shared_path'' ''shared'' cfg) (\<lambda>sharedPath.
      go_bind (mustLoadProvider V w (rc_vault_provider R vc sharedPath mount) cfg) (\<lambda>cfg.
      go_bind (mustLoadProvider V w (rc_vault_provider R vc appPath mount) cfg) (\<lambda>cfg.
        Ok (cfg, w))))))"

definition init_config ::
    "('v, 'f) viper_ops \<Rightarrow> ('w, 'f) remote_clients \<Rightarrow> environment \<Rightarrow> init_option option list \<Rightarrow> 'w \<Rightarrow>
       (('v, 'w, 'f) cfg_store \<times> 'w) go" where
  "init_config V R env opts w =
     (let o' = applyInitOptions env opts in
      case LoadEnv V (config_New (io_ConfigPath o') (io_FileName o')) of
        (cfg, Some err) \<Rightarrow> Panic ''fatal''
      | (cfg, None) \<Rightarrow>
          go_bind (fatal (getAppName V cfg)) (\<lambda>appName.
          go_bind (fatal (getConsulClient R env)) (\<lambda>consulClient.
          go_bind (case consulClient of None \<Rightarrow> Ok (cfg, w)
                                      | Some cc \<Rightarrow> load_consul V R cc appName cfg w) (\<lambda>(cfg, w).
          go_bind (fatal (getVaultClient R env)) (\<lambda>vaultClient.
            case vaultClient of None \<Rightarrow> Ok (cfg, w)
                              | Some vc \<Rightarrow> load_vault V R env vc appName cfg w)))))"

text \<open>\<^verbatim>\<open>once.Do\<close> around it: later calls change nothing and return nil.\<close>

definition Init ::
    "('v, 'f) viper_ops \<Rightarrow> ('w, 'f) remote_clients \<Rightarrow> environment \<Rightarrow> init_option option list \<Rightarrow>
       ('v, 'w, 'f) cfg_store option \<times> 'w \<Rightarrow> (('v, 'w, 'f) cfg_store option \<times> 'w) go" where
  "Init V R env opts st =
     (case st of
        (Some cfg, w) \<Rightarrow> Ok (Some cfg, w)
      | (None, w) \<Rightarrow> go_bind (init_config V R env opts w) (\<lambda>(cfg, w'). Ok (Some cfg, w')))"

definition GetConfig :: "('v, 'w, 'f) cfg_store option \<Rightarrow> ('v, 'w, 'f) cfg_store go" where
  "GetConfig inst = (case inst of None \<Rightarrow> Panic ''fatal'' | Some c \<Rightarrow> Ok c)"

subsection \<open>Which instance answers\<close>

lemma getViperInstance_split:
  "getViperInstance V key ss env =
     (case find (\<lambda>s. vp_IsSet V key (st_viper s)) ss of
        Some s \<Rightarrow> Some (st_viper s) | None \<Rightarrow> env)"
  by (induction V key ss env rule: getViperInstance.induct) auto

lemma with_viper_storage:
  assumes "cfg_storages c = pre @ s # post" and "\<forall>t \<in> set pre. \<not> vp_IsSet V key (st_viper t)"
    and "vp_IsSet V key (st_viper s)"
  shows "with_viper V key f c = Ok (f (st_viper s))"
proof -
  have "getViperInstance V key (pre @ s # post) env = Some (st_viper s)" for env
    using assms(2,3) by (induction pre) auto
  then show ?thesis by (simp add: with_viper_def assms(1))
qed

lemma with_viper_env:
  assumes "\<forall>t \<in> set (cfg_storages c). \<not> vp_IsSet V key (st_viper t)" and "cfg_envViper c = Some v"
  shows "with_viper V key f c = Ok (f v)"
proof -
  have "find (\<lambda>s. vp_IsSet V key (st_viper s)) (cfg_storages c) = None"
    using assms(1) by (simp add: find_None_iff)
  then show ?thesis using assms(2) by (simp add: with_viper_def getViperInstance_split)
qed

lemma with_viper_total: "cfg_envViper c \<noteq> None \<Longrightarrow> \<exists>r. with_viper V key f c = Ok r"
  by (auto simp: with_viper_def getViperInstance_split split: option.splits)

lemma with_viper_loaded:
  "with_viper V key f (c\<lparr>cfg_storages := \<lparr>st_provider = p, st_viper = v\<rparr> # cfg_storages c\<rparr>) =
     (if vp_IsSet V key v then Ok (f v) else with_viper V key f c)"
  by (simp add: with_viper_def)

lemma LoadFromProvider_Ok:
  assumes "LoadFromProvider V p w c = (c', None)"
  shows "\<exists>v. cfg_storages c' = \<lparr>st_provider = p, st_viper = v\<rparr> # cfg_storages c \<and>
    cfg_envViper c' = cfg_envViper c \<and>
    (\<forall>key f. with_viper V key f c' = (if vp_IsSet V key v then Ok (f v) else with_viper V key f c))"
  using assms
  by (auto simp: LoadFromProvider_def with_viper_def split: sum.splits option.splits prod.splits)

lemma mustLoadProvider_Ok: "mustLoadProvider V w p c = Ok c' \<longleftrightarrow> LoadFromProvider V p w c = (c', None)"
  by (auto simp: mustLoadProvider_def split: prod.splits option.splits)

text \<open>Two providers loaded one after the other: the second is asked first.\<close>

text \<open>
  What an instance loaded from a provider holds: the provider's data in the world of the call merged into a new
  instance, and nothing when the provider has no data.
\<close>

definition loaded :: "('v, 'f) viper_ops \<Rightarrow> ('w, 'f) cfg_provider \<Rightarrow> 'w \<Rightarrow> 'v \<Rightarrow> bool" where
  "loaded V p w v =
     (case pr_Get p w of
        Inl err \<Rightarrow> False
      | Inr None \<Rightarrow> v = vp_New V
      | Inr (Some d) \<Rightarrow> vp_MergeConfigMap V d (vp_New V) = (v, None))"

lemma mustLoadProvider_storages:
  assumes "mustLoadProvider V w p c = Ok c'"
  obtains v where "c' = c\<lparr>cfg_storages := \<lparr>st_provider = p, st_viper = v\<rparr> # cfg_storages c\<rparr>" and "loaded V p w v"
  using assms unfolding mustLoadProvider_Ok LoadFromProvider_def loaded_def
  by (auto split: sum.splits option.splits prod.splits)

lemma load_two:
  assumes "mustLoadProvider V w p1 c = Ok c1" and "mustLoadProvider V w p2 c1 = Ok c2"
  shows "\<exists>v1 v2. loaded V p1 w v1 \<and> loaded V p2 w v2 \<and> c2 = c\<lparr>cfg_storages :=
    \<lparr>st_provider = p2, st_viper = v2\<rparr> # \<lparr>st_provider = p1, st_viper = v1\<rparr> # cfg_storages c\<rparr>"
proof -
  obtain v1 v2 where "c1 = c\<lparr>cfg_storages := \<lparr>st_provider = p1, st_viper = v1\<rparr> # cfg_storages c\<rparr>"
    "c2 = c1\<lparr>cfg_storages := \<lparr>st_provider = p2, st_viper = v2\<rparr> # cfg_storages c1\<rparr>"
    "loaded V p1 w v1" "loaded V p2 w v2"
    using assms by (elim mustLoadProvider_storages)
  then show ?thesis by auto
qed

lemma load_consul_storages:
  assumes "load_consul V R cc appName c w = Ok (c', w')"
  shows "\<exists>app shared v1 v2.
    GetStringOrDefault V ''consul.app_prefix'' appName c = Ok app \<and>
    GetStringOrDefault V ''consul.shared_prefix'' ''shared'' c = Ok shared \<and>
    loaded V (rc_consul_provider R cc shared) w v1 \<and> loaded V (rc_consul_provider R cc app) w v2 \<and>
    c' = c\<lparr>cfg_storages := \<lparr>st_provider = rc_consul_provider R cc app, st_viper = v2\<rparr> #
      \<lparr>st_provider = rc_consul_provider R cc shared, st_viper = v1\<rparr> # cfg_storages c\<rparr> \<and>
    Bootstrap V (rc_consul_provider R cc app) c' w = (w', None)"
proof -
  obtain shared app c1 c2 where
    q: "GetStringOrDefault V ''consul.shared_prefix'' ''shared'' c = Ok shared"
      "GetStringOrDefault V ''consul.app_prefix'' appName c = Ok app"
    and l: "mustLoadProvider V w (rc_consul_provider R cc shared) c = Ok c1"
      "mustLoadProvider V w (rc_consul_provider R cc app) c1 = Ok c2"
    and b: "(case Bootstrap V (rc_consul_provider R cc app) c2 w of (w', None) \<Rightarrow> Ok (c2, w') | (w', Some err) \<Rightarrow> Panic ''fatal'') = Ok (c', w')"
    using assms unfolding load_consul_def go_bind_Ok_iff by blast
  from b have "c2 = c'" "Bootstrap V (rc_consul_provider R cc app) c' w = (w', None)"
    by (auto split: prod.splits option.splits)
  with load_two [OF l] q show ?thesis by blast
qed

lemma load_vault_storages:
  assumes "load_vault V R env vc appName c w = Ok (c', w')"
  shows "\<exists>app shared v1 v2. w' = w \<and>
    GetStringOrDefault V ''vault.app_path'' appName c = Ok app \<and>
    GetStringOrDefault V ''vault.shared_path'' ''shared'' c = Ok shared \<and>
    loaded V (rc_vault_provider R vc shared (getVaultMount env)) w v1 \<and>
    loaded V (rc_vault_provider R vc app (getVaultMount env)) w v2 \<and>
    c' = c\<lparr>cfg_storages := \<lparr>st_provider = rc_vault_provider R vc app (getVaultMount env), st_viper = v2\<rparr> #
      \<lparr>st_provider = rc_vault_provider R vc shared (getVaultMount env), st_viper = v1\<rparr> # cfg_storages c\<rparr>"
proof -
  obtain app shared c1 where w: "w' = w" and
    q: "GetStringOrDefault V ''vault.app_path'' appName c = Ok app"
    "GetStringOrDefault V ''vault.shared_path'' ''shared'' c = Ok shared"
    "mustLoadProvider V w (rc_vault_provider R vc shared (getVaultMount env)) c = Ok c1"
    "mustLoadProvider V w (rc_vault_provider R vc app (getVaultMount env)) c1 = Ok c'"
    using assms unfolding load_vault_def Let_def go_bind_Ok_iff by auto
  from load_two [OF q(3,4)] w q(1,2) show ?thesis by blast
qed

text \<open>The two loads of an initialisation with Consul and Vault, and the environment that they start from.\<close>

lemma init_config_loads:
  assumes "init_config V R env opts w = Ok (cfg, w')"
    and "getConsulConfig env = Ok (Some cc)" and "getVaultConfig env = Ok (Some vc)"
    and "o' = applyInitOptions env opts"
  obtains e c0 c1 w1 where
    "vp_ReadInConfig V [io_ConfigPath o', ''.'', ''./configs''] (io_FileName o') True = Inr e"
    "c0 = (config_New (io_ConfigPath o') (io_FileName o'))\<lparr>cfg_envViper := Some e\<rparr>"
    "vp_GetString V ''app.name'' e \<noteq> []"
    "load_consul V R cc (vp_GetString V ''app.name'' e) c0 w = Ok (c1, w1)"
    "load_vault V R env vc (vp_GetString V ''app.name'' e) c1 w1 = Ok (cfg, w')"
proof -
  obtain c0 where c0: "LoadEnv V (config_New (io_ConfigPath o') (io_FileName o')) = (c0, None)"
    and run: "go_bind (fatal (getAppName V c0)) (\<lambda>appName.
          go_bind (fatal (getConsulClient R env)) (\<lambda>consulClient.
          go_bind (case consulClient of None \<Rightarrow> Ok (c0, w)
                                      | Some cc \<Rightarrow> load_consul V R cc appName c0 w) (\<lambda>(cfg, w).
          go_bind (fatal (getVaultClient R env)) (\<lambda>vaultClient.
            case vaultClient of None \<Rightarrow> Ok (cfg, w)
                              | Some vc \<Rightarrow> load_vault V R env vc appName cfg w)))) = Ok (cfg, w')"
    using assms(1) by (auto simp: init_config_def Let_def assms(4) split: prod.splits option.splits)
  from c0 obtain e where e: "c0 = (config_New (io_ConfigPath o') (io_FileName o'))\<lparr>cfg_envViper := Some e\<rparr>"
    "vp_ReadInConfig V [io_ConfigPath o', ''.'', ''./configs''] (io_FileName o') True = Inr e"
    by (auto simp: LoadEnv_def config_New_def split: sum.splits)
  obtain appName consulClient c1 w1 where name: "fatal (getAppName V c0) = Ok appName"
    and cl: "fatal (getConsulClient R env) = Ok consulClient"
    and l1: "(case consulClient of None \<Rightarrow> Ok (c0, w) | Some cc \<Rightarrow> load_consul V R cc appName c0 w) = Ok (c1, w1)"
    and rest: "go_bind (fatal (getVaultClient R env)) (\<lambda>vaultClient. case vaultClient of None \<Rightarrow> Ok (c1, w1)
      | Some vc \<Rightarrow> load_vault V R env vc appName c1 w1) = Ok (cfg, w')"
    using run unfolding go_bind_Ok_iff [of "fatal (getAppName V c0)"] go_bind_Ok_iff [of "fatal (getConsulClient R env)"]
      go_bind_Ok_iff [of "case_option a b c" for a b c] by auto
  obtain vaultClient where cl2: "fatal (getVaultClient R env) = Ok vaultClient"
    and l2: "(case vaultClient of None \<Rightarrow> Ok (c1, w1) | Some vc \<Rightarrow> load_vault V R env vc appName c1 w1) = Ok (cfg, w')"
    using rest unfolding go_bind_Ok_iff by blast
  have "consulClient = Some cc" "vaultClient = Some vc"
    using cl cl2 assms(2,3) by (auto simp: fatal_def getConsulClient_def getVaultClient_def split: option.splits)
  moreover have "appName = vp_GetString V ''app.name'' e" "appName \<noteq> []"
    using name e(1) by (auto simp: fatal_def getAppName_def GetString_def with_viper_def config_New_def split: go.splits if_splits)
  ultimately show ?thesis using that e l1 l2 by simp
qed

text \<open>The instance that answers for a key when the four providers are loaded.\<close>

lemma with_viper_four:
  assumes "map st_viper (cfg_storages c) = [va, vs, ca, cs]" and "cfg_envViper c = Some e"
  shows "with_viper V key f c =
    Ok (f (if vp_IsSet V key va then va else if vp_IsSet V key vs then vs
      else if vp_IsSet V key ca then ca else if vp_IsSet V key cs then cs else e))"
  using assms by (auto simp: with_viper_def)

subsection \<open>Closing and watching\<close>

lemma close_storages_None_iff:
  assumes "\<forall>s \<in> set ss. \<forall>w. snd (pr_Close (st_provider s) w) = None"
  shows "snd (close_storages ss err w) = err"
  using assms
proof (induction ss arbitrary: w)
  case (Cons s ss)
  then obtain w' where "pr_Close (st_provider s) w = (w', None)"
    by (metis list.set_intros(1) prod.collapse)
  with Cons show ?case by simp
qed simp

lemma config_Close_twice:
  "config_Close c w = (c', w', e) \<Longrightarrow> config_Close c' u = (c', u, None)"
  by (auto simp: config_Close_def split: if_splits prod.splits)

lemma on_change_closed: "cfg_closed c \<Longrightarrow> on_change V i data c = c"
  by (simp add: on_change_def split: option.splits)

definition wf_cfg :: "('v, 'w, 'f) cfg_store \<Rightarrow> bool" where
  "wf_cfg c = (case cfg_watchChan c of None \<Rightarrow> True | Some n \<Rightarrow> n \<le> 1)"

lemma wf_on_change [wf_intros]: "wf_cfg c \<Longrightarrow> wf_cfg (on_change V i data c)"
  by (auto simp: wf_cfg_def on_change_def Let_def split: option.splits prod.splits)

lemma on_change_storages:
  assumes "i < length (cfg_storages c)" and "cfg_watchChan c = Some n" and "\<not> cfg_closed c"
    and "vp_MergeConfigMap V data (st_viper (cfg_storages c ! i)) = (v', None)" and "wf_cfg c"
  shows "cfg_storages (on_change V i data c) = (cfg_storages c)[i := (cfg_storages c ! i)\<lparr>st_viper := v'\<rparr>]"
    and "cfg_watchChan (on_change V i data c) = Some 1"
  using assms by (auto simp: on_change_def Let_def wf_cfg_def)

subsection \<open>Component configurations\<close>

lemma TryUpdate_cases:
  assumes "TryUpdate equal cfg c = Ok (c', ok, err)" and "\<And>d d' e. equal d d' \<noteq> Err e"
  shows "c' = c \<or> (ok \<and> err = None \<and> cw_create c cfg = Ok (cw_data c') \<and> c' = c\<lparr>cw_data := cw_data c'\<rparr> \<and>
     equal (cw_data c') (cw_data c) = Ok False)"
  using assms(1)
  by (auto simp: TryUpdate_def split: go.splits bool.splits option.splits)

lemma TryUpdate_refused:
  "cw_create c cfg = Ok d \<Longrightarrow> equal d (cw_data c) = Ok False \<Longrightarrow> cw_onRefresh c = Some cb \<Longrightarrow>
     cb d = Ok (Some err) \<Longrightarrow> TryUpdate equal cfg c = Ok (c, False, Some err)"
  by (simp add: TryUpdate_def)

lemma TryUpdate_panic:
  "cw_create c cfg = Ok d \<Longrightarrow> equal d (cw_data c) = Ok False \<Longrightarrow> cw_onRefresh c = Some cb \<Longrightarrow>
     cb d = Panic p \<Longrightarrow> TryUpdate equal cfg c = Ok (c, True, Some ErrPanic)"
  by (simp add: TryUpdate_def)

lemma TryUpdate_applied:
  "cw_create c cfg = Ok d \<Longrightarrow> equal d (cw_data c) = Ok False \<Longrightarrow>
     (\<forall>cb. cw_onRefresh c = Some cb \<longrightarrow> cb d = Ok None) \<Longrightarrow>
     TryUpdate equal cfg c = Ok (c\<lparr>cw_data := d\<rparr>, True, None)"
  by (auto simp: TryUpdate_def split: option.splits)

end
