(* ===== verification/App_Config.thy ===== *)
theory App_Config
  imports Config_Store
begin

section \<open>The application's configuration (application/config.go, grpc_config.go, config_worflow.go)\<close>

text \<open>
  \<^verbatim>\<open>appConfig\<close> embeds a \<^verbatim>\<open>Configurer\<close>; what its getters answer is the record \<open>configurer\<close>, which
  \<open>configurer_of\<close> makes of a loaded store.  Durations are nanoseconds.  The lemmas show where the
  defaults apply, the form of the addresses, and that the two gRPC servers do not share one by
  default.
\<close>

record configurer =
  cf_GetString :: "string \<Rightarrow> string"
  cf_GetInt :: "string \<Rightarrow> int"
  cf_GetBool :: "string \<Rightarrow> bool"
  cf_GetDuration :: "string \<Rightarrow> int"
  cf_GetStringSlice :: "string \<Rightarrow> string list"

definition configurer_of :: "('v, 'f) viper_ops \<Rightarrow> ('v, 'w, 'f) cfg_store \<Rightarrow> configurer" where
  "configurer_of V c =
     \<lparr>cf_GetString = (\<lambda>k. case GetString V k c of Ok x \<Rightarrow> x | _ \<Rightarrow> []),
      cf_GetInt = (\<lambda>k. case GetInt V k c of Ok x \<Rightarrow> x | _ \<Rightarrow> 0),
      cf_GetBool = (\<lambda>k. case GetBool V k c of Ok x \<Rightarrow> x | _ \<Rightarrow> False),
      cf_GetDuration = (\<lambda>k. case GetDuration V k c of Ok x \<Rightarrow> x | _ \<Rightarrow> 0),
      cf_GetStringSlice = (\<lambda>k. case GetStringSlice V k c of Ok x \<Rightarrow> x | _ \<Rightarrow> [])\<rparr>"

definition seconds :: "int \<Rightarrow> int" where
  "seconds n = n * 1000000000"

definition getStringOrDefault :: "string \<Rightarrow> string \<Rightarrow> string" where
  "getStringOrDefault val def_val =
     (let v = trim_space val in if v = [] then def_val else v)"

definition getIntOrDefault :: "int \<Rightarrow> int \<Rightarrow> int" where
  "getIntOrDefault val def_val = (if val = 0 then def_val else val)"

definition getDurationOrDefault :: "int \<Rightarrow> int \<Rightarrow> int" where
  "getDurationOrDefault val def_val = (if val = 0 then def_val else val)"

subsection \<open>config.go\<close>

definition GetAppName :: "configurer \<Rightarrow> string" where
  "GetAppName a = cf_GetString a ''app.name''"

record kafka_config =
  kc_Brokers :: "string list"
  kc_DefaultGroup :: string

definition GetKafkaConfig :: "configurer \<Rightarrow> kafka_config" where
  "GetKafkaConfig a =
     (let brokers = cf_GetStringSlice a ''kafka.brokers'';
          brokers = (if brokers = [] then [''kafka:9092''] else brokers);
          group = getStringOrDefault (cf_GetString a ''kafka.group'') (cf_GetString a ''app.name'')
      in \<lparr>kc_Brokers = brokers, kc_DefaultGroup = group\<rparr>)"

record http_server_config =
  hs_Host :: string
  hs_Port :: string
  hs_ReadTimeout :: int
  hs_WriteTimeout :: int
  hs_IdleTimeout :: int

definition http_GetAddr :: "http_server_config \<Rightarrow> string" where
  "http_GetAddr h = join_with '':'' [hs_Host h, hs_Port h]"

definition GetHTTPServerConfig :: "configurer \<Rightarrow> http_server_config" where
  "GetHTTPServerConfig a =
     \<lparr>hs_Host = getStringOrDefault (cf_GetString a ''app.host'') [],
      hs_Port = getStringOrDefault (cf_GetString a ''app.port'') ''8080'',
      hs_ReadTimeout = seconds 60, hs_WriteTimeout = seconds 60, hs_IdleTimeout = seconds 120\<rparr>"

text \<open>\<^verbatim>\<open>createServer\<close> of application/http.go: what the server is made with.\<close>

record http_server =
  sr_Addr :: string
  sr_ReadTimeout :: int
  sr_WriteTimeout :: int
  sr_IdleTimeout :: int

definition createServer :: "configurer \<Rightarrow> http_server" where
  "createServer env =
     (let cfg = GetHTTPServerConfig env
      in \<lparr>sr_Addr = http_GetAddr cfg, sr_ReadTimeout = hs_ReadTimeout cfg, sr_WriteTimeout = hs_WriteTimeout cfg,
          sr_IdleTimeout = hs_IdleTimeout cfg\<rparr>)"

record redis_config =
  rd_Addrs :: "string list"
  rd_DB :: int
  rd_PoolSize :: int
  rd_DialTimeout :: int
  rd_ReadTimeout :: int
  rd_WriteTimeout :: int
  rd_Username :: string
  rd_Password :: string

definition GetRedisConfig :: "configurer \<Rightarrow> redis_config" where
  "GetRedisConfig a =
     \<lparr>rd_Addrs = cf_GetStringSlice a ''redis.addrs'', rd_DB = cf_GetInt a ''redis.db'',
      rd_PoolSize = cf_GetInt a ''redis.pool_size'',
      rd_DialTimeout = cf_GetDuration a ''redis.dial_timeout'',
      rd_ReadTimeout = cf_GetDuration a ''redis.read_timeout'',
      rd_WriteTimeout = cf_GetDuration a ''redis.write_timeout'',
      rd_Username = cf_GetString a ''redis.username'', rd_Password = cf_GetString a ''redis.pwd''\<rparr>"

definition GetMetricsAddr :: "configurer \<Rightarrow> string" where
  "GetMetricsAddr a =
     (let addr = cf_GetString a ''metrics.addr'' in
      if addr \<noteq> [] then addr
      else
        let port = cf_GetString a ''metrics.port'';
            port = (if port = [] then show_int 9091 else port)
        in if has_prefix port '':'' then port else '':'' @ port)"

subsection \<open>config_worflow.go\<close>

record workflow_config =
  wf_ServiceName :: string
  wf_Host :: string
  wf_User :: string
  wf_Password :: string

definition getWorkflowConfig :: "configurer \<Rightarrow> workflow_config" where
  "getWorkflowConfig a =
     \<lparr>wf_ServiceName = GetAppName a, wf_Host = cf_GetString a ''workflow.host'',
      wf_User = cf_GetString a ''workflow.user'', wf_Password = cf_GetString a ''workflow.password''\<rparr>"

subsection \<open>grpc_config.go\<close>

record grpc_server_config =
  gs_Host :: string
  gs_Port :: string
  gs_MaxRecvMsgSize :: int
  gs_MaxSendMsgSize :: int
  gs_ConnectionTimeout :: int
  gs_KeepAliveTime :: int
  gs_KeepAliveTimeout :: int

definition grpc_GetAddr :: "grpc_server_config \<Rightarrow> string" where
  "grpc_GetAddr g =
     (if gs_Host g = [] then '':'' @ gs_Port g else join_with '':'' [gs_Host g, gs_Port g])"

definition grpc_server_config_of :: "configurer \<Rightarrow> string \<Rightarrow> string \<Rightarrow> grpc_server_config" where
  "grpc_server_config_of a base defPort =
     \<lparr>gs_Host = getStringOrDefault (cf_GetString a (base @ ''.host'')) [],
      gs_Port = getStringOrDefault (cf_GetString a (base @ ''.port'')) defPort,
      gs_MaxRecvMsgSize = getIntOrDefault (cf_GetInt a (base @ ''.max_recv_msg_size'')) (4 * 1024 * 1024),
      gs_MaxSendMsgSize = getIntOrDefault (cf_GetInt a (base @ ''.max_send_msg_size'')) (4 * 1024 * 1024),
      gs_ConnectionTimeout =
        getDurationOrDefault (cf_GetDuration a (base @ ''.connection_timeout'')) (seconds 120),
      gs_KeepAliveTime =
        getDurationOrDefault (cf_GetDuration a (base @ ''.keepalive_time'')) (seconds 30),
      gs_KeepAliveTimeout =
        getDurationOrDefault (cf_GetDuration a (base @ ''.keepalive_timeout'')) (seconds 10)\<rparr>"

definition GetGrpcPrivateServerConfig :: "configurer \<Rightarrow> grpc_server_config" where
  "GetGrpcPrivateServerConfig a = grpc_server_config_of a ''grpc.server.private'' ''50051''"

definition GetGrpcPublicServerConfig :: "configurer \<Rightarrow> grpc_server_config" where
  "GetGrpcPublicServerConfig a = grpc_server_config_of a ''grpc.server.public'' ''50052''"

record grpc_client_config =
  gc_Address :: string
  gc_Timeout :: int
  gc_MaxRecvMsgSize :: int
  gc_MaxSendMsgSize :: int
  gc_KeepAliveTime :: int
  gc_KeepAliveTimeout :: int

definition GetGrpcClientConfig :: "configurer \<Rightarrow> string \<Rightarrow> grpc_client_config" where
  "GetGrpcClientConfig a serviceName =
     (let base = (if has_prefix serviceName ''grpc.client.'' then serviceName
                  else ''grpc.client.'' @ serviceName)
      in \<lparr>gc_Address = cf_GetString a (base @ ''.address''),
          gc_Timeout = getDurationOrDefault (cf_GetDuration a (base @ ''.timeout'')) (seconds 30),
          gc_MaxRecvMsgSize =
            getIntOrDefault (cf_GetInt a (base @ ''.max_recv_msg_size'')) (4 * 1024 * 1024),
          gc_MaxSendMsgSize =
            getIntOrDefault (cf_GetInt a (base @ ''.max_send_msg_size'')) (4 * 1024 * 1024),
          gc_KeepAliveTime =
            getDurationOrDefault (cf_GetDuration a (base @ ''.keepalive_time'')) (seconds 30),
          gc_KeepAliveTimeout =
            getDurationOrDefault (cf_GetDuration a (base @ ''.keepalive_timeout'')) (seconds 10)\<rparr>)"

subsection \<open>Addresses\<close>

lemma getStringOrDefault_blank: "trim_space val = [] \<Longrightarrow> getStringOrDefault val d = d"
  by (simp add: getStringOrDefault_def)

lemma getStringOrDefault_not_Nil: "d \<noteq> [] \<Longrightarrow> getStringOrDefault val d \<noteq> []"
  by (simp add: getStringOrDefault_def Let_def)

lemma grpc_GetAddr_eq: "grpc_GetAddr g = gs_Host g @ CHR '':'' # gs_Port g"
  by (simp add: grpc_GetAddr_def)

text \<open>Two server addresses are equal only if host and port are.\<close>

lemma grpc_GetAddr_inj:
  assumes "CHR '':'' \<notin> set (gs_Port g)" and "CHR '':'' \<notin> set (gs_Port g')"
  shows "grpc_GetAddr g = grpc_GetAddr g' \<longleftrightarrow> gs_Host g = gs_Host g' \<and> gs_Port g = gs_Port g'"
  using assms by (simp add: grpc_GetAddr_eq last_separator)

lemma default_servers_differ:
  assumes "trim_space (cf_GetString a ''grpc.server.private.port'') = []"
    and "trim_space (cf_GetString a ''grpc.server.public.port'') = []"
  shows "grpc_GetAddr (GetGrpcPrivateServerConfig a) \<noteq> grpc_GetAddr (GetGrpcPublicServerConfig a)"
  using assms
  by (subst grpc_GetAddr_inj)
    (simp_all add: GetGrpcPrivateServerConfig_def GetGrpcPublicServerConfig_def
      grpc_server_config_of_def getStringOrDefault_blank)

lemma GetMetricsAddr_colon:
  "cf_GetString a ''metrics.addr'' = [] \<Longrightarrow> has_prefix (GetMetricsAddr a) '':''"
  by (auto simp: GetMetricsAddr_def Let_def has_prefix_def)

end
