(* ===== verification/Translations.thy ===== *)
theory Translations
  imports Localizer App_Config "HOL-Library.AList"
begin

section \<open>Translations (internal/pkg/translations and the bootstrap of application/localize.go)\<close>

text \<open>
  The manager that loads dictionaries into the message catalogue, the provider that reads them from a file
  and the one that exchanges them with a Tolgee server.  A Go map is an association list with distinct
  keys, in the order in which it is walked.  The file system, JSON, the HTTP client and the parser of
  language tags are parameters.  The lemmas show that the two conversions only swap the levels of a
  dictionary, so that what is uploaded is what the file holds, and what the bootstrap sends to a server
  that is disabled.
\<close>

type_synonym dictionary = "(string \<times> (string \<times> string) list) list"

definition text_at :: "dictionary \<Rightarrow> string \<Rightarrow> string \<Rightarrow> string option" where
  "text_at d outer inner = Option.bind (map_of d outer) (\<lambda>ms. map_of ms inner)"

definition wf_dictionary :: "dictionary \<Rightarrow> bool" where
  "wf_dictionary d \<longleftrightarrow> distinct (map fst d) \<and> (\<forall>(k, ms) \<in> set d. distinct (map fst ms))"

text \<open>\<^verbatim>\<open>m[outer][inner] = text\<close>, where the inner map is made when it is missing.\<close>

definition put_text :: "string \<Rightarrow> string \<Rightarrow> string \<Rightarrow> dictionary \<Rightarrow> dictionary" where
  "put_text outer inner text d =
     AList.update outer (AList.update inner text (case map_of d outer of None \<Rightarrow> [] | Some ms \<Rightarrow> ms)) d"

subsection \<open>The file provider (file_translation.go, convert.go)\<close>

definition convertKeysToDictionary :: "dictionary \<Rightarrow> dictionary" where
  "convertKeysToDictionary dict =
     fold (\<lambda>(key, langs) acc. fold (\<lambda>(lang, text). put_text lang key text) langs acc) dict []"

record file_provider =
  fp_fileName :: string
  fp_cache :: "dictionary option"

definition file_NewProvider :: "string \<Rightarrow> file_provider" where
  "file_NewProvider fileName = \<lparr>fp_fileName = fileName, fp_cache = None\<rparr>"

record file_ops =
  fo_read :: "string \<Rightarrow> gerr + string"            \<comment> \<open>open and read all\<close>
  fo_Unmarshal :: "string \<Rightarrow> gerr + dictionary"

definition file_GetTranslations ::
    "file_ops \<Rightarrow> file_provider \<Rightarrow> file_provider \<times> (gerr + dictionary)" where
  "file_GetTranslations F f =
     (case fp_cache f of
        Some c \<Rightarrow> (f, Inr c)
      | None \<Rightarrow>
          (case fo_read F (fp_fileName f) of
             Inl err \<Rightarrow> (f, Inl err)
           | Inr data \<Rightarrow>
               (case fo_Unmarshal F data of
                  Inl err \<Rightarrow> (f, Inl err)
                | Inr result \<Rightarrow>
                    if result = [] then (f, Inr [])
                    else let dict = convertKeysToDictionary result in (f\<lparr>fp_cache := Some dict\<rparr>, Inr dict))))"

definition file_Close :: "file_provider \<Rightarrow> file_provider" where
  "file_Close f = f\<lparr>fp_cache := None\<rparr>"

subsection \<open>The Tolgee provider (tolgee/config.go, convert.go, client.go, provider.go)\<close>

record tolgee_config =
  tg_Host :: string
  tg_APIKey :: string
  tg_ProjectID :: string
  tg_Enabled :: bool
  tg_Tags :: "string list"

text \<open>The two flags of the loop are left by \<^verbatim>\<open>range tags\<close> as the last iteration set them.\<close>

definition getTags :: "configurer \<Rightarrow> string list" where
  "getTags cfg =
     (let tags = cf_GetStringSlice cfg ''tolgee.tags''; appTag = cf_GetString cfg ''app.name'';
          backendTag = ''backend'';
          (appExist, backendExist) =
            fold (\<lambda>tag (a, b). (a \<or> tag = appTag, b \<or> tag = backendTag)) tags (False, False);
          tags = (if \<not> appExist then tags @ [appTag] else tags)
      in if \<not> backendExist then tags @ [backendTag] else tags)"

definition tolgee_NewConfig :: "configurer \<Rightarrow> tolgee_config" where
  "tolgee_NewConfig cfg =
     \<lparr>tg_Host = (if cf_GetString cfg ''tolgee.host'' \<noteq> [] then cf_GetString cfg ''tolgee.host'' else ''tolgee:8089''),
      tg_APIKey = cf_GetString cfg ''tolgee.api_key'', tg_ProjectID = cf_GetString cfg ''tolgee.project_id'',
      tg_Enabled = cf_GetBool cfg ''tolgee.enabled'', tg_Tags = getTags cfg\<rparr>"

definition ErrDisabled :: gerr where
  "ErrDisabled = Sentinel ''tolgee disabled''"

definition tolgee_Validate :: "tolgee_config \<Rightarrow> gerror" where
  "tolgee_Validate c =
     (if \<not> tg_Enabled c then Some ErrDisabled
      else if tg_Host c = [] then Some (Sentinel ''tolgee tolgee.host is required'')
      else if tg_APIKey c = [] then Some (Sentinel ''tolgee tolgee.api_key is required'')
      else if tg_ProjectID c = [] then Some (Sentinel ''tolgee tolgee.project_id is required'')
      else None)"

record import_key =
  ik_Name :: string
  ik_Tags :: "string list"
  ik_Translations :: "(string \<times> string) list"

text \<open>\<open>keysMap\<close> with its values, and the slice made of it in the order \<open>schedule\<close> of the map.\<close>

definition put_key ::
    "string list \<Rightarrow> string \<Rightarrow> string \<Rightarrow> string \<Rightarrow> (string \<times> import_key) list \<Rightarrow> (string \<times> import_key) list" where
  "put_key tags lang key text keysMap =
     (let importKey = (case map_of keysMap key of
          Some k \<Rightarrow> k | None \<Rightarrow> \<lparr>ik_Name = key, ik_Tags = tags, ik_Translations = []\<rparr>)
      in AList.update key (importKey\<lparr>ik_Translations := AList.update lang text (ik_Translations importKey)\<rparr>) keysMap)"

definition keys_map :: "dictionary \<Rightarrow> string list \<Rightarrow> (string \<times> import_key) list" where
  "keys_map dict tags =
     fold (\<lambda>(lang, messages) acc. fold (\<lambda>(key, text). put_key tags lang key text) messages acc) dict []"

definition convertDictionaryToImportKeys ::
    "((string \<times> import_key) list \<Rightarrow> (string \<times> import_key) list) \<Rightarrow> dictionary \<Rightarrow> string list \<Rightarrow> import_key list" where
  "convertDictionaryToImportKeys schedule dict tags = map snd (schedule (keys_map dict tags))"

text \<open>A request as it is sent: method, address, query, body.\<close>

datatype http_body = NoBody | ImportRequest "import_key list"

record tolgee_request =
  hr_Method :: string
  hr_URL :: string
  hr_Query :: "(string \<times> string) list"
  hr_APIKey :: string
  hr_Body :: http_body

record 'w tolgee_ops =
  to_parse_url :: "string \<Rightarrow> gerror"
  to_Do :: "tolgee_request \<Rightarrow> 'w \<Rightarrow> 'w \<times> (gerr + nat \<times> string)"   \<comment> \<open>status and body of the response\<close>
  to_Decode :: "string \<Rightarrow> gerr + dictionary"
  to_Languages :: "string \<Rightarrow> gerr + string list"                  \<comment> \<open>the tags of the languages\<close>
  to_schedule :: "(string \<times> import_key) list \<Rightarrow> (string \<times> import_key) list"

definition unexpected_status :: "nat \<Rightarrow> string \<Rightarrow> gerr" where
  "unexpected_status code body = Sentinel (''unexpected status code: '' @ show_nat code @ '', body: '' @ body)"

text \<open>The comma-separated list of languages, built by the loop of the source.\<close>

fun join_langs :: "nat \<Rightarrow> string list \<Rightarrow> string \<Rightarrow> string" where
  "join_langs i [] langs = langs"
| "join_langs i (lang # rest) langs =
     join_langs (Suc i) rest ((if 0 < i then langs @ '','' else langs) @ lang)"

definition translations_request :: "tolgee_config \<Rightarrow> string list \<Rightarrow> tolgee_request" where
  "translations_request cfg languages =
     \<lparr>hr_Method = ''GET'',
      hr_URL = tg_Host cfg @ ''/v2/projects/'' @ tg_ProjectID cfg @ ''/translations/'' @ join_langs 0 languages [],
      hr_Query = map (\<lambda>tag. (''filterTag'', tag)) (tg_Tags cfg) @ [(''structureDelimiter'', [])],
      hr_APIKey = tg_APIKey cfg, hr_Body = NoBody\<rparr>"

definition client_GetTranslations ::
    "'w tolgee_ops \<Rightarrow> tolgee_config \<Rightarrow> string list \<Rightarrow> 'w \<Rightarrow> 'w \<times> (gerr + dictionary)" where
  "client_GetTranslations T cfg languages w =
     (if languages = [] then (w, Inl (Sentinel ''failed to fetch translations, languages required''))
      else let req = translations_request cfg languages in
        case to_parse_url T (hr_URL req) of
          Some err \<Rightarrow> (w, Inl (Wrapped ''failed to parse URL'' err))
        | None \<Rightarrow>
            (case to_Do T req w of
               (w', Inl err) \<Rightarrow> (w', Inl (Wrapped ''failed to execute request'' err))
             | (w', Inr (code, body)) \<Rightarrow>
                 if code \<noteq> 200 then (w', Inl (unexpected_status code body))
                 else case to_Decode T body of
                   Inl err \<Rightarrow> (w', Inl (Wrapped ''failed to decode response'' err))
                 | Inr res \<Rightarrow> (w', Inr res)))"

definition ImportKeys :: "'w tolgee_ops \<Rightarrow> tolgee_config \<Rightarrow> import_key list \<Rightarrow> 'w \<Rightarrow> 'w \<times> gerror" where
  "ImportKeys T cfg ks w =
     (let req = \<lparr>hr_Method = ''POST'', hr_URL = tg_Host cfg @ ''/v2/projects/'' @ tg_ProjectID cfg @ ''/keys/import'',
        hr_Query = [], hr_APIKey = tg_APIKey cfg, hr_Body = ImportRequest ks\<rparr>
      in case to_parse_url T (hr_URL req) of
        Some err \<Rightarrow> (w, Some (Wrapped ''failed to create request'' err))
      | None \<Rightarrow>
          (case to_Do T req w of
             (w', Inl err) \<Rightarrow> (w', Some (Wrapped ''failed to execute request'' err))
           | (w', Inr (code, body)) \<Rightarrow> (w', if code \<noteq> 200 then Some (unexpected_status code body) else None)))"

definition GetLanguages :: "'w tolgee_ops \<Rightarrow> tolgee_config \<Rightarrow> 'w \<Rightarrow> 'w \<times> (gerr + string list)" where
  "GetLanguages T cfg w =
     (let req = \<lparr>hr_Method = ''GET'', hr_URL = tg_Host cfg @ ''/v2/projects/'' @ tg_ProjectID cfg @ ''/languages'',
        hr_Query = [], hr_APIKey = tg_APIKey cfg, hr_Body = NoBody\<rparr>
      in case to_parse_url T (hr_URL req) of
        Some err \<Rightarrow> (w, Inl (Wrapped ''failed to create request'' err))
      | None \<Rightarrow>
          (case to_Do T req w of
             (w', Inl err) \<Rightarrow> (w', Inl (Wrapped ''failed to execute request'' err))
           | (w', Inr (code, body)) \<Rightarrow>
               if code \<noteq> 200 then (w', Inl (unexpected_status code body))
               else case to_Languages T body of
                 Inl err \<Rightarrow> (w', Inl (Wrapped ''failed to decode response'' err))
               | Inr tags \<Rightarrow> (w', Inr tags)))"

text \<open>The copy of a map into an empty one is the map.\<close>

definition tolgee_GetTranslations ::
    "'w tolgee_ops \<Rightarrow> tolgee_config \<Rightarrow> string list \<Rightarrow> 'w \<Rightarrow> 'w \<times> (gerr + dictionary)" where
  "tolgee_GetTranslations T cfg langs w = client_GetTranslations T cfg langs w"

definition UploadTranslations :: "'w tolgee_ops \<Rightarrow> tolgee_config \<Rightarrow> dictionary \<Rightarrow> 'w \<Rightarrow> 'w \<times> gerror" where
  "UploadTranslations T cfg dict w =
     ImportKeys T cfg (convertDictionaryToImportKeys (to_schedule T) dict (tg_Tags cfg)) w"

subsection \<open>The manager (translations.go)\<close>

record ('tag, 'f, 'p) manager =
  tm_bundler :: "('tag, 'f, 'p) loc_bundle"
  tm_langs :: "string list"

type_synonym 'w loader = "string list \<Rightarrow> 'w \<Rightarrow> 'w \<times> (gerr + dictionary)"

definition translations_NewManager ::
    "('tag, 'f, 'p) loc_bundle \<Rightarrow> string list \<Rightarrow> ('tag, 'f, 'p) manager" where
  "translations_NewManager bundler langs = \<lparr>tm_bundler = bundler, tm_langs = langs\<rparr>"

definition SetAvaialableLangs :: "string list \<Rightarrow> ('tag, 'f, 'p) manager \<Rightarrow> ('tag, 'f, 'p) manager" where
  "SetAvaialableLangs langs t = t\<lparr>tm_langs := langs\<rparr>"

text \<open>
  The loop over the languages stops at the first one that fails.  \<open>None\<close>: the search for a plural rule does
  not return.
\<close>

fun load_langs ::
    "'tag lang_ops \<Rightarrow> (string \<Rightarrow> gerr + 'tag) \<Rightarrow> dictionary \<Rightarrow> ('tag, 'f, 'p) loc_bundle \<Rightarrow>
     (('tag, 'f, 'p) loc_bundle \<times> 'tag loc_error option) go option" where
  "load_langs L parse [] b = Some (Ok (b, None))"
| "load_langs L parse ((lang, messages) # rest) b =
     (case parse lang of
        Inl err \<Rightarrow> Some (Ok (b, Some (LocErr (Wrapped lang err))))
      | Inr tag \<Rightarrow>
          (case AddRawMessages L tag messages b of
             Some (Ok (b', None)) \<Rightarrow> load_langs L parse rest b'
           | r \<Rightarrow> r))"

definition manager_Load ::
    "'tag lang_ops \<Rightarrow> (string \<Rightarrow> gerr + 'tag) \<Rightarrow> 'w loader \<Rightarrow> ('tag, 'f, 'p) manager \<Rightarrow> 'w \<Rightarrow>
     (('tag, 'f, 'p) manager \<times> 'w \<times> 'tag loc_error option) go option" where
  "manager_Load L parse loader t w =
     (case loader (tm_langs t) w of
        (w', Inl err) \<Rightarrow> Some (Ok (t, w', Some (LocErr err)))
      | (w', Inr dictionary) \<Rightarrow>
          (case load_langs L parse dictionary (tm_bundler t) of
             None \<Rightarrow> None
           | Some r \<Rightarrow> Some (go_bind r (\<lambda>(b, err). Ok (t\<lparr>tm_bundler := b\<rparr>, w', err)))))"

definition manager_Upload ::
    "'w loader \<Rightarrow> (dictionary \<Rightarrow> 'w \<Rightarrow> 'w \<times> gerror) \<Rightarrow> ('tag, 'f, 'p) manager \<Rightarrow> 'w \<Rightarrow> 'w \<times> gerror" where
  "manager_Upload from to t w =
     (case from (tm_langs t) w of
        (w', Inl err) \<Rightarrow> (w', Some err)
      | (w', Inr res) \<Rightarrow> if res = [] then (w', None) else to res w')"

subsection \<open>The bootstrap (application/localize.go)\<close>

definition getAvailableLangs :: "'w tolgee_ops \<Rightarrow> tolgee_config \<Rightarrow> 'w \<Rightarrow> 'w \<times> string list" where
  "getAvailableLangs T cfg w =
     (case GetLanguages T cfg w of (w', Inl err) \<Rightarrow> (w', []) | (w', Inr langs) \<Rightarrow> (w', langs))"

text \<open>
  What \<^verbatim>\<open>initLocalizeTolgee\<close> does with the manager: the result of \<^verbatim>\<open>Validate\<close> is only logged, as are
  the errors of the upload and of the load.
\<close>

definition initTolgee ::
    "'tag lang_ops \<Rightarrow> (string \<Rightarrow> gerr + 'tag) \<Rightarrow> 'w tolgee_ops \<Rightarrow> configurer \<Rightarrow> 'w loader \<Rightarrow>
     ('tag, 'f, 'p) manager \<Rightarrow> 'w \<Rightarrow> (('tag, 'f, 'p) manager \<times> 'w) go option" where
  "initTolgee L parse T env fromProvider t w =
     (let cfg = tolgee_NewConfig env; ignored = tolgee_Validate cfg in
      case getAvailableLangs T cfg w of
        (w, langs) \<Rightarrow>
          let t = (if 0 < length langs then SetAvaialableLangs langs t else t);
              (w, err) = manager_Upload fromProvider (UploadTranslations T cfg) t w
          in (case manager_Load L parse (tolgee_GetTranslations T cfg) t w of
                None \<Rightarrow> None
              | Some r \<Rightarrow> Some (go_bind r (\<lambda>(t, w, err). Ok (t, w)))))"

definition translations_interval :: "configurer \<Rightarrow> int" where
  "translations_interval env =
     (let interval = cf_GetDuration env ''localize.refresh_duration'' in if interval = 0 then 600000000000 else interval)"

subsection \<open>Swapping the levels of a dictionary\<close>

lemma text_at_put_text:
  "text_at (put_text outer inner text d) k i =
     (if k = outer \<and> i = inner then Some text else text_at d k i)"
  by (simp add: text_at_def put_text_def update_conv' split: option.splits)

interpretation dict: keyed_store "\<lambda>d (k, i). text_at d k i" "\<lambda>d (k, i) text. put_text k i text d"
  by unfold_locales (auto simp: text_at_put_text split: if_splits)

text \<open>The entries of a dictionary, keyed by the inner and the outer key, in the order of the loops.\<close>

definition swapped_entries :: "dictionary \<Rightarrow> ((string \<times> string) \<times> string) list" where
  "swapped_entries d = concat (map (\<lambda>(k, ms). map (\<lambda>(i, text). ((i, k), text)) ms) d)"

lemma swapped_entries_Cons [simp]:
  "swapped_entries [] = []"
  "swapped_entries ((k, ms) # d) = map (\<lambda>(i, text). ((i, k), text)) ms @ swapped_entries d"
  by (simp_all add: swapped_entries_def)

lemma fold_map_pairs:
  "fold (\<lambda>(i, text). f i text) ms acc = foldl (\<lambda>s (x, text). (case x of (i, k) \<Rightarrow> f i text) s) acc (map (\<lambda>(i, text). ((i, k), text)) ms)"
  by (induction ms arbitrary: acc) auto

lemma nested_fold:
  "fold (\<lambda>(k, ms) acc. fold (\<lambda>(i, text). f k i text) ms acc) d acc =
     foldl (\<lambda>s ((i, k), text). f k i text s) acc (swapped_entries d)"
proof (induction d arbitrary: acc)
  case Nil
  show ?case by simp
next
  case (Cons e d)
  obtain k ms where e: "e = (k, ms)" by (cases e)
  have "fold (\<lambda>(i, text). f k i text) ms acc =
      foldl (\<lambda>s ((i, k), text). f k i text s) acc (map (\<lambda>(i, text). ((i, k), text)) ms)" for acc
    by (induction ms arbitrary: acc) auto
  then show ?case using Cons by (simp add: e)
qed

lemma swapped_keys: "(i, k) \<in> fst ` set (swapped_entries d) \<Longrightarrow> k \<in> fst ` set d"
  by (force simp: swapped_entries_def)

lemma wf_dictionary_Cons:
  "wf_dictionary ((k, ms) # d) \<longleftrightarrow> wf_dictionary d \<and> k \<notin> fst ` set d \<and> distinct (map fst ms)"
  by (auto simp: wf_dictionary_def)

lemma distinct_swapped: "wf_dictionary d \<Longrightarrow> distinct (map fst (swapped_entries d))"
proof (induction d)
  case (Cons e d)
  obtain k ms where e: "e = (k, ms)" by (cases e)
  have wf: "wf_dictionary d" "k \<notin> fst ` set d" "distinct (map fst ms)"
    using Cons.prems by (simp_all add: e wf_dictionary_Cons)
  have "distinct (map fst (map (\<lambda>(i, text). ((i, k), text)) ms))"
    using wf(3) by (induction ms) (force simp: image_iff)+
  moreover have "fst ` set (map (\<lambda>(i, text). ((i, k), text)) ms) \<inter> fst ` set (swapped_entries d) = {}"
    using swapped_keys [of _ k d] wf(2) by force
  ultimately show ?case using Cons.IH [OF wf(1)] by (simp add: e image_image)
qed simp

lemma map_of_swapped:
  assumes "wf_dictionary d"
  shows "map_of (rev (swapped_entries d)) (i, k) = text_at d k i"
proof -
  have "map_of (swapped_entries d) (i, k) = text_at d k i"
    using assms
  proof (induction d)
    case Nil
    show ?case by (simp add: text_at_def)
  next
    case (Cons e d)
    obtain k1 ms where e: "e = (k1, ms)" by (cases e)
    have wf: "wf_dictionary d" and k1: "map_of d k1 = None"
      using Cons.prems by (simp_all add: e wf_dictionary_Cons map_of_eq_None_iff)
    have "map_of (map (\<lambda>(i, text). ((i, k1), text)) ms) (i, k) = (if k = k1 then map_of ms i else None)"
      by (induction ms) auto
    then show ?case
      using Cons.IH [OF wf] k1 by (auto simp: e text_at_def map_add_def map_of_append split: option.splits)
  qed
  moreover have "map_of (rev (swapped_entries d)) = map_of (swapped_entries d)"
    using distinct_swapped [OF assms] by (simp add: map_of_inject_set rev_map [symmetric])
  ultimately show ?thesis by simp
qed

lemma text_at_convertKeys:
  assumes "wf_dictionary d"
  shows "text_at (convertKeysToDictionary d) lang key = text_at d key lang"
proof -
  have "convertKeysToDictionary d = foldl (\<lambda>s (k, v). (case k of (k, i) \<Rightarrow> \<lambda>text. put_text k i text s) v) [] (swapped_entries d)"
    unfolding convertKeysToDictionary_def
    using nested_fold [of "\<lambda>key lang text. put_text lang key text" d "[]"] by (simp add: case_prod_unfold)
  then show ?thesis
    using dict.lookup_updates [of "[]" "swapped_entries d" "(lang, key)"] map_of_swapped [OF assms, of lang key]
    by (simp add: case_prod_unfold text_at_def split: option.splits)
qed

lemma wf_put_text: "wf_dictionary d \<Longrightarrow> wf_dictionary (put_text k i text d)"
proof -
  assume wf: "wf_dictionary d"
  let ?ms = "AList.update i text (case map_of d k of None \<Rightarrow> [] | Some ms \<Rightarrow> ms)"
  have "distinct (map fst (case map_of d k of None \<Rightarrow> [] | Some ms \<Rightarrow> ms))"
    using wf by (auto simp: wf_dictionary_def split: option.splits dest: map_of_SomeD)
  then have ms: "distinct (map fst ?ms)" by (rule distinct_update)
  have "set (AList.update k ?ms d) \<subseteq> insert (k, ?ms) (set d)" by (induction d) auto
  then show "wf_dictionary (put_text k i text d)"
    using wf ms by (auto simp: wf_dictionary_def put_text_def intro: distinct_update)
qed

lemma wf_convertKeys: "wf_dictionary (convertKeysToDictionary d)"
proof -
  have step: "wf_dictionary (foldl (\<lambda>s ((i, k), text). put_text i k text s) acc es)" if "wf_dictionary acc" for acc es
    using that by (induction es arbitrary: acc) (auto intro: wf_put_text)
  show ?thesis
    unfolding convertKeysToDictionary_def nested_fold [of "\<lambda>key lang text. put_text lang key text"]
    by (rule step) (simp add: wf_dictionary_def)
qed

text \<open>The keys of an upload as a store: the text of a key in a language.\<close>

definition key_text :: "(string \<times> import_key) list \<Rightarrow> string \<times> string \<Rightarrow> string option" where
  "key_text keysMap = (\<lambda>(key, lang). Option.bind (map_of keysMap key) (\<lambda>k. map_of (ik_Translations k) lang))"

interpretation ikeys: keyed_store key_text "\<lambda>km (key, lang) text. put_key tags lang key text km" for tags
  by unfold_locales (auto simp: key_text_def put_key_def Let_def update_conv' split: option.splits if_splits)

lemma keys_map_foldl:
  "keys_map dict tags = foldl (\<lambda>s (k, v). (case k of (key, lang) \<Rightarrow> \<lambda>text. put_key tags lang key text s) v) [] (swapped_entries dict)"
  unfolding keys_map_def
  using nested_fold [of "\<lambda>lang key text. put_key tags lang key text" dict "[]"] by (simp add: case_prod_unfold)

lemma key_text_keys_map:
  assumes "wf_dictionary dict"
  shows "key_text (keys_map dict tags) (key, lang) = text_at dict lang key"
  unfolding keys_map_foldl
  using ikeys.lookup_updates [of tags "[]" "swapped_entries dict" "(key, lang)"] map_of_swapped [OF assms, of key lang]
  by (simp add: case_prod_unfold key_text_def split: option.splits)

text \<open>Every entry is filed under its name and has the tags of the upload.\<close>

definition wf_keys :: "string list \<Rightarrow> (string \<times> import_key) list \<Rightarrow> bool" where
  "wf_keys tags km \<longleftrightarrow> distinct (map fst km) \<and> (\<forall>(key, k) \<in> set km. ik_Name k = key \<and> ik_Tags k = tags)"

lemma wf_put_key: "wf_keys tags km \<Longrightarrow> wf_keys tags (put_key tags lang key text km)"
proof -
  assume wf: "wf_keys tags km"
  let ?k = "case map_of km key of Some k \<Rightarrow> k | None \<Rightarrow> \<lparr>ik_Name = key, ik_Tags = tags, ik_Translations = []\<rparr>"
  let ?k' = "?k\<lparr>ik_Translations := AList.update lang text (ik_Translations ?k)\<rparr>"
  have "ik_Name ?k = key \<and> ik_Tags ?k = tags"
    using wf by (auto simp: wf_keys_def split: option.splits dest: map_of_SomeD)
  moreover have "set (AList.update key ?k' km) \<subseteq> insert (key, ?k') (set km)" by (induction km) auto
  ultimately show "wf_keys tags (put_key tags lang key text km)"
    using wf by (auto simp: wf_keys_def put_key_def Let_def intro: distinct_update)
qed

lemma wf_keys_map: "wf_keys tags (keys_map dict tags)"
proof -
  have step: "wf_keys tags (foldl (\<lambda>s (k, v). (case k of (key, lang) \<Rightarrow> \<lambda>text. put_key tags lang key text s) v) acc es)"
    if "wf_keys tags acc" for acc es
    using that by (induction es arbitrary: acc) (auto intro: wf_put_key)
  show ?thesis unfolding keys_map_foldl by (rule step) (simp add: wf_keys_def)
qed

lemma import_keys_entries:
  assumes "mset (schedule (keys_map dict tags)) = mset (keys_map dict tags)"
  shows "set (convertDictionaryToImportKeys schedule dict tags) = snd ` set (keys_map dict tags)"
    and "distinct (map ik_Name (convertDictionaryToImportKeys schedule dict tags))"
proof -
  have set: "set (schedule (keys_map dict tags)) = set (keys_map dict tags)"
    using assms by (rule mset_eq_setD)
  then show "set (convertDictionaryToImportKeys schedule dict tags) = snd ` set (keys_map dict tags)"
    by (simp add: convertDictionaryToImportKeys_def)
  have wf: "wf_keys tags (keys_map dict tags)" by (rule wf_keys_map)
  have "map (ik_Name \<circ> snd) (schedule (keys_map dict tags)) = map fst (schedule (keys_map dict tags))"
    using wf set by (auto simp: wf_keys_def intro!: map_cong)
  moreover have "distinct (map fst (schedule (keys_map dict tags)))"
    using wf assms by (metis mset_eq_imp_distinct_iff mset_map wf_keys_def)
  ultimately show "distinct (map ik_Name (convertDictionaryToImportKeys schedule dict tags))"
    by (metis convertDictionaryToImportKeys_def map_map)
qed

subsection \<open>Tags\<close>

lemma tag_flags:
  "fold (\<lambda>tag (a, b). (a \<or> tag = x, b \<or> tag = y)) tags (p, q) = (p \<or> x \<in> set tags, q \<or> y \<in> set tags)"
  by (induction tags arbitrary: p q) auto

lemma getTags_eq:
  "getTags cfg =
     (let tags = cf_GetStringSlice cfg ''tolgee.tags''; appTag = cf_GetString cfg ''app.name''
      in tags @ (if appTag \<in> set tags then [] else [appTag]) @ (if ''backend'' \<in> set tags then [] else [''backend'']))"
  by (simp add: getTags_def tag_flags Let_def)

subsection \<open>Loading\<close>

lemma put_raw_None:
  "put_raw tag raw b = Ok (b', None) \<Longrightarrow> \<exists>ms. list_all2 parsed_as raw ms \<and> b' = put_templates tag ms b"
proof (induction tag raw b rule: put_raw.induct)
  case (1 tag b)
  then show ?case by (intro exI [of _ "[]"]) simp
next
  case (2 tag key str msgs b)
  then obtain m where m: "parseICU key str = Ok m" "put_raw tag msgs (put_template tag m b) = Ok (b', None)"
    by (auto split: go.splits)
  from 2(1) [OF m] obtain ms where "list_all2 parsed_as msgs ms" "b' = put_templates tag ms (put_template tag m b)"
    by blast
  moreover have "parsed_as (key, str) m" using m(1) by (simp add: parsed_as_def)
  ultimately show ?case by (intro exI [of _ "m # ms"]) simp
qed

lemma put_templates_frame:
  "b_leftDelim (put_templates tag ms b) = b_leftDelim b \<and> b_rightDelim (put_templates tag ms b) = b_rightDelim b"
  by (induction tag ms b rule: put_templates.induct) (simp_all add: frame_simps)

text \<open>What one language leaves in the catalogue.\<close>

lemma AddRawMessages_None:
  fixes b :: "('tag, 'f, 'p) loc_bundle"
  assumes "AddRawMessages L tag raw b = Some (Ok (b', None))" and "distinct (map fst raw)"
  shows "(\<forall>(key, text) \<in> set raw. \<exists>m. parseICU key text = Ok m \<and>
      getMessage tag key b' = newMessageTemplate m (b_leftDelim b) (b_rightDelim b)) \<and>
    (\<forall>tag' key. tag' \<noteq> tag \<longrightarrow> getMessage tag' key b' = getMessage tag' key b) \<and>
    b_leftDelim b' = b_leftDelim b \<and> b_rightDelim b' = b_rightDelim b"
proof -
  have run: "put_raw tag raw (ensure_tag tag b) = Ok (b', None)"
    using assms(1) by (auto simp: AddRawMessages_def split: option.splits)
  obtain ms where ms: "list_all2 parsed_as raw ms" and b': "b' = put_templates tag ms (ensure_tag tag b)"
    using put_raw_None [OF run] by blast
  have ids: "map m_ID ms = map fst raw" by (rule parsed_as_ID [OF ms])
  have "\<exists>m. parseICU key str = Ok m \<and> getMessage tag key b' = newMessageTemplate m (b_leftDelim b) (b_rightDelim b)"
    if mem: "(key, str) \<in> set raw" for key str
  proof -
    obtain i where i: "i < length raw" "raw ! i = (key, str)" using mem by (auto simp: in_set_conv_nth)
    with ms have p: "parsed_as (key, str) (ms ! i)" and l: "i < length ms"
      by (auto simp: list_all2_conv_all_nth)
    have "m_ID (ms ! i) = key" using p parseICU_ID by (auto simp: parsed_as_def)
    moreover have "getMessage tag (m_ID (ms ! i)) b' = newMessageTemplate (ms ! i) (b_leftDelim b) (b_rightDelim b)"
      unfolding b' using assms(2) l ids
      by (subst getMessage_put_templates) (auto simp: frame_simps)
    ultimately show ?thesis using p by (auto simp: parsed_as_def)
  qed
  then show ?thesis
    unfolding b' using put_templates_frame [of tag ms "ensure_tag tag b"]
    by (auto simp: frame_simps getMessage_put_templates_other)
qed

lemma load_langs_None:
  fixes b :: "('tag, 'f, 'p) loc_bundle"
  assumes "load_langs L parse d b = Some (Ok (b', None))" and "wf_dictionary d" and "inj_on parse (fst ` set d)"
  shows "(\<forall>(lang, raw) \<in> set d. \<exists>tag. parse lang = Inr tag \<and> (\<forall>(key, text) \<in> set raw. \<exists>m. parseICU key text = Ok m \<and>
      getMessage tag key b' = newMessageTemplate m (b_leftDelim b) (b_rightDelim b))) \<and>
    (\<forall>tag key. Inr tag \<notin> parse ` fst ` set d \<longrightarrow> getMessage tag key b' = getMessage tag key b) \<and>
    b_leftDelim b' = b_leftDelim b \<and> b_rightDelim b' = b_rightDelim b"
  using assms
proof (induction L parse d b rule: load_langs.induct)
  case (1 L parse b)
  then show ?case by simp
next
  case (2 L parse lang raw rest b)
  obtain tag b1 where tag: "parse lang = Inr tag" and b1: "AddRawMessages L tag raw b = Some (Ok (b1, None))"
      and rest: "load_langs L parse rest b1 = Some (Ok (b', None))"
    using 2(2) by (auto split: sum.splits option.splits go.splits prod.splits)
  have wf: "wf_dictionary rest" "lang \<notin> fst ` set rest" "distinct (map fst raw)"
    using 2(3) by (simp_all add: wf_dictionary_Cons)
  have inj: "inj_on parse (fst ` set rest)" using 2(4) by (auto intro: inj_on_subset)
  have other: "Inr tag \<notin> parse ` fst ` set rest"
    using 2(4) wf(2) tag by (auto simp: inj_on_def image_iff)
  note IH = 2(1) [OF tag b1 refl refl refl rest wf(1) inj]
  note A = AddRawMessages_None [OF b1 wf(3)]
  show ?case using IH A other tag by fastforce
qed

text \<open>The requests of the bootstrap, one call after the other.\<close>

lemma manager_Load_world:
  "manager_Load L parse loader t w = Some (Ok (t', w', err)) \<Longrightarrow> w' = fst (loader (tm_langs t) w)"
  by (auto simp: manager_Load_def go_bind_Ok_iff split: prod.splits sum.splits option.splits)

lemma initTolgee_world:
  fixes t :: "('tag, 'f, 'p) manager"
  assumes "initTolgee L parse T env from t w = Some (Ok (t', w'))"
  shows "\<exists>(s :: ('tag, 'f, 'p) manager) ls. w' = fst (tolgee_GetTranslations T (tolgee_NewConfig env) ls
    (fst (manager_Upload from (UploadTranslations T (tolgee_NewConfig env)) s
      (fst (getAvailableLangs T (tolgee_NewConfig env) w)))))"
proof -
  let ?cfg = "tolgee_NewConfig env"
  obtain w1 langs where l: "getAvailableLangs T ?cfg w = (w1, langs)" by (metis surj_pair)
  define s where "s = (if 0 < length langs then SetAvaialableLangs langs t else t)"
  obtain w2 err where u: "manager_Upload from (UploadTranslations T ?cfg) s w1 = (w2, err)" by (metis surj_pair)
  obtain t2 w3 err3 where load: "manager_Load L parse (tolgee_GetTranslations T ?cfg) s w2 = Some (Ok (t2, w3, err3))"
      and "w' = w3"
    using assms unfolding initTolgee_def Let_def l case_prod_conv s_def [symmetric] u
    by (auto simp: go_bind_Ok_iff split: option.splits)
  with manager_Load_world [OF load] show ?thesis unfolding l by (metis u fst_conv)
qed

subsection \<open>Refreshing (Watch)\<close>

text \<open>
  The goroutine of \<^verbatim>\<open>Watch\<close>, as the sequence of the branches that its \<^verbatim>\<open>select\<close> takes; when the ticker and the
  context are both ready it may take either.  A load that fails is logged, and the loop goes on.
  \<^verbatim>\<open>time.NewTicker\<close> panics for an interval that is not positive.
\<close>

datatype refresh_event = Refresh | Cancelled

fun watch_loop ::
    "'tag lang_ops \<Rightarrow> (string \<Rightarrow> gerr + 'tag) \<Rightarrow> 'w loader \<Rightarrow> refresh_event list \<Rightarrow> ('tag, 'f, 'p) manager \<Rightarrow> 'w \<Rightarrow>
     (('tag, 'f, 'p) manager \<times> 'w) go option" where
  "watch_loop L parse loader [] t w = Some (Ok (t, w))"
| "watch_loop L parse loader (Cancelled # es) t w = Some (Ok (t, w))"
| "watch_loop L parse loader (Refresh # es) t w =
     (case manager_Load L parse loader t w of
        None \<Rightarrow> None
      | Some (Ok (t, w, err)) \<Rightarrow> watch_loop L parse loader es t w
      | Some (Err e) \<Rightarrow> Some (Err e)
      | Some (Panic p) \<Rightarrow> Some (Panic p))"

definition translations_Watch ::
    "'tag lang_ops \<Rightarrow> (string \<Rightarrow> gerr + 'tag) \<Rightarrow> 'w loader \<Rightarrow> int \<Rightarrow> refresh_event list \<Rightarrow> ('tag, 'f, 'p) manager \<Rightarrow> 'w \<Rightarrow>
     (('tag, 'f, 'p) manager \<times> 'w) go option" where
  "translations_Watch L parse loader refresh es t w =
     (if refresh \<le> 0 then Some (Panic ''non-positive interval for NewTicker'') else watch_loop L parse loader es t w)"

lemma wf_load_langs:
  "load_langs L parse d b = Some (Ok (b', e)) \<Longrightarrow> wf_bundle b \<Longrightarrow> wf_bundle b'"
proof (induction d arbitrary: b)
  case (Cons x rest)
  obtain lang messages where x: "x = (lang, messages)" by (metis surj_pair)
  consider "b' = b" | tag err where "AddRawMessages L tag messages b = Some (Ok (b', err))"
    | tag b1 where "AddRawMessages L tag messages b = Some (Ok (b1, None))" "load_langs L parse rest b1 = Some (Ok (b', e))"
    using Cons.prems(1) unfolding x by (auto split: sum.splits option.splits go.splits prod.splits)
  then show ?case
    using Cons.prems(2) by cases (auto intro: Cons.IH wf_AddRawMessages)
qed simp

lemma manager_Load_frame:
  assumes "manager_Load L parse loader t w = Some (Ok (t', w', e))"
  shows "tm_langs t' = tm_langs t \<and> (wf_bundle (tm_bundler t) \<longrightarrow> wf_bundle (tm_bundler t'))"
  using assms
  by (auto simp: manager_Load_def go_bind_Ok_iff split: prod.splits sum.splits option.splits intro: wf_load_langs)

lemma manager_Load_failed:
  assumes "\<forall>w. \<exists>e. snd (loader (tm_langs t) w) = Inl e"
  shows "\<exists>e. manager_Load L parse loader t w = Some (Ok (t, fst (loader (tm_langs t) w), Some (LocErr e)))"
proof -
  from assms obtain w' e where "loader (tm_langs t) w = (w', Inl e)" by (metis prod.collapse)
  then show ?thesis by (simp add: manager_Load_def)
qed

text \<open>A refresh never spoils the catalogue: it stays well-formed, and a source that fails leaves it as it was.\<close>

lemma watch_loop_frame:
  "watch_loop L parse loader es t w = Some (Ok (t', w')) \<Longrightarrow>
     tm_langs t' = tm_langs t \<and> (wf_bundle (tm_bundler t) \<longrightarrow> wf_bundle (tm_bundler t'))"
proof (induction L parse loader es t w rule: watch_loop.induct)
  case (3 L parse loader es t w)
  from "3.prems" obtain t1 w1 e where l: "manager_Load L parse loader t w = Some (Ok (t1, w1, e))"
    and r: "watch_loop L parse loader es t1 w1 = Some (Ok (t', w'))"
    by (auto split: option.splits go.splits)
  from "3.IH" [OF l refl refl refl r] manager_Load_frame [OF l] show ?case by auto
qed auto

lemma watch_loop_failing:
  assumes "\<forall>w. \<exists>e. snd (loader (tm_langs t) w) = Inl e"
  shows "\<exists>w'. watch_loop L parse loader es t w = Some (Ok (t, w'))"
proof (induction es arbitrary: w)
  case (Cons x es)
  from manager_Load_failed [of loader t L parse w, OF assms] show ?case
    using Cons.IH by (cases x) auto
qed simp

lemma watch_loop_append:
  assumes "Cancelled \<notin> set es"
  shows "watch_loop L parse loader (es @ es') t w =
    (case watch_loop L parse loader es t w of
       Some (Ok (t, w)) \<Rightarrow> watch_loop L parse loader es' t w | r \<Rightarrow> r)"
  using assms
  by (induction L parse loader es t w rule: watch_loop.induct) (auto split: option.splits go.splits)

lemma watch_loop_cancelled: "watch_loop L parse loader (Cancelled # es) t w = watch_loop L parse loader [] t w"
  by simp

text \<open>The interval is not checked: a negative one crashes the process from the goroutine.\<close>

lemma negative_interval_panics:
  assumes "cf_GetDuration env ''localize.refresh_duration'' < 0"
  shows "translations_Watch L parse loader (translations_interval env) es t w =
    Some (Panic ''non-positive interval for NewTicker'')"
  using assms by (simp add: translations_Watch_def translations_interval_def Let_def)

lemma default_interval_runs:
  assumes "cf_GetDuration env ''localize.refresh_duration'' = 0"
  shows "translations_Watch L parse loader (translations_interval env) es t w = watch_loop L parse loader es t w"
  using assms by (simp add: translations_Watch_def translations_interval_def)

end
