(* ===== verification/Components.thy ===== *)
theory Components
  imports Interfaces
begin

section \<open>The component registry (application/components.go, options.go)\<close>

text \<open>
  A component has a name and two functions, run once each, in the order of the registry: all
  \<^verbatim>\<open>initFn\<close> while the application is created, all \<^verbatim>\<open>runFn\<close> when it is run.  They are state
  transformers on an application state \<open>'a\<close> that may fail or panic.
\<close>

type_synonym 'a component_func = "'a \<Rightarrow> 'a \<times> unit go"

record 'a component =
  cm_name :: string
  cm_init :: "'a component_func"
  cm_run :: "'a component_func"

record 'a components =
  cs_order :: "string list"
  cs_list :: "string \<rightharpoonup> 'a component"

definition Noop :: "'a component_func" where
  "Noop a = (a, Ok ())"

definition newComponents :: "'a components" where
  "newComponents = \<lparr>cs_order = [], cs_list = Map.empty\<rparr>"

definition components_has :: "string \<Rightarrow> 'a components \<Rightarrow> bool" where
  "components_has name e = (cs_list e name \<noteq> None)"

definition components_add :: "'a component \<Rightarrow> 'a components \<Rightarrow> 'a components \<times> bool" where
  "components_add ent e =
     (if components_has (cm_name ent) e then (e, False)
      else (e\<lparr>cs_order := cs_order e @ [cm_name ent], cs_list := (cs_list e)(cm_name ent \<mapsto> ent)\<rparr>, True))"

definition components_addFirst :: "'a component \<Rightarrow> 'a components \<Rightarrow> 'a components \<times> bool" where
  "components_addFirst ent e =
     (if components_has (cm_name ent) e then (e, False)
      else (e\<lparr>cs_order := [cm_name ent] @ cs_order e, cs_list := (cs_list e)(cm_name ent \<mapsto> ent)\<rparr>, True))"

text \<open>A missing key reads as the zero component, whose functions are nil: calling one panics.\<close>

fun init_loop :: "'a components \<Rightarrow> string list \<Rightarrow> 'a \<Rightarrow> 'a \<times> unit go" where
  "init_loop e [] a = (a, Ok ())"
| "init_loop e (key # keys) a =
     (case cs_list e key of
        None \<Rightarrow> (a, Panic ''nil pointer dereference'')
      | Some item \<Rightarrow>
          (case cm_init item a of
             (a', Ok _) \<Rightarrow> init_loop e keys a'
           | (a', Err err) \<Rightarrow> (a', Err (Wrapped (''failed init '' @ cm_name item) err))
           | (a', Panic p) \<Rightarrow> (a', Panic p)))"

definition components_init :: "'a components \<Rightarrow> 'a \<Rightarrow> 'a \<times> unit go" where
  "components_init e a = init_loop e (cs_order e) a"

fun run_loop :: "'a components \<Rightarrow> string list \<Rightarrow> 'a \<Rightarrow> 'a \<times> unit go" where
  "run_loop e [] a = (a, Ok ())"
| "run_loop e (key # keys) a =
     (case cs_list e key of
        None \<Rightarrow> (a, Panic ''nil pointer dereference'')
      | Some item \<Rightarrow>
          (case cm_run item a of
             (a', Ok _) \<Rightarrow> run_loop e keys a'
           | (a', Err err) \<Rightarrow> (a', Err (Wrapped (''failed run '' @ cm_name item) err))
           | (a', Panic p) \<Rightarrow> (a', Panic p)))"

definition components_run :: "'a components \<Rightarrow> 'a \<Rightarrow> 'a \<times> unit go" where
  "components_run e a = run_loop e (cs_order e) a"

definition NewComponent :: "string \<Rightarrow> 'a component_func \<Rightarrow> 'a component_func \<Rightarrow> 'a component" where
  "NewComponent name i r = \<lparr>cm_name = name, cm_init = i, cm_run = r\<rparr>"

definition ErrComponentAlreadyExist :: gerr where
  "ErrComponentAlreadyExist = Sentinel ''component already exist''"

definition WithComponent ::
    "string \<Rightarrow> 'a component_func \<Rightarrow> 'a component_func \<Rightarrow> 'a components \<Rightarrow> 'a components \<times> gerror" where
  "WithComponent name i r e =
     (case components_add (NewComponent name i r) e of
        (e', True) \<Rightarrow> (e', None)
      | (e', False) \<Rightarrow> (e', Some (Wrapped name ErrComponentAlreadyExist)))"

subsection \<open>Well-formed registries\<close>

definition wf_components :: "'a components \<Rightarrow> bool" where
  "wf_components e \<longleftrightarrow> distinct (cs_order e) \<and> set (cs_order e) = dom (cs_list e) \<and>
     (\<forall>k c. cs_list e k = Some c \<longrightarrow> cm_name c = k)"

lemma wf_newComponents [wf_intros]: "wf_components newComponents"
  by (simp add: wf_components_def newComponents_def)

lemma wf_components_add [wf_intros]: "wf_components e \<Longrightarrow> wf_components (fst (components_add ent e))"
  by (auto simp: wf_components_def components_add_def components_has_def)

lemma wf_components_addFirst [wf_intros]:
  "wf_components e \<Longrightarrow> wf_components (fst (components_addFirst ent e))"
  by (auto simp: wf_components_def components_addFirst_def components_has_def)

text \<open>What a registry holds for a name, and the two ways to add to it, are registries of that kind.\<close>

definition functions_of :: "'a components \<Rightarrow> string \<Rightarrow> ('a component_func \<times> 'a component_func) option" where
  "functions_of e k = map_option (\<lambda>c. (cm_init c, cm_run c)) (cs_list e k)"

interpretation last_added: registry functions_of
  "\<lambda>k (i, r) e. fst (components_add (NewComponent k i r) e)"
  by unfold_locales
    (auto simp: functions_of_def components_add_def components_has_def NewComponent_def)

interpretation first_added: registry functions_of
  "\<lambda>k (i, r) e. fst (components_addFirst (NewComponent k i r) e)"
  by unfold_locales
    (auto simp: functions_of_def components_addFirst_def components_has_def NewComponent_def)

subsection \<open>Running the components in order\<close>

text \<open>The functions of a list, one after the other, up to the first failure.\<close>

fun run_seq :: "(string \<times> 'a component_func) list \<Rightarrow> string \<Rightarrow> 'a \<Rightarrow> 'a \<times> unit go" where
  "run_seq [] what a = (a, Ok ())"
| "run_seq ((n, f) # fs) what a =
     (case f a of
        (a', Ok _) \<Rightarrow> run_seq fs what a'
      | (a', Err err) \<Rightarrow> (a', Err (Wrapped (what @ n) err))
      | (a', Panic p) \<Rightarrow> (a', Panic p))"

definition ordered :: "('a component \<Rightarrow> 'a component_func) \<Rightarrow> 'a components \<Rightarrow> (string \<times> 'a component_func) list" where
  "ordered f e = map (\<lambda>k. (k, f (the (cs_list e k)))) (cs_order e)"

lemma init_loop_seq:
  assumes "wf_components e" and "set keys \<subseteq> dom (cs_list e)"
  shows "init_loop e keys a = run_seq (map (\<lambda>k. (k, cm_init (the (cs_list e k)))) keys) ''failed init '' a"
  using assms(2)
proof (induction keys arbitrary: a)
  case (Cons k ks)
  then obtain c where c: "cs_list e k = Some c" "cm_name c = k"
    using assms(1) by (auto simp: wf_components_def)
  with Cons show ?case by (auto split: prod.splits go.splits)
qed simp

lemma run_loop_seq:
  assumes "wf_components e" and "set keys \<subseteq> dom (cs_list e)"
  shows "run_loop e keys a = run_seq (map (\<lambda>k. (k, cm_run (the (cs_list e k)))) keys) ''failed run '' a"
  using assms(2)
proof (induction keys arbitrary: a)
  case (Cons k ks)
  then obtain c where c: "cs_list e k = Some c" "cm_name c = k"
    using assms(1) by (auto simp: wf_components_def)
  with Cons show ?case by (auto split: prod.splits go.splits)
qed simp

lemma components_init_seq:
  "wf_components e \<Longrightarrow> components_init e a = run_seq (ordered cm_init e) ''failed init '' a"
  by (simp add: components_init_def ordered_def init_loop_seq wf_components_def)

lemma components_run_seq:
  "wf_components e \<Longrightarrow> components_run e a = run_seq (ordered cm_run e) ''failed run '' a"
  by (simp add: components_run_def ordered_def run_loop_seq wf_components_def)

lemma run_seq_append:
  "run_seq (fs @ gs) what a =
     (case run_seq fs what a of (a', Ok _) \<Rightarrow> run_seq gs what a' | r \<Rightarrow> r)"
  by (induction fs what a rule: run_seq.induct) (auto split: prod.splits go.splits)

lemma run_seq_Ok_invariant:
  assumes "\<And>n f a a'. (n, f) \<in> set fs \<Longrightarrow> I a \<Longrightarrow> f a = (a', Ok ()) \<Longrightarrow> I a'"
    and "run_seq fs what a = (a', Ok ())" and "I a"
  shows "I a'"
  using assms
proof (induction fs what a rule: run_seq.induct)
  case (2 n f fs what a)
  obtain a1 r where f: "f a = (a1, r)" by force
  with "2.prems"(2) have r: "r = Ok ()" and rest: "run_seq fs what a1 = (a', Ok ())"
    by (auto split: go.splits)
  have I1: "I a1" using "2.prems"(1) [of n f a a1] "2.prems"(3) f r by simp
  show ?case
  proof (rule "2.IH" [OF f [symmetric] r _ rest I1])
    show "I b'" if "(m, g) \<in> set fs" "I b" "g b = (b', Ok ())" for m g b b'
      using "2.prems"(1) [of m g b b'] that by simp
  qed
qed simp

text \<open>An error names the component that failed, all before it having succeeded.\<close>

lemma run_seq_Err:
  "run_seq fs what a = (a', Err err) \<Longrightarrow>
     \<exists>pre n f post b e. fs = pre @ (n, f) # post \<and> run_seq pre what a = (b, Ok ()) \<and>
       f b = (a', Err e) \<and> err = Wrapped (what @ n) e"
proof (induction fs what a rule: run_seq.induct)
  case (2 n f fs what a)
  obtain a1 r where f: "f a = (a1, r)" by force
  show ?case
  proof (cases r)
    case (Ok u)
    with f "2.prems" have "run_seq fs what a1 = (a', Err err)" by simp
    from "2.IH" [OF f [symmetric] Ok this] obtain pre m g post b e where
      "fs = pre @ (m, g) # post" "run_seq pre what a1 = (b, Ok ())" "g b = (a', Err e)"
      "err = Wrapped (what @ m) e" by blast
    then show ?thesis using f Ok by (intro exI [of _ "(n, f) # pre"]) auto
  next
    case (Err e)
    with f "2.prems" have "run_seq [] what a = (a, Ok ())" "f a = (a', Err e)"
      "err = Wrapped (what @ n) e" by simp_all
    then show ?thesis by blast
  next
    case (Panic p)
    with f "2.prems" show ?thesis by simp
  qed
qed simp

end
