(* ===== verification/Infrastructure.thy ===== *)
theory Infrastructure
  imports Interfaces
begin

section \<open>Closers, health checks and the middleware chain (internal/pkg)\<close>

text \<open>
  The three small services every application owns: \<^verbatim>\<open>closers\<close> (a list that is closed in the
  reverse order of registration), \<^verbatim>\<open>health\<close> (checks that run concurrently, the first failure wins)
  and \<^verbatim>\<open>middleware\<close> (a chain whose first element is outermost).  A function that a caller registers
  is a state transformer on a world \<open>'w\<close>; where goroutines race, the order in which they finish is an
  argument of the definition.
\<close>

subsection \<open>closers.go\<close>

type_synonym 'w closer_func = "'w \<Rightarrow> 'w \<times> gerror"

definition closers_New :: "'w closer_func list" where
  "closers_New = []"

definition closers_Add :: "'w closer_func \<Rightarrow> 'w closer_func list \<Rightarrow> 'w closer_func list" where
  "closers_Add item c = item # c"

fun closeAll :: "'w closer_func list \<Rightarrow> gerror \<Rightarrow> 'w \<Rightarrow> 'w \<times> gerror" where
  "closeAll [] err w = (w, err)"
| "closeAll (f # fs) err w =
     (case f w of (w', closeErr) \<Rightarrow> closeAll fs (errors_Join [err, closeErr]) w')"

text \<open>
  The caller waits for the result or for its context, whichever comes first; the closing goroutine runs on
  after the caller has returned.  \<open>ctx_done\<close> is \<open>Some (e, k)\<close> when the context won with its error \<open>e\<close> after the
  goroutine had run \<open>k\<close> of the closers.  The result holds the world in which \<^verbatim>\<open>Close\<close> returns, its error and
  the closers that the goroutine has still to run.
\<close>

definition closers_Close ::
    "(gerr \<times> nat) option \<Rightarrow> 'w closer_func list \<Rightarrow> 'w \<Rightarrow> 'w \<times> gerror \<times> 'w closer_func list" where
  "closers_Close ctx_done c w =
     (case ctx_done of
        None \<Rightarrow> (case closeAll c None w of (w', err) \<Rightarrow> (w', err, []))
      | Some (e, k) \<Rightarrow> (case closeAll (take k c) None w of (w', _) \<Rightarrow> (w', Some e, drop k c)))"

text \<open>The world after some closers, and the error that each of them returns in the world it finds.\<close>

definition run_closers :: "'w closer_func list \<Rightarrow> 'w \<Rightarrow> 'w" where
  "run_closers fs w = foldl (\<lambda>w f. fst (f w)) w fs"

fun close_errors :: "'w closer_func list \<Rightarrow> 'w \<Rightarrow> gerror list" where
  "close_errors [] w = []"
| "close_errors (f # fs) w = snd (f w) # close_errors fs (fst (f w))"

lemma closeAll_run:
  "closeAll fs err w = (run_closers fs w, foldl (\<lambda>a e. errors_Join [a, e]) err (close_errors fs w))"
  by (induction fs arbitrary: err w) (auto simp: run_closers_def split: prod.splits)

lemma run_closers_append: "run_closers (fs @ gs) w = run_closers gs (run_closers fs w)"
  by (simp add: run_closers_def)

lemma length_close_errors: "length (close_errors fs w) = length fs"
  by (induction fs arbitrary: w) simp_all

text \<open>Closers that log their name and fail with a fixed error.\<close>

definition logging_closer :: "string \<Rightarrow> gerror \<Rightarrow> string list closer_func" where
  "logging_closer name e w = (w @ [name], e)"

lemma fold_Join_None:
  "foldl (\<lambda>a e. errors_Join [a, e]) err es = None \<longleftrightarrow> err = None \<and> (\<forall>e \<in> set es. e = None)"
  by (induction es arbitrary: err) auto

lemma fold_Add:
  "fold closers_Add fs c = rev fs @ c"
  by (induction fs arbitrary: c) (simp_all add: closers_Add_def)

text \<open>\<^verbatim>\<open>errors.Join\<close> keeps every failure: each sentinel that one closer returned is found.\<close>

lemma fold_Join_Is:
  assumes "t = Sentinel n"
  shows "errors_Is (foldl (\<lambda>a e. errors_Join [a, e]) err es) t \<longleftrightarrow>
     errors_Is err t \<or> (\<exists>e \<in> set es. errors_Is e t)"
proof (induction es arbitrary: err)
  case Nil
  show ?case by simp
next
  case (Cons e es)
  show ?case by (simp add: Cons errors_Is_Join_pair [OF assms])
qed

subsection \<open>health.go\<close>

text \<open>A check gets a context that may have been cancelled, by the caller or by a failed check.\<close>

record check =
  ck_Name :: string
  ck_Func :: "bool \<Rightarrow> gerror"

definition health_New :: "check list" where
  "health_New = []"

definition health_Add :: "string \<Rightarrow> (bool \<Rightarrow> gerror) \<Rightarrow> check list \<Rightarrow> check list" where
  "health_Add name fn c = c @ [\<lparr>ck_Name = name, ck_Func = fn\<rparr>]"

definition CheckError :: "string \<Rightarrow> gerr \<Rightarrow> gerr" where
  "CheckError name err = Wrapped name err"

text \<open>
  \<^verbatim>\<open>errgroup\<close>: the goroutines finish in some order; the first error is kept and cancels the context
  of those still running.
\<close>

fun errgroup_run :: "bool \<Rightarrow> gerror \<Rightarrow> check list \<Rightarrow> gerror" where
  "errgroup_run cancelled first [] = first"
| "errgroup_run cancelled first (c # cs) =
     (let err = map_option (CheckError (ck_Name c)) (ck_Func c cancelled) in
      case first of
        Some e \<Rightarrow> errgroup_run True (Some e) cs
      | None \<Rightarrow> errgroup_run (cancelled \<or> err \<noteq> None) err cs)"

definition health_Check :: "bool \<Rightarrow> (check list \<Rightarrow> check list) \<Rightarrow> check list \<Rightarrow> gerror" where
  "health_Check cancelled schedule checks =
     (if checks = [] then None else errgroup_run cancelled None (schedule checks))"

lemma errgroup_Some: "errgroup_run cancelled (Some e) cs = Some e"
  by (induction cs arbitrary: cancelled) (auto simp: Let_def)

lemma errgroup_None_iff:
  "errgroup_run cancelled None cs = None \<longleftrightarrow> (\<forall>c \<in> set cs. ck_Func c cancelled = None)"
proof (induction cs)
  case Nil
  show ?case by simp
next
  case (Cons c cs)
  then show ?case by (cases "ck_Func c cancelled") (simp_all add: errgroup_Some)
qed

lemma errgroup_Some_from:
  "errgroup_run cancelled None cs = Some e \<Longrightarrow>
     \<exists>c \<in> set cs. \<exists>err. ck_Func c cancelled = Some err \<and> e = CheckError (ck_Name c) err"
proof (induction cs)
  case (Cons c cs)
  then show ?case by (cases "ck_Func c cancelled") (auto simp: errgroup_Some)
qed simp

lemma health_Check_None_iff:
  assumes "mset (schedule checks) = mset checks"
  shows "health_Check cancelled schedule checks = None \<longleftrightarrow>
     (\<forall>c \<in> set checks. ck_Func c cancelled = None)"
proof -
  have "set (schedule checks) = set checks" using assms by (metis set_mset_mset)
  then show ?thesis by (auto simp: health_Check_def errgroup_None_iff)
qed

subsection \<open>middleware.go\<close>

type_synonym 'h middleware = "'h \<Rightarrow> 'h"

definition middlewares_New :: "'h middleware list" where
  "middlewares_New = []"

definition middlewares_Add :: "'h middleware \<Rightarrow> 'h middleware list \<Rightarrow> 'h middleware list" where
  "middlewares_Add m ms = ms @ [m]"

text \<open>The loop of \<^verbatim>\<open>Chain\<close> from the last index down to 0; \<open>n\<close> elements are left.\<close>

fun chain_loop :: "'h middleware list \<Rightarrow> nat \<Rightarrow> 'h \<Rightarrow> 'h" where
  "chain_loop ms 0 final = final"
| "chain_loop ms (Suc i) final = chain_loop ms i ((ms ! i) final)"

definition Chain :: "'h middleware list \<Rightarrow> 'h middleware" where
  "Chain ms final = chain_loop ms (length ms) final"

lemma chain_loop_append: "n \<le> length ms \<Longrightarrow> chain_loop (ms @ ms') n h = chain_loop ms n h"
  by (induction n arbitrary: h) (simp_all add: nth_append)

interpretation http_chain: handler_chain Chain "\<lambda>m h. m h"
  by unfold_locales (simp_all add: Chain_def chain_loop_append nth_append)

end
