(* ===== verification/Lifecycle.thy ===== *)
theory Lifecycle
  imports Infrastructure
begin

section \<open>The life of an application (application/application.go, middlewares.go)\<close>

text \<open>
  \<^verbatim>\<open>Run\<close>, \<^verbatim>\<open>finish\<close>, the goroutine that \<^verbatim>\<open>Closer.Close\<close> starts and the goroutines that call \<^verbatim>\<open>stop\<close> run
  concurrently and meet at the channels \<^verbatim>\<open>shutdown\<close> (capacity 1) and \<^verbatim>\<open>started\<close>, \<^verbatim>\<open>closing\<close>, \<^verbatim>\<open>closed\<close>, which are
  only ever closed, and at the mutex of the closer.  The state has the channels, the place where each goroutine
  stands, and the numbers of closers registered, to be run and run; a step is one operation of one goroutine.
  \<^verbatim>\<open>Close\<close> has a timeout: \<^verbatim>\<open>finish\<close> may go on before the closers have run.  The lemmas show the order of the
  three closings by rule induction, that no channel is closed twice, that a signal leads \<^verbatim>\<open>Run\<close> to its end,
  and what the readiness probe may answer when.
\<close>

datatype run_pc = RunNotCalled | RunComponents | RunFailed | RunWaiting | RunReturned
datatype finish_pc = FinishWaiting | FinishClosing | FinishClosers | FinishReturned | FinishDone
datatype closer_pc = CloserIdle | CloserSpawned | CloserWalking | CloserSent

record lifecycle =
  lc_started :: bool
  lc_closing :: bool
  lc_closed :: bool
  lc_shutdown :: bool          \<comment> \<open>a signal is in the buffer of \<^verbatim>\<open>shutdown\<close>\<close>
  lc_run :: run_pc
  lc_finish :: finish_pc
  lc_stopping :: nat           \<comment> \<open>goroutines blocked in \<^verbatim>\<open>stop\<close>\<close>
  lc_closer :: closer_pc       \<comment> \<open>the goroutine \<^verbatim>\<open>closeAll\<close>\<close>
  lc_closers :: nat            \<comment> \<open>closers registered\<close>
  lc_to_close :: nat           \<comment> \<open>closers in the list when \<^verbatim>\<open>closeAll\<close> began to walk it\<close>
  lc_ran :: nat                \<comment> \<open>closers that have returned\<close>
  lc_timed_out :: bool         \<comment> \<open>\<^verbatim>\<open>Close\<close> returned because its context ended\<close>

text \<open>The state when \<^verbatim>\<open>new\<close> returns, \<open>n\<close> closers having been registered by the components' init.\<close>

definition created :: "nat \<Rightarrow> lifecycle" where
  "created n =
     \<lparr>lc_started = False, lc_closing = False, lc_closed = False, lc_shutdown = False,
      lc_run = RunNotCalled, lc_finish = FinishWaiting, lc_stopping = 0, lc_closer = CloserIdle,
      lc_closers = n, lc_to_close = 0, lc_ran = 0, lc_timed_out = False\<rparr>"

text \<open>
  \<^verbatim>\<open>Close\<close> holds the closer's mutex from \<open>finish_close\<close> until it returns, so no closer can be added meanwhile.
  After a timeout the goroutine walks on without the mutex; what is added then is put in front of the list and
  is seen only if the walk has not begun.  Its result goes to a buffered channel, so sending never blocks.
\<close>

inductive step :: "lifecycle \<Rightarrow> lifecycle \<Rightarrow> bool" where
  \<comment> \<open>\<^verbatim>\<open>signal.Notify\<close> does not block: a signal is dropped when the buffer is full\<close>
  notify: "step s (s\<lparr>lc_shutdown := True\<rparr>)"
  \<comment> \<open>\<^verbatim>\<open>stop\<close> sends, or blocks until the buffer is empty\<close>
| stop_send: "\<not> lc_shutdown s \<Longrightarrow> step s (s\<lparr>lc_shutdown := True\<rparr>)"
| stop_block: "lc_shutdown s \<Longrightarrow> step s (s\<lparr>lc_stopping := Suc (lc_stopping s)\<rparr>)"
| stop_wake: "\<not> lc_shutdown s \<Longrightarrow> lc_stopping s = Suc n \<Longrightarrow>
    step s (s\<lparr>lc_shutdown := True, lc_stopping := n\<rparr>)"
  \<comment> \<open>\<^verbatim>\<open>finish\<close>: closing \<^verbatim>\<open>closing\<close>, then \<^verbatim>\<open>Closer.Close\<close> with a timeout, then \<^verbatim>\<open>closed\<close>\<close>
| finish_receive: "lc_finish s = FinishWaiting \<Longrightarrow> lc_shutdown s \<Longrightarrow>
    step s (s\<lparr>lc_shutdown := False, lc_closing := True, lc_finish := FinishClosing\<rparr>)"
| finish_close: "lc_finish s = FinishClosing \<Longrightarrow>
    step s (s\<lparr>lc_finish := FinishClosers, lc_closer := CloserSpawned\<rparr>)"
| finish_result: "lc_finish s = FinishClosers \<Longrightarrow> lc_closer s = CloserSent \<Longrightarrow>
    step s (s\<lparr>lc_finish := FinishReturned\<rparr>)"
| finish_timeout: "lc_finish s = FinishClosers \<Longrightarrow>
    step s (s\<lparr>lc_finish := FinishReturned, lc_timed_out := True\<rparr>)"
| finish_done: "lc_finish s = FinishReturned \<Longrightarrow>
    step s (s\<lparr>lc_closed := True, lc_finish := FinishDone\<rparr>)"
  \<comment> \<open>the goroutine \<^verbatim>\<open>closeAll\<close>\<close>
| closer_begin: "lc_closer s = CloserSpawned \<Longrightarrow>
    step s (s\<lparr>lc_closer := CloserWalking, lc_to_close := lc_closers s\<rparr>)"
| closer_next: "lc_closer s = CloserWalking \<Longrightarrow> lc_ran s < lc_to_close s \<Longrightarrow>
    step s (s\<lparr>lc_ran := Suc (lc_ran s)\<rparr>)"
| closer_send: "lc_closer s = CloserWalking \<Longrightarrow> lc_ran s = lc_to_close s \<Longrightarrow>
    step s (s\<lparr>lc_closer := CloserSent\<rparr>)"
  \<comment> \<open>\<^verbatim>\<open>Run\<close>\<close>
| run_call: "lc_run s = RunNotCalled \<Longrightarrow> step s (s\<lparr>lc_run := RunComponents\<rparr>)"
| run_closer: "lc_run s = RunComponents \<Longrightarrow> lc_finish s \<noteq> FinishClosers \<Longrightarrow>
    step s (s\<lparr>lc_closers := Suc (lc_closers s)\<rparr>)"
| run_fail: "lc_run s = RunComponents \<Longrightarrow> step s (s\<lparr>lc_run := RunFailed\<rparr>)"
| run_started: "lc_run s = RunComponents \<Longrightarrow>
    step s (s\<lparr>lc_started := True, lc_run := RunWaiting\<rparr>)"
| run_return: "lc_run s = RunWaiting \<Longrightarrow> lc_closed s \<Longrightarrow> step s (s\<lparr>lc_run := RunReturned\<rparr>)"

inductive reachable :: "nat \<Rightarrow> lifecycle \<Rightarrow> bool" for n where
  reachable_created: "reachable n (created n)"
| reachable_step: "reachable n s \<Longrightarrow> step s t \<Longrightarrow> reachable n t"

inductive_cases step_cases: "step s t"

lemma reachable_steps: "step\<^sup>*\<^sup>* s t \<Longrightarrow> reachable n s \<Longrightarrow> reachable n t"
  by (induction rule: rtranclp_induct) (blast intro: reachable_step)+

subsection \<open>Invariants\<close>

text \<open>What \<^verbatim>\<open>Close\<close> and its goroutine know of each other.\<close>

definition closer_inv :: "nat \<Rightarrow> lifecycle \<Rightarrow> bool" where
  "closer_inv n s \<longleftrightarrow>
     (lc_closer s = CloserIdle \<longleftrightarrow> lc_finish s \<in> {FinishWaiting, FinishClosing}) \<and>
     (lc_closer s \<in> {CloserIdle, CloserSpawned} \<longrightarrow> lc_ran s = 0 \<and> lc_to_close s = 0) \<and>
     (lc_closer s \<in> {CloserWalking, CloserSent} \<longrightarrow> n \<le> lc_to_close s) \<and>
     (lc_closer s = CloserSent \<longrightarrow> lc_ran s = lc_to_close s) \<and>
     (lc_finish s \<in> {FinishReturned, FinishDone} \<and> \<not> lc_timed_out s \<longrightarrow> lc_closer s = CloserSent) \<and>
     (lc_timed_out s \<longrightarrow> lc_finish s \<in> {FinishReturned, FinishDone}) \<and>
     lc_ran s \<le> lc_to_close s \<and> lc_to_close s \<le> lc_closers s \<and> n \<le> lc_closers s"

definition channel_inv :: "lifecycle \<Rightarrow> bool" where
  "channel_inv s \<longleftrightarrow>
     (lc_closing s \<longleftrightarrow> lc_finish s \<noteq> FinishWaiting) \<and>
     (lc_closed s \<longleftrightarrow> lc_finish s = FinishDone) \<and>
     (lc_started s \<longleftrightarrow> lc_run s \<in> {RunWaiting, RunReturned}) \<and>
     (lc_run s = RunReturned \<longrightarrow> lc_closed s)"

definition lifecycle_inv :: "nat \<Rightarrow> lifecycle \<Rightarrow> bool" where
  "lifecycle_inv n s \<longleftrightarrow> channel_inv s \<and> closer_inv n s"

lemma lifecycle_inv_created: "lifecycle_inv n (created n)"
  by (simp add: lifecycle_inv_def closer_inv_def channel_inv_def created_def)

lemma closer_inv_step: "step s t \<Longrightarrow> closer_inv n s \<Longrightarrow> closer_inv n t"
  by (induction rule: step.induct) (auto simp: closer_inv_def)

lemma channel_inv_step: "step s t \<Longrightarrow> channel_inv s \<Longrightarrow> channel_inv t"
  by (induction rule: step.induct) (auto simp: channel_inv_def)

lemma lifecycle_inv_step: "step s t \<Longrightarrow> lifecycle_inv n s \<Longrightarrow> lifecycle_inv n t"
  by (simp add: lifecycle_inv_def closer_inv_step channel_inv_step)

lemma lifecycle_inv_reachable: "reachable n s \<Longrightarrow> lifecycle_inv n s"
  by (induction rule: reachable.induct)
    (auto intro: lifecycle_inv_created lifecycle_inv_step)

lemmas lifecycle_inv_defs = lifecycle_inv_def channel_inv_def closer_inv_def

lemma channel_inv_reachable: "reachable n s \<Longrightarrow> channel_inv s"
  using lifecycle_inv_reachable by (simp add: lifecycle_inv_def)

text \<open>When \<^verbatim>\<open>Close\<close> returned in time, every closer of its list has been run.\<close>

lemma closed_in_time:
  assumes "reachable n s" and "lc_closed s" and "\<not> lc_timed_out s"
  shows "lc_ran s = lc_to_close s \<and> n \<le> lc_ran s"
  using lifecycle_inv_reachable [OF assms(1)] assms(2,3) by (auto simp: lifecycle_inv_defs)

text \<open>
  The channels that a step closes.  Closing a closed channel would panic; the state before the step
  tells whether the channel was open.
\<close>

definition closes :: "(lifecycle \<Rightarrow> bool) \<Rightarrow> lifecycle \<Rightarrow> lifecycle \<Rightarrow> bool" where
  "closes ch s t = (\<not> ch s \<and> ch t)"

lemma step_monotone:
  "step s t \<Longrightarrow> (lc_started s \<longrightarrow> lc_started t) \<and> (lc_closing s \<longrightarrow> lc_closing t) \<and>
     (lc_closed s \<longrightarrow> lc_closed t)"
  by (induction rule: step.induct) auto

text \<open>Each place that closes a channel finds it open.\<close>

lemma close_started_once: "reachable n s \<Longrightarrow> lc_run s = RunComponents \<Longrightarrow> \<not> lc_started s"
  using channel_inv_reachable by (fastforce simp: channel_inv_def)

lemma close_closing_once: "reachable n s \<Longrightarrow> lc_finish s = FinishWaiting \<Longrightarrow> \<not> lc_closing s"
  using channel_inv_reachable by (fastforce simp: channel_inv_def)

lemma close_closed_once: "reachable n s \<Longrightarrow> lc_finish s = FinishReturned \<Longrightarrow> \<not> lc_closed s"
  using channel_inv_reachable by (fastforce simp: channel_inv_def)

subsection \<open>A signal leads to the end\<close>

text \<open>The walk of \<^verbatim>\<open>closeAll\<close>: it can run all its closers, one after the other.\<close>

lemma closers_walk:
  "lc_closer s = CloserWalking \<Longrightarrow> lc_ran s + k \<le> lc_to_close s \<Longrightarrow> step\<^sup>*\<^sup>* s (s\<lparr>lc_ran := lc_ran s + k\<rparr>)"
proof (induction k)
  case (Suc k)
  let ?t = "s\<lparr>lc_ran := lc_ran s + k\<rparr>"
  have "step ?t (?t\<lparr>lc_ran := Suc (lc_ran ?t)\<rparr>)" by (rule closer_next) (use Suc.prems in simp_all)
  then show ?case using Suc by (simp add: rtranclp.rtrancl_into_rtrancl)
qed simp

lemma closers_sent:
  assumes "lc_closer s = CloserSpawned" and "lc_ran s = 0"
  shows "step\<^sup>*\<^sup>* s (s\<lparr>lc_closer := CloserSent, lc_to_close := lc_closers s, lc_ran := lc_closers s\<rparr>)"
proof -
  let ?b = "s\<lparr>lc_closer := CloserWalking, lc_to_close := lc_closers s\<rparr>"
  have "step s ?b" by (rule closer_begin) (rule assms(1))
  moreover have "step\<^sup>*\<^sup>* ?b (?b\<lparr>lc_ran := lc_ran ?b + lc_closers s\<rparr>)"
    by (rule closers_walk) (simp_all add: assms(2))
  moreover have "step (?b\<lparr>lc_ran := lc_closers s\<rparr>) ((?b\<lparr>lc_ran := lc_closers s\<rparr>)\<lparr>lc_closer := CloserSent\<rparr>)"
    by (rule closer_send) simp_all
  ultimately have "step\<^sup>*\<^sup>* s ((?b\<lparr>lc_ran := lc_closers s\<rparr>)\<lparr>lc_closer := CloserSent\<rparr>)"
    using assms(2) by (simp add: converse_rtranclp_into_rtranclp rtranclp.rtrancl_into_rtrancl)
  moreover have "(?b\<lparr>lc_ran := lc_closers s\<rparr>)\<lparr>lc_closer := CloserSent\<rparr> =
      s\<lparr>lc_closer := CloserSent, lc_to_close := lc_closers s, lc_ran := lc_closers s\<rparr>" by simp
  ultimately show ?thesis by metis
qed

lemma signal_ends_run:
  assumes "reachable n s" and "lc_run s = RunWaiting" and "lc_shutdown s \<or> lc_closing s"
  shows "\<exists>t. step\<^sup>*\<^sup>* s t \<and> lc_run t = RunReturned \<and> lc_closed t"
proof -
  note inv = channel_inv_reachable [OF assms(1), unfolded channel_inv_def]
  let ?goal = "\<lambda>u. \<exists>t. step\<^sup>*\<^sup>* u t \<and> lc_run t = RunReturned \<and> lc_closed t"
  have next_step: "?goal u" if "step u v" and "?goal v" for u v
    using that by (meson converse_rtranclp_into_rtranclp)
  have ends: "?goal u" if "lc_run u = RunWaiting" and "lc_closed u" for u
    by (rule next_step [OF run_return [OF that]])
      (rule exI [of _ "u\<lparr>lc_run := RunReturned\<rparr>"], simp add: that)
  have returned: "?goal u" if "lc_run u = RunWaiting" and "lc_finish u = FinishReturned" for u
    by (rule next_step [OF finish_done [OF that(2)]], rule ends) (simp_all add: that)
  have closers: "?goal u" if "lc_run u = RunWaiting" and "lc_finish u = FinishClosers" for u
    by (rule next_step [OF finish_timeout [OF that(2)]], rule returned) (simp_all add: that)
  have closing: "?goal u" if "lc_run u = RunWaiting" and "lc_finish u = FinishClosing" for u
    by (rule next_step [OF finish_close [OF that(2)]], rule closers) (simp_all add: that)
  show ?thesis
  proof (cases "lc_finish s")
    case FinishWaiting
    then have "lc_shutdown s" using assms(3) inv by auto
    show ?thesis
      by (rule next_step [OF finish_receive [OF FinishWaiting \<open>lc_shutdown s\<close>]], rule closing)
        (simp_all add: assms(2))
  qed (use closing closers returned ends assms(2) inv in auto)
qed

text \<open>Nothing but a signal or a call of \<^verbatim>\<open>stop\<close> ends a run: without one, \<^verbatim>\<open>closing\<close> stays open.\<close>

lemma no_signal_step:
  "step s t \<Longrightarrow> \<not> lc_shutdown s \<Longrightarrow> lc_stopping s = 0 \<Longrightarrow> \<not> lc_shutdown t \<Longrightarrow>
     lc_closing t = lc_closing s \<and> lc_stopping t = 0"
  by (erule step_cases) auto

subsection \<open>Closers that are not run\<close>

text \<open>A shutdown of a running application up to the call of \<^verbatim>\<open>Close\<close>, \<open>m\<close> closers being registered.\<close>

definition closing_state :: "nat \<Rightarrow> run_pc \<Rightarrow> lifecycle" where
  "closing_state m r =
     (created m)\<lparr>lc_started := (r = RunWaiting), lc_closing := True, lc_run := r,
       lc_finish := FinishClosers, lc_closer := CloserSpawned\<rparr>"

lemma closing_state_reachable: "r \<in> {RunComponents, RunWaiting} \<Longrightarrow> reachable n (closing_state n r)"
proof -
  let ?s0 = "(created n)\<lparr>lc_run := RunComponents\<rparr>"
  let ?s1 = "?s0\<lparr>lc_shutdown := True\<rparr>"
  let ?s2 = "?s1\<lparr>lc_shutdown := False, lc_closing := True, lc_finish := FinishClosing\<rparr>"
  let ?s3 = "?s2\<lparr>lc_finish := FinishClosers, lc_closer := CloserSpawned\<rparr>"
  have "reachable n ?s0" by (rule reachable_step [OF reachable_created run_call]) (simp add: created_def)
  then have "reachable n ?s1" by (rule reachable_step [OF _ notify])
  then have "reachable n ?s2" by (rule reachable_step [OF _ finish_receive]) (simp_all add: created_def)
  then have c: "reachable n ?s3" by (rule reachable_step [OF _ finish_close]) simp
  have "reachable n (?s3\<lparr>lc_started := True, lc_run := RunWaiting\<rparr>)"
    by (rule reachable_step [OF c run_started]) simp
  moreover assume "r \<in> {RunComponents, RunWaiting}"
  ultimately show ?thesis using c by (auto simp: closing_state_def created_def)
qed

text \<open>
  When the timeout of \<^verbatim>\<open>Close\<close> ends before the first closer has run, \<^verbatim>\<open>closed\<close> is closed all the same, and
  \<^verbatim>\<open>Run\<close> returns nil with every closer still to be run.
\<close>

lemma timeout_before_closers:
  "\<exists>s. reachable n s \<and> lc_run s = RunReturned \<and> lc_closed s \<and> lc_closers s = n \<and> lc_ran s = 0"
proof -
  let ?s0 = "closing_state n RunWaiting"
  let ?s1 = "?s0\<lparr>lc_finish := FinishReturned, lc_timed_out := True\<rparr>"
  let ?s2 = "?s1\<lparr>lc_closed := True, lc_finish := FinishDone\<rparr>"
  let ?s3 = "?s2\<lparr>lc_run := RunReturned\<rparr>"
  have "reachable n ?s0" by (simp add: closing_state_reachable)
  then have "reachable n ?s1" by (rule reachable_step [OF _ finish_timeout]) (simp add: closing_state_def)
  then have "reachable n ?s2" by (rule reachable_step [OF _ finish_done]) simp
  then have "reachable n ?s3" by (rule reachable_step [OF _ run_return]) (simp_all add: closing_state_def)
  then show ?thesis by (intro exI [of _ ?s3]) (simp add: closing_state_def created_def)
qed

text \<open>
  A signal that comes while \<^verbatim>\<open>Run\<close> runs the components is handled at once: the closers registered so
  far are closed and \<^verbatim>\<open>closed\<close> is closed, while the components go on.  What they register later is
  never closed, and \<^verbatim>\<open>Run\<close> still returns nil.
\<close>

lemma early_signal:
  "\<exists>s. reachable n s \<and> lc_run s = RunReturned \<and> lc_ran s = n \<and> \<not> lc_timed_out s \<and> lc_closers s = Suc n"
proof -
  let ?s0 = "closing_state n RunComponents"
  let ?s1 = "?s0\<lparr>lc_closer := CloserSent, lc_to_close := lc_closers ?s0, lc_ran := lc_closers ?s0\<rparr>"
  let ?s2 = "?s1\<lparr>lc_finish := FinishReturned\<rparr>"
  let ?s3 = "?s2\<lparr>lc_closed := True, lc_finish := FinishDone\<rparr>"
  let ?s4 = "?s3\<lparr>lc_closers := Suc (lc_closers ?s3)\<rparr>"
  let ?s5 = "?s4\<lparr>lc_started := True, lc_run := RunWaiting\<rparr>"
  let ?s6 = "?s5\<lparr>lc_run := RunReturned\<rparr>"
  have "reachable n ?s0" by (simp add: closing_state_reachable)
  moreover have "step\<^sup>*\<^sup>* ?s0 ?s1" by (rule closers_sent) (simp_all add: closing_state_def created_def)
  ultimately have "reachable n ?s1" by (rule reachable_steps [rotated])
  then have "reachable n ?s2" by (rule reachable_step [OF _ finish_result]) (simp_all add: closing_state_def)
  then have "reachable n ?s3" by (rule reachable_step [OF _ finish_done]) simp
  then have "reachable n ?s4" by (rule reachable_step [OF _ run_closer]) (simp_all add: closing_state_def)
  then have "reachable n ?s5" by (rule reachable_step [OF _ run_started]) (simp add: closing_state_def)
  then have "reachable n ?s6" by (rule reachable_step [OF _ run_return]) simp_all
  then show ?thesis by (intro exI [of _ ?s6]) (simp add: closing_state_def created_def)
qed

subsection \<open>The readiness probe\<close>

record health_response =
  hr_Status :: string
  hr_Message :: string
  hr_Code :: nat

text \<open>
  The probe looks at the channels twice.  The first \<^verbatim>\<open>select\<close> does not wait: it answers when \<^verbatim>\<open>closing\<close> is closed.
  The second waits for \<^verbatim>\<open>started\<close> or for the timeout of its context and does not look at \<^verbatim>\<open>closing\<close> again; when
  both are there \<open>pick\<close> is its choice, when neither is it blocks (\<open>None\<close>).  \<open>healthy\<close> is the result of
  \<^verbatim>\<open>Health.Check\<close>.
\<close>

definition readiness_closing :: "lifecycle \<Rightarrow> health_response option" where
  "readiness_closing s =
     (if lc_closing s then
        Some \<lparr>hr_Status = ''not_ready'', hr_Message = ''Application is shutting down'', hr_Code = 503\<rparr>
      else None)"

definition readiness_started :: "lifecycle \<Rightarrow> bool \<Rightarrow> bool \<Rightarrow> gerror \<Rightarrow> health_response option" where
  "readiness_started s ctx_done pick healthy =
     (if lc_started s \<and> (\<not> ctx_done \<or> pick) then
        (case healthy of
           Some err \<Rightarrow>
             Some \<lparr>hr_Status = ''not_ready'', hr_Message = ''Application has problems'', hr_Code = 503\<rparr>
         | None \<Rightarrow>
             Some \<lparr>hr_Status = ''ready'', hr_Message = ''Application is ready to accept requests'',
                   hr_Code = 200\<rparr>)
      else if ctx_done then
        Some \<lparr>hr_Status = ''not_ready'', hr_Message = ''Application is still starting up'', hr_Code = 503\<rparr>
      else None)"

text \<open>The application is in \<open>s\<close> at the first \<^verbatim>\<open>select\<close> and in \<open>t\<close> when the second one goes on.\<close>

definition checkReadiness :: "lifecycle \<Rightarrow> lifecycle \<Rightarrow> bool \<Rightarrow> bool \<Rightarrow> gerror \<Rightarrow> health_response option" where
  "checkReadiness s t ctx_done pick healthy =
     (case readiness_closing s of
        Some response \<Rightarrow> Some response
      | None \<Rightarrow> readiness_started t ctx_done pick healthy)"

lemmas readiness_defs = checkReadiness_def readiness_closing_def readiness_started_def

lemma checkReadiness_200:
  assumes "reachable n s" and "reachable n t" and "checkReadiness s t ctx_done pick healthy = Some r"
    and "hr_Code r = 200"
  shows "lc_finish s = FinishWaiting \<and> lc_run t \<in> {RunWaiting, RunReturned} \<and> healthy = None"
  using assms(3,4) channel_inv_reachable [OF assms(1)] channel_inv_reachable [OF assms(2)]
  by (auto simp: readiness_defs channel_inv_def split: if_splits option.splits)

lemma checkReadiness_answers:
  "checkReadiness s t True pick healthy \<noteq> None"
  by (simp add: readiness_defs split: option.splits)

lemma checkReadiness_code:
  "checkReadiness s t ctx_done pick healthy = Some r \<Longrightarrow> hr_Code r = 200 \<or> hr_Code r = 503"
  by (auto simp: readiness_defs split: if_splits option.splits)

subsection \<open>What the outside sees\<close>

text \<open>
  The specification that the probes give to the orchestrator: an application is in one of four phases and only
  moves forward.  The step relation of the goroutines is a refinement of it: every step keeps the phase or is a
  step of it.  The answer of the readiness probe depends on the phase in which it begins, on what has happened
  by its second look, and on the health checks.
\<close>

datatype phase = Starting | Serving | Draining | Closed

inductive phase_step :: "phase \<Rightarrow> phase \<Rightarrow> bool" where
  serve: "phase_step Starting Serving"
| give_up: "phase_step Starting Draining"
| drain: "phase_step Serving Draining"
| close: "phase_step Draining Closed"

inductive_simps phase_step_simps [simp]:
  "phase_step Starting p" "phase_step Serving p" "phase_step Draining p" "phase_step Closed p"

definition phase_of :: "lifecycle \<Rightarrow> phase" where
  "phase_of s = (if lc_closed s then Closed else if lc_closing s then Draining
     else if lc_started s then Serving else Starting)"

text \<open>The code of a probe that is answered in the phase in which it began.\<close>

definition probe_code :: "phase \<Rightarrow> gerror \<Rightarrow> nat" where
  "probe_code p healthy = (if p = Serving \<and> healthy = None then 200 else 503)"

lemma step_phase:
  "step s t \<Longrightarrow> lifecycle_inv n s \<Longrightarrow> phase_of t = phase_of s \<or> phase_step (phase_of s) (phase_of t)"
  by (induction rule: step.induct) (simp_all add: lifecycle_inv_defs phase_of_def)

lemma step_refines_phase:
  assumes "reachable n s" and "step s t"
  shows "phase_of t = phase_of s \<or> phase_step (phase_of s) (phase_of t)"
  by (rule step_phase [OF assms(2) lifecycle_inv_reachable [OF assms(1)]])

lemma run_refines_phase:
  assumes "step\<^sup>*\<^sup>* s t" and "reachable n s"
  shows "phase_step\<^sup>*\<^sup>* (phase_of s) (phase_of t) \<and> reachable n t"
  using assms
proof (induction rule: rtranclp_induct)
  case base
  then show ?case by simp
next
  case (step t u)
  then have t: "reachable n t" "phase_step\<^sup>*\<^sup>* (phase_of s) (phase_of t)" by blast+
  from step_refines_phase [OF t(1) step.hyps(2)] t(2)
  have "phase_step\<^sup>*\<^sup>* (phase_of s) (phase_of u)" by (auto intro: rtranclp.rtrancl_into_rtrancl)
  with reachable_step [OF t(1) step.hyps(2)] show ?case by blast
qed

text \<open>
  A probe that begins while the application serves is answered by the health checks, even if the application
  shuts down under it; one that begins in the shutdown is refused; one that begins before the start answers
  200 only after the start.
\<close>

lemma checkReadiness_phase:
  assumes "reachable n s" and "step\<^sup>*\<^sup>* s t" and "checkReadiness s t ctx_done pick healthy = Some r"
    and "ctx_done \<longrightarrow> pick"
  shows "(phase_of s = Serving \<longrightarrow> hr_Code r = probe_code Serving healthy) \<and>
    (phase_of s \<in> {Draining, Closed} \<longrightarrow> hr_Code r = 503) \<and>
    (hr_Code r = 200 \<longrightarrow> lc_started t \<and> healthy = None)"
proof -
  have "lc_started s \<longrightarrow> lc_started t"
    using assms(2) by (induction rule: rtranclp_induct) (auto dest: step_monotone)
  then show ?thesis
    using assms(3,4) channel_inv_reachable [OF assms(1)]
    by (auto simp: readiness_defs channel_inv_def phase_of_def probe_code_def split: if_splits option.splits)
qed

text \<open>
  A probe that began while the application was starting can answer 200 when the application is closed: a signal
  came, and then the components finished their start.
\<close>

lemma ready_when_closed:
  "\<exists>t r. phase_of (created n) = Starting \<and> step\<^sup>*\<^sup>* (created n) t \<and> phase_of t = Closed \<and>
     checkReadiness (created n) t False False None = Some r \<and> hr_Code r = 200"
proof -
  obtain t where t: "reachable n t" "lc_closed t" "lc_run t = RunReturned" using timeout_before_closers by blast
  have "step\<^sup>*\<^sup>* (created n) u" if "reachable n u" for u
    using that by (induction rule: reachable.induct) (auto intro: rtranclp.rtrancl_into_rtrancl)
  moreover have "lc_started t" using channel_inv_reachable [OF t(1)] t(3) by (simp add: channel_inv_def)
  ultimately show ?thesis
    using t by (intro exI [of _ t]) (simp add: readiness_defs phase_of_def created_def)
qed

end
