(* ===== verification/Http_Handlers.thy ===== *)
theory Http_Handlers
  imports Lifecycle "HOL-Library.AList"
begin

section \<open>HTTP handlers (application/middlewares.go, http.go, pkg/swagger)\<close>

text \<open>
  A handler answers a request by a list of writer events (the operations of \<^verbatim>\<open>http.Header\<close> on canonical keys,
  the status, the body), in a state \<open>'w\<close> that holds the metrics and
  whatever the application's own handler changes.  \<open>sent_status\<close> is what \<^verbatim>\<open>net/http\<close> sends for the
  events: the first \<^verbatim>\<open>WriteHeader\<close>, or 200 at the first write.  The bodies of the probes are the
  \<^verbatim>\<open>HealthResponse\<close> values; the JSON encoding and the time stamp are left out.
\<close>

record http_request =
  rq_Path :: string
  rq_Method :: string

datatype wevent =
    SetHeader string string
  | AddHeader string string
  | DelHeader string
  | WriteHeader nat
  | Write string
  | WriteHealth health_response        \<comment> \<open>the JSON of a \<^verbatim>\<open>HealthResponse\<close>\<close>

type_synonym 'w http_handler = "http_request \<Rightarrow> 'w \<Rightarrow> 'w \<times> wevent list"

definition noopHandler :: "'w http_handler" where
  "noopHandler r w = (w, [WriteHeader 404])"

fun sent_from :: "nat option \<Rightarrow> wevent list \<Rightarrow> nat option" where
  "sent_from st [] = st"
| "sent_from st (WriteHeader c # es) = sent_from (case st of None \<Rightarrow> Some c | Some s \<Rightarrow> Some s) es"
| "sent_from st (Write b # es) = sent_from (case st of None \<Rightarrow> Some 200 | Some s \<Rightarrow> Some s) es"
| "sent_from st (WriteHealth h # es) = sent_from (case st of None \<Rightarrow> Some 200 | Some s \<Rightarrow> Some s) es"
| "sent_from st (SetHeader k v # es) = sent_from st es"
| "sent_from st (AddHeader k v # es) = sent_from st es"
| "sent_from st (DelHeader k # es) = sent_from st es"

definition sent_status :: "wevent list \<Rightarrow> nat" where
  "sent_status es = (case sent_from None es of None \<Rightarrow> 200 | Some s \<Rightarrow> s)"

subsection \<open>Probes\<close>

definition livenessMiddleware :: "'w http_handler \<Rightarrow> 'w http_handler" where
  "livenessMiddleware next r w =
     (if rq_Path r = ''/healthz/live''
      then (w, [SetHeader ''Content-Type'' ''application/json'', WriteHeader 200,
                WriteHealth \<lparr>hr_Status = ''healthy'', hr_Message = ''Application is running'',
                             hr_Code = 200\<rparr>])
      else next r w)"

text \<open>\<open>probe\<close> is the response of \<open>checkReadiness\<close> within the timeout of the request.\<close>

definition readinessMiddleware :: "('w \<Rightarrow> health_response) \<Rightarrow> 'w http_handler \<Rightarrow> 'w http_handler" where
  "readinessMiddleware probe next r w =
     (if rq_Path r = ''/healthz/ready''
      then (w, [SetHeader ''Content-Type'' ''application/json'', WriteHeader (hr_Code (probe w)),
                WriteHealth (probe w)])
      else next r w)"

subsection \<open>Metrics\<close>

definition isMetricPath :: "string \<Rightarrow> bool" where
  "isMetricPath p = (p = ''/metrics'' \<or> has_prefix p ''/healthz/'')"

definition normalizePath :: "http_request \<Rightarrow> string" where
  "normalizePath r = rq_Path r"

text \<open>The status that \<^verbatim>\<open>statusRecorder\<close> holds after the events, 0 before the first.\<close>

fun recorder_step :: "nat \<Rightarrow> wevent \<Rightarrow> nat" where
  "recorder_step status (WriteHeader code) = code"
| "recorder_step status (Write b) = (if status = 0 then 200 else status)"
| "recorder_step status (WriteHealth h) = (if status = 0 then 200 else status)"
| "recorder_step status (SetHeader k v) = status"
| "recorder_step status (AddHeader k v) = status"
| "recorder_step status (DelHeader k) = status"

definition recorded_status :: "wevent list \<Rightarrow> nat" where
  "recorded_status es =
     (let status = foldl recorder_step 0 es in if status = 0 then 200 else status)"

text \<open>\<open>observe\<close> adds a request with its labels to the metrics.\<close>

definition httpMetricsMiddleware ::
    "(string \<Rightarrow> string \<Rightarrow> string \<Rightarrow> 'w \<Rightarrow> 'w) \<Rightarrow> 'w http_handler \<Rightarrow> 'w http_handler" where
  "httpMetricsMiddleware observe next r w =
     (if isMetricPath (rq_Path r) then next r w
      else case next r w of
        (w', es) \<Rightarrow>
          (observe (rq_Method r) (normalizePath r) (show_int (int (recorded_status es))) w', es))"

subsection \<open>The Swagger page (pkg/swagger/ui.go)\<close>

text \<open>The writer that captures the answer of the gateway.\<close>

record capture_writer =
  cw_status :: nat
  cw_header :: "(string \<times> string list) list"
  cw_body :: "wevent list"
  cw_wroteH :: bool

definition capture_new :: capture_writer where
  "capture_new = \<lparr>cw_status = 0, cw_header = [], cw_body = [], cw_wroteH = False\<rparr>"

definition capture_WriteHeader :: "nat \<Rightarrow> capture_writer \<Rightarrow> capture_writer" where
  "capture_WriteHeader code cw =
     (if cw_wroteH cw then cw else cw\<lparr>cw_wroteH := True, cw_status := code\<rparr>)"

definition capture_Write :: "wevent \<Rightarrow> capture_writer \<Rightarrow> capture_writer" where
  "capture_Write p cw =
     (let cw = (if cw_wroteH cw then cw else capture_WriteHeader 200 cw)
      in cw\<lparr>cw_body := cw_body cw @ [p]\<rparr>)"

text \<open>\<^verbatim>\<open>Set\<close>, \<^verbatim>\<open>Add\<close> and \<^verbatim>\<open>Del\<close> of \<^verbatim>\<open>http.Header\<close>; the list is the map, one entry for a key.\<close>

definition header_Set :: "string \<Rightarrow> string \<Rightarrow> (string \<times> string list) list \<Rightarrow> (string \<times> string list) list" where
  "header_Set k v h = AList.update k [v] h"

definition header_Add :: "string \<Rightarrow> string \<Rightarrow> (string \<times> string list) list \<Rightarrow> (string \<times> string list) list" where
  "header_Add k v h = AList.update k ((case map_of h k of None \<Rightarrow> [] | Some vs \<Rightarrow> vs) @ [v]) h"

definition header_Del :: "string \<Rightarrow> (string \<times> string list) list \<Rightarrow> (string \<times> string list) list" where
  "header_Del k h = AList.delete k h"

fun capture_event :: "capture_writer \<Rightarrow> wevent \<Rightarrow> capture_writer" where
  "capture_event cw (SetHeader k v) = cw\<lparr>cw_header := header_Set k v (cw_header cw)\<rparr>"
| "capture_event cw (AddHeader k v) = cw\<lparr>cw_header := header_Add k v (cw_header cw)\<rparr>"
| "capture_event cw (DelHeader k) = cw\<lparr>cw_header := header_Del k (cw_header cw)\<rparr>"
| "capture_event cw (WriteHeader c) = capture_WriteHeader c cw"
| "capture_event cw e = capture_Write e cw"

definition capture :: "wevent list \<Rightarrow> capture_writer" where
  "capture es = foldl capture_event capture_new es"

text \<open>\<^verbatim>\<open>Del\<close> of each key and then \<^verbatim>\<open>Add\<close> of each of its values, in the order in which the map is walked.\<close>

definition copyHeader :: "(string \<times> string list) list \<Rightarrow> wevent list" where
  "copyHeader src = concat (map (\<lambda>(k, vv). DelHeader k # map (AddHeader k) vv) src)"

record swagger_manager =
  sg_spec :: string
  sg_regs :: "gerror list"             \<comment> \<open>what each registrar returns\<close>

definition swagger_New :: "string \<Rightarrow> swagger_manager" where
  "swagger_New spec = \<lparr>sg_spec = spec, sg_regs = []\<rparr>"

definition swagger_Add :: "gerror \<Rightarrow> swagger_manager \<Rightarrow> swagger_manager" where
  "swagger_Add r m = m\<lparr>sg_regs := sg_regs m @ [r]\<rparr>"

text \<open>
  \<open>gw\<close> is the gateway's mux with the registrars applied, \<open>uiHTML\<close> the embedded page, \<open>now\<close> the formatted time of
  the state.  The events of
  \<^verbatim>\<open>http.Redirect\<close> and \<^verbatim>\<open>http.Error\<close> are those of their status.
\<close>

definition swagger_handler ::
    "string \<Rightarrow> ('w \<Rightarrow> string) \<Rightarrow> 'w http_handler \<Rightarrow> string \<Rightarrow> 'w http_handler \<Rightarrow> 'w http_handler" where
  "swagger_handler uiHTML now gw spec next r w =
     (if rq_Path r = ''/swagger'' then (w, [SetHeader ''Location'' ''/swagger/'', WriteHeader 301])
      else if rq_Path r = ''/swagger/'' then
        (w, [SetHeader ''Content-Type'' ''text/html; charset=utf-8'',
             SetHeader ''Cache-Control'' ''no-cache, no-store, must-revalidate'', Write uiHTML])
      else if rq_Path r = ''/swagger/openapi.json'' then
        (if spec = [] then (w, [WriteHeader 500, Write ''openapi spec is empty''])
         else (w, [SetHeader ''Content-Type'' ''application/json'',
                   SetHeader ''Cache-Control'' ''public, max-age=60'',
                   SetHeader ''Last-Modified'' (now w), Write spec]))
      else
        (case gw r w of
           (w', es) \<Rightarrow>
             let cw = capture es in
             if cw_status cw = 0 \<or> cw_status cw = 404 then next r w'
             else (w', copyHeader (cw_header cw) @ [WriteHeader (cw_status cw)] @ cw_body cw)))"

definition swagger_Middleware ::
    "string \<Rightarrow> ('w \<Rightarrow> string) \<Rightarrow> 'w http_handler \<Rightarrow> swagger_manager \<Rightarrow>
     gerr + ('w http_handler \<Rightarrow> 'w http_handler)" where
  "swagger_Middleware uiHTML now gw m =
     (case non_nil (sg_regs m) of
        err # _ \<Rightarrow> Inl err
      | [] \<Rightarrow> Inr (swagger_handler uiHTML now gw (sg_spec m)))"

subsection \<open>Statuses\<close>

text \<open>A handler that writes its header at most once, and before its body, is recorded as it is sent.\<close>

fun header_first :: "bool \<Rightarrow> wevent list \<Rightarrow> bool" where
  "header_first written [] = True"
| "header_first written (WriteHeader c # es) = (\<not> written \<and> c \<noteq> 0 \<and> header_first True es)"
| "header_first written (Write b # es) = header_first True es"
| "header_first written (WriteHealth h # es) = header_first True es"
| "header_first written (SetHeader k v # es) = header_first written es"
| "header_first written (AddHeader k v # es) = header_first written es"
| "header_first written (DelHeader k # es) = header_first written es"

lemma recorder_sent:
  "header_first (st \<noteq> 0) es \<Longrightarrow>
     (foldl recorder_step st es = 0 \<and> sent_from None es = None \<and> st = 0) \<or>
     (foldl recorder_step st es \<noteq> 0 \<and>
      sent_from (if st = 0 then None else Some st) es = Some (foldl recorder_step st es))"
proof (induction es arbitrary: st)
  case Nil
  show ?case by simp
next
  case (Cons e es)
  show ?case using Cons.IH [of "recorder_step st e"] Cons.prems
    by (cases e) (auto split: if_splits)
qed

lemma recorded_sent: "header_first False es \<Longrightarrow> recorded_status es = sent_status es"
  using recorder_sent [of 0 es] by (auto simp: recorded_status_def sent_status_def Let_def)

text \<open>The captured status is the one that would be sent.\<close>

lemma capture_sent:
  assumes "cw_wroteH cw \<longleftrightarrow> st \<noteq> None" and "\<And>s. st = Some s \<Longrightarrow> cw_status cw = s"
    and "st = None \<Longrightarrow> cw_status cw = 0"
  shows "case sent_from st es of
      None \<Rightarrow> cw_status (foldl capture_event cw es) = 0
    | Some s \<Rightarrow> cw_status (foldl capture_event cw es) = s"
  using assms
proof (induction st es arbitrary: cw rule: sent_from.induct)
  case (1 st)
  then show ?case by (cases st) auto
qed (force simp: capture_WriteHeader_def capture_Write_def Let_def split: option.splits)+

text \<open>What a list of events does beside the status: the body, and the values of each header (\<open>None\<close> when there are none).\<close>

fun is_body :: "wevent \<Rightarrow> bool" where
  "is_body (Write b) = True"
| "is_body (WriteHealth h) = True"
| "is_body e = False"

fun header_step :: "string \<Rightarrow> string list option \<Rightarrow> wevent \<Rightarrow> string list option" where
  "header_step k st (SetHeader k' v) = (if k' = k then Some [v] else st)"
| "header_step k st (AddHeader k' v) = (if k' = k then Some ((case st of None \<Rightarrow> [] | Some vs \<Rightarrow> vs) @ [v]) else st)"
| "header_step k st (DelHeader k') = (if k' = k then None else st)"
| "header_step k st e = st"

definition header_from :: "string \<Rightarrow> string list option \<Rightarrow> wevent list \<Rightarrow> string list option" where
  "header_from k st es = foldl (header_step k) st es"

lemma header_from_simps [simp]:
  "header_from k st [] = st"
  "header_from k st (e # es) = header_from k (header_step k st e) es"
  "header_from k st (es @ es') = header_from k (header_from k st es) es'"
  by (simp_all add: header_from_def)

lemma capture_body: "cw_body (foldl capture_event cw es) = cw_body cw @ filter is_body es"
proof (induction es arbitrary: cw)
  case (Cons e es)
  show ?case by (cases e) (simp_all add: Cons capture_WriteHeader_def capture_Write_def Let_def)
qed simp

lemma capture_frame [simp]:
  "cw_header (capture_WriteHeader c cw) = cw_header cw" "cw_header (capture_Write e cw) = cw_header cw"
  by (simp_all add: capture_WriteHeader_def capture_Write_def Let_def)

lemma capture_headers:
  "distinct (map fst (cw_header cw)) \<Longrightarrow>
     map_of (cw_header (foldl capture_event cw es)) k = header_from k (map_of (cw_header cw) k) es \<and>
     distinct (map fst (cw_header (foldl capture_event cw es)))"
proof (induction es arbitrary: cw)
  case (Cons e es)
  have "distinct (map fst (cw_header (capture_event cw e)))"
    using Cons.prems
    by (cases e) (simp_all add: header_Set_def header_Add_def header_Del_def distinct_update distinct_delete)
  moreover have "map_of (cw_header (capture_event cw e)) k = header_step k (map_of (cw_header cw) k) e"
    by (cases e) (auto simp: header_Set_def header_Add_def header_Del_def update_conv' delete_conv')
  ultimately show ?case using Cons.IH by simp
qed simp

lemma capture_values:
  "[] \<notin> snd ` set (cw_header cw) \<Longrightarrow> [] \<notin> snd ` set (cw_header (foldl capture_event cw es))"
proof (induction es arbitrary: cw)
  case (Cons e es)
  have upd: "[] \<notin> snd ` set (AList.update k vs h)" if "[] \<notin> snd ` set h" "vs \<noteq> []" for k vs and h :: "(string \<times> string list) list"
    using that by (induction h) (auto split: if_splits)
  have "[] \<notin> snd ` set (cw_header (capture_event cw e))"
    using Cons.prems upd
    by (cases e) (auto simp: header_Set_def header_Add_def header_Del_def AList.delete_eq)
  then show ?case using Cons.IH by simp
qed simp

lemma header_from_more: "header_from k (Some us) (map (AddHeader k) vs) = Some (us @ vs)"
  by (induction vs arbitrary: us) auto

lemma header_from_adds: "vs \<noteq> [] \<Longrightarrow> header_from k None (map (AddHeader k) vs) = Some vs"
  by (cases vs) (simp_all add: header_from_more)

lemma header_from_other: "k' \<noteq> k \<Longrightarrow> header_from k st (map (AddHeader k') vs) = st"
  by (induction vs) auto

lemma header_from_copyHeader:
  "distinct (map fst src) \<Longrightarrow> [] \<notin> snd ` set src \<Longrightarrow>
     header_from k st (copyHeader src) = (case map_of src k of None \<Rightarrow> st | Some vs \<Rightarrow> Some vs)"
proof (induction src arbitrary: st)
  case (Cons a src)
  obtain k' vv where a: "a = (k', vv)" by (cases a)
  have "map_of src k' = None" using Cons.prems by (simp add: a map_of_eq_None_iff)
  then show ?case
    using Cons by (cases "k' = k") (auto simp: a copyHeader_def header_from_adds header_from_other split: option.splits)
qed (simp add: copyHeader_def)

lemma sent_from_adds: "sent_from st (map (AddHeader k) vs @ es) = sent_from st es"
  by (induction vs) auto

lemma sent_from_copyHeader: "sent_from st (copyHeader src @ es) = sent_from st es"
  by (induction src) (auto simp: copyHeader_def sent_from_adds)

lemma header_from_bodies: "\<forall>e \<in> set es. is_body e \<Longrightarrow> header_from k st es = st"
proof (induction es)
  case (Cons e es)
  then show ?case by (cases e) auto
qed simp

lemma filter_is_body_copyHeader [simp]: "filter is_body (copyHeader src) = []"
  by (auto simp: copyHeader_def filter_empty_conv)

lemma sent_from_Some: "sent_from (Some c) es = Some c"
  by (induction "Some c" es rule: sent_from.induct) auto

lemma sent_from_not_zero: "WriteHeader 0 \<notin> set es \<Longrightarrow> st \<noteq> Some 0 \<Longrightarrow> sent_from st es \<noteq> Some 0"
  by (induction st es rule: sent_from.induct) (auto split: option.splits)

subsection \<open>Gateway (pkg/swagger/ui.go)\<close>

text \<open>
  \<^verbatim>\<open>Gateway\<close> calls a registration function by reflection.  \<open>gateway_reflect\<close> is what the package \<^verbatim>\<open>reflect\<close> says of the
  two values: the number of parameters of the function, whether the third one is an interface, whether the
  type of the server implements it, and the call.
\<close>

record 'w gateway_reflect =
  gr_NumIn :: nat
  gr_is_interface :: bool
  gr_implements :: bool
  gr_server_type :: string
  gr_Call :: "'w \<Rightarrow> 'w \<times> gerror"

definition Gateway :: "'w gateway_reflect \<Rightarrow> 'w \<Rightarrow> 'w \<times> unit go" where
  "Gateway G w =
     (if gr_NumIn G \<le> 2 then (w, Panic ''reflect: Func index out of bounds'')
      else if gr_is_interface G \<and> gr_implements G then
        (case gr_Call G w of
           (w', Some err) \<Rightarrow> (w', Err err)
         | (w', None) \<Rightarrow> (w', Ok ()))
      else (w, Err (Sentinel (''swagger.Gateway: server '' @ gr_server_type G @ '' does not implement the interface''))))"

text \<open>The function is called only with a server that implements what it asks for.\<close>

lemma Gateway_calls_checked:
  "fst (Gateway G w) \<noteq> w \<Longrightarrow> 2 < gr_NumIn G \<and> gr_is_interface G \<and> gr_implements G \<and> fst (Gateway G w) = fst (gr_Call G w)"
  by (auto simp: Gateway_def split: if_splits prod.splits option.splits)

lemma Gateway_Ok: "snd (Gateway G w) = Ok () \<longleftrightarrow>
    2 < gr_NumIn G \<and> gr_is_interface G \<and> gr_implements G \<and> snd (gr_Call G w) = None"
  by (auto simp: Gateway_def split: prod.splits option.splits)

end
