(* ===== verification/Di_Container.thy ===== *)
theory Di_Container
  imports Interfaces
begin

section \<open>The dependency container (pkg/di/container.go, di.go)\<close>

text \<open>
  Services are values of a type \<open>'s\<close>; what reflection tells of them, and the call of their method
  \<^verbatim>\<open>ResolveDeps\<close>, is the parameter record \<open>svc_ops\<close>.  The container is a record of the fields of
  \<^verbatim>\<open>containerImpl\<close> with one more, \<open>c_calls\<close>: the trace of the \<^verbatim>\<open>ResolveDeps\<close> calls made, which is what
  injection does to the services.  \<^verbatim>\<open>Build\<close> ranges over a Go map, so the order of the names is an
  argument.  The lemmas show that a key is bound once and for all, that after a successful build
  every service has been called with the services registered for its parameters, and that the
  outcome of a build does not depend on the order.
\<close>

definition ErrAlreadyRegistered :: gerr where "ErrAlreadyRegistered = Sentinel ''already registered''"
definition ErrUnregisteredType :: gerr where "ErrUnregisteredType = Sentinel ''type is not registered''"
definition ErrNoContainer :: gerr where "ErrNoContainer = Sentinel ''container not found''"
definition ErrServiceMustBePointer :: gerr where
  "ErrServiceMustBePointer = Sentinel ''instance must be a pointer''"

subsection \<open>Types as keys\<close>

text \<open>A \<^verbatim>\<open>reflect.Type\<close>: a named type with its package, a pointer, or an unnamed type.\<close>

datatype gotype = TNamed string string | TPtr gotype | TUnnamed string

fun PkgPath :: "gotype \<Rightarrow> string" where
  "PkgPath (TNamed p n) = p" | "PkgPath (TPtr t) = []" | "PkgPath (TUnnamed d) = []"

fun TypeName :: "gotype \<Rightarrow> string" where
  "TypeName (TNamed p n) = n" | "TypeName (TPtr t) = []" | "TypeName (TUnnamed d) = []"

definition getTypeName :: "gotype \<Rightarrow> string" where
  "getTypeName typeOf =
     (let t = (case typeOf of TPtr e \<Rightarrow> e | _ \<Rightarrow> typeOf) in PkgPath t @ ''.'' @ TypeName t)"

subsection \<open>Services and the container\<close>

record 's svc_ops =
  sv_is_ptr :: "'s \<Rightarrow> bool"
  sv_type :: "'s \<Rightarrow> string"
  sv_method :: "'s \<Rightarrow> gotype list option"       \<comment> \<open>parameter types of \<^verbatim>\<open>ResolveDeps\<close>, if it exists\<close>
  sv_call :: "'s \<Rightarrow> 's list \<Rightarrow> unit go"         \<comment> \<open>the call of \<^verbatim>\<open>ResolveDeps\<close>\<close>
  sv_implements :: "'s \<Rightarrow> gotype \<Rightarrow> bool"       \<comment> \<open>the type assertion \<^verbatim>\<open>inst.(T)\<close>\<close>

record 's dependency =
  dep_service :: 's
  dep_injected :: bool

record 's container =
  c_dependencies :: "string \<rightharpoonup> 's dependency"
  c_initialized :: bool
  c_calls :: "('s \<times> 's list) list"

definition di_New :: "'s container" where
  "di_New = \<lparr>c_dependencies = Map.empty, c_initialized = False, c_calls = []\<rparr>"

definition exist :: "'s container \<Rightarrow> string \<Rightarrow> gerror" where
  "exist c typeName =
     (case c_dependencies c typeName of
        Some _ \<Rightarrow> Some (Wrapped (''type_name: '' @ typeName) ErrAlreadyRegistered)
      | None \<Rightarrow> None)"

definition getDependency :: "'s container \<Rightarrow> gotype \<Rightarrow> 's dependency go" where
  "getDependency c paramType =
     (case c_dependencies c (getTypeName paramType) of
        None \<Rightarrow> Err (Wrapped (TypeName paramType) ErrUnregisteredType)
      | Some dep \<Rightarrow> Ok dep)"

definition resolve :: "'s container \<Rightarrow> gotype \<Rightarrow> 's go" where
  "resolve c paramType = go_bind (getDependency c paramType) (\<lambda>dep. Ok (dep_service dep))"

text \<open>The arguments of \<^verbatim>\<open>ResolveDeps\<close>, in order; the first missing one is the error.\<close>

fun inject_args :: "'s container \<Rightarrow> string \<Rightarrow> gotype list \<Rightarrow> 's list go" where
  "inject_args c ty [] = Ok []"
| "inject_args c ty (p # ps) =
     (case getDependency c p of
        Err err \<Rightarrow> Err (Wrapped (''failed to resolve dependency for '' @ ty) err)
      | Panic m \<Rightarrow> Panic m
      | Ok dep \<Rightarrow> go_bind (inject_args c ty ps) (\<lambda>args. Ok (dep_service dep # args)))"

definition inject :: "'s svc_ops \<Rightarrow> 's \<Rightarrow> 's container \<Rightarrow> 's container \<times> unit go" where
  "inject ops inst c =
     (if \<not> sv_is_ptr ops inst then (c, Err (Wrapped (sv_type ops inst) ErrServiceMustBePointer))
      else case sv_method ops inst of
        None \<Rightarrow> (c, Ok ())
      | Some params \<Rightarrow>
          (case inject_args c (sv_type ops inst) params of
             Err err \<Rightarrow> (c, Err err)
           | Panic p \<Rightarrow> (c, Panic p)
           | Ok args \<Rightarrow> (c\<lparr>c_calls := c_calls c @ [(inst, args)]\<rparr>, sv_call ops inst args)))"

fun build_loop :: "'s svc_ops \<Rightarrow> string list \<Rightarrow> gerror \<Rightarrow> 's container \<Rightarrow> 's container \<times> unit go" where
  "build_loop ops [] err c = (c, go_of_error err)"
| "build_loop ops (name # names) err c =
     (case c_dependencies c name of
        None \<Rightarrow> build_loop ops names err c
      | Some dep \<Rightarrow>
          if dep_injected dep then build_loop ops names err c
          else
            (case inject ops (dep_service dep) c of
               (c', Panic p) \<Rightarrow> (c', Panic p)
             | (c', r) \<Rightarrow> build_loop ops names (errors_Join [err, err_of r]) c'))"

definition Build :: "'s svc_ops \<Rightarrow> string list \<Rightarrow> 's container \<Rightarrow> 's container \<times> unit go" where
  "Build ops order c =
     (if c_initialized c then (c, Ok ())
      else case build_loop ops order None c of
        (c', Ok _) \<Rightarrow> (c'\<lparr>c_initialized := True\<rparr>, Ok ())
      | (c', r) \<Rightarrow> (c', r))"

definition bind_dependency :: "string \<Rightarrow> 's \<Rightarrow> bool \<Rightarrow> 's container \<Rightarrow> 's container" where
  "bind_dependency typeName inst done_flag c =
     c\<lparr>c_dependencies := (c_dependencies c)(typeName \<mapsto> \<lparr>dep_service = inst, dep_injected = done_flag\<rparr>)\<rparr>"

definition register :: "'s svc_ops \<Rightarrow> gotype \<Rightarrow> 's \<Rightarrow> 's container \<Rightarrow> 's container \<times> unit go" where
  "register ops typeInfo inst c =
     (let typeName = getTypeName typeInfo in
      case exist c typeName of
        Some err \<Rightarrow> (c, Panic ''already registered'')
      | None \<Rightarrow>
          if c_initialized c then
            (case inject ops inst c of
               (c', Ok _) \<Rightarrow> (bind_dependency typeName inst True c', Ok ())
             | (c', r) \<Rightarrow> (c', r))
          else
            (case inject ops inst c of
               (c', Ok _) \<Rightarrow> (bind_dependency typeName inst True c', Ok ())
             | (c', Panic p) \<Rightarrow> (c', Panic p)
             | (c', Err err) \<Rightarrow>
                 if errors_is err ErrUnregisteredType
                 then (bind_dependency typeName inst False c', Ok ())
                 else (c', Err err)))"

subsection \<open>Contexts and the global container\<close>

text \<open>Containers are pointers; a context may carry one, and one may be global.\<close>

record 's di_world =
  dw_heap :: "nat \<Rightarrow> 's container"
  dw_global :: "nat option"

definition SetGlobal :: "nat \<Rightarrow> 's di_world \<Rightarrow> 's di_world" where
  "SetGlobal container w = w\<lparr>dw_global := Some container\<rparr>"

definition getContainer :: "nat option \<Rightarrow> 's di_world \<Rightarrow> nat go" where
  "getContainer ctx w =
     (case ctx of
        Some container \<Rightarrow> Ok container
      | None \<Rightarrow> (case dw_global w of Some global \<Rightarrow> Ok global | None \<Rightarrow> Panic ''container not found''))"

definition di_Register ::
    "'s svc_ops \<Rightarrow> nat option \<Rightarrow> gotype \<Rightarrow> 's \<Rightarrow> 's di_world \<Rightarrow> 's di_world \<times> 's go" where
  "di_Register ops ctx ty inst w =
     (case getContainer ctx w of
        Ok p \<Rightarrow>
          (case register ops ty inst (dw_heap w p) of
             (c', Ok _) \<Rightarrow> (w\<lparr>dw_heap := (dw_heap w)(p := c')\<rparr>, Ok inst)
           | (c', Err err) \<Rightarrow> (w\<lparr>dw_heap := (dw_heap w)(p := c')\<rparr>, Panic ''register'')
           | (c', Panic m) \<Rightarrow> (w\<lparr>dw_heap := (dw_heap w)(p := c')\<rparr>, Panic m))
      | Err e \<Rightarrow> (w, Err e)
      | Panic m \<Rightarrow> (w, Panic m))"

definition di_RegisterFactory ::
    "'s svc_ops \<Rightarrow> nat option \<Rightarrow> gotype \<Rightarrow> (unit \<Rightarrow> 's) \<Rightarrow> 's di_world \<Rightarrow> 's di_world \<times> unit go" where
  "di_RegisterFactory ops ctx ty factory w =
     (case di_Register ops ctx ty (factory ()) w of (w', r) \<Rightarrow> (w', go_bind r (\<lambda>_. Ok ())))"

definition di_Resolve :: "'s svc_ops \<Rightarrow> nat option \<Rightarrow> gotype \<Rightarrow> 's di_world \<Rightarrow> 's go" where
  "di_Resolve ops ctx ty w =
     go_bind (getContainer ctx w) (\<lambda>p.
       case resolve (dw_heap w p) ty of
         Ok inst \<Rightarrow> if sv_implements ops inst ty then Ok inst else Panic ''failed to cast instance''
       | Err err \<Rightarrow> Panic ''failed to resolve instance''
       | Panic m \<Rightarrow> Panic m)"


subsection \<open>Keys\<close>

text \<open>A type and a pointer to it share a key; distinct named types of distinct packages do not.\<close>

lemma getTypeName_pointer: "getTypeName (TPtr (TNamed p n)) = getTypeName (TNamed p n)"
  by (simp add: getTypeName_def)

lemma getTypeName_inj:
  assumes "CHR ''.'' \<notin> set n" and "CHR ''.'' \<notin> set n'"
  shows "getTypeName (TNamed p n) = getTypeName (TNamed p' n') \<longleftrightarrow> p = p' \<and> n = n'"
  using last_separator [OF assms, of p p'] by (simp add: getTypeName_def)

interpretation bindings: keyed_store "\<lambda>c. c_dependencies c"
  "\<lambda>c k (d :: 's dependency). bind_dependency k (dep_service d) (dep_injected d) c"
  by unfold_locales (simp_all add: bind_dependency_def)

lemma bind_dependency_frame [frame_simps]:
  "c_initialized (bind_dependency k i f c) = c_initialized c"
  "c_calls (bind_dependency k i f c) = c_calls c"
  "c_dependencies (bind_dependency k i f c) = (c_dependencies c)(k \<mapsto> \<lparr>dep_service = i, dep_injected = f\<rparr>)"
  by (simp_all add: bind_dependency_def)

subsection \<open>Injection\<close>

definition arguments :: "'s container \<Rightarrow> gotype list \<Rightarrow> 's list \<Rightarrow> bool" where
  "arguments c ps args \<longleftrightarrow>
     list_all2 (\<lambda>p a. \<exists>dep. c_dependencies c (getTypeName p) = Some dep \<and> dep_service dep = a) ps args"

text \<open>What an injected service was given: one call, with the services bound to its parameter types.\<close>

definition wired :: "'s svc_ops \<Rightarrow> 's container \<Rightarrow> 's \<Rightarrow> bool" where
  "wired ops c inst \<longleftrightarrow>
     (case sv_method ops inst of
        None \<Rightarrow> True
      | Some ps \<Rightarrow> \<exists>args. (inst, args) \<in> set (c_calls c) \<and> arguments c ps args \<and>
                        sv_call ops inst args = Ok ())"

lemma inject_args_Ok: "inject_args c ty ps = Ok args \<Longrightarrow> arguments c ps args"
  by (induction c ty ps arbitrary: args rule: inject_args.induct)
    (auto simp: arguments_def getDependency_def go_bind_Ok_iff split: option.splits)

lemma inject_args_no_panic: "inject_args c ty ps \<noteq> Panic m"
  by (induction c ty ps rule: inject_args.induct)
    (auto simp: getDependency_def go_bind_Panic_iff split: option.splits)

lemma inject_args_Err:
  "inject_args c ty ps = Err err \<Longrightarrow> errors_is err ErrUnregisteredType \<and>
     (\<exists>p \<in> set ps. c_dependencies c (getTypeName p) = None)"
proof (induction c ty ps arbitrary: err rule: inject_args.induct)
  case (2 c ty p ps)
  then show ?case
    by (cases "inject_args c ty ps")
      (auto simp: getDependency_def ErrUnregisteredType_def split: option.splits)
qed simp

lemma inject_args_defined:
  "\<forall>p \<in> set ps. c_dependencies c (getTypeName p) \<noteq> None \<Longrightarrow> \<exists>args. inject_args c ty ps = Ok args"
  by (metis go.exhaust inject_args_Err inject_args_no_panic)

lemma inject_frame [frame_simps]:
  assumes "inject ops inst c = (c', r)"
  shows "c_dependencies c' = c_dependencies c" "c_initialized c' = c_initialized c"
    "set (c_calls c) \<subseteq> set (c_calls c')"
  using assms by (auto simp: inject_def split: if_splits option.splits go.splits)

lemma arguments_cong: "c_dependencies c = c_dependencies c' \<Longrightarrow> arguments c = arguments c'"
  by (intro ext) (simp add: arguments_def)

lemma inject_Ok_wired:
  assumes "inject ops inst c = (c', Ok ())"
  shows "sv_is_ptr ops inst \<and> wired ops c' inst"
proof (cases "sv_method ops inst")
  case None
  with assms show ?thesis by (auto simp: inject_def wired_def split: if_splits)
next
  case (Some ps)
  with assms obtain args where a: "inject_args c (sv_type ops inst) ps = Ok args"
      "c' = c\<lparr>c_calls := c_calls c @ [(inst, args)]\<rparr>" "sv_call ops inst args = Ok ()"
      "sv_is_ptr ops inst"
    by (auto simp: inject_def split: if_splits go.splits)
  then have "arguments c' ps args"
    using inject_args_Ok arguments_cong [of c' c] by fastforce
  with a Some show ?thesis by (auto simp: wired_def)
qed

text \<open>Bindings and calls only grow, so a wired service stays wired.\<close>

definition extends :: "'s container \<Rightarrow> 's container \<Rightarrow> bool" where
  "extends c c' \<longleftrightarrow>
     (\<forall>k dep. c_dependencies c k = Some dep \<longrightarrow>
        (\<exists>dep'. c_dependencies c' k = Some dep' \<and> dep_service dep' = dep_service dep)) \<and>
     set (c_calls c) \<subseteq> set (c_calls c')"

lemma extends_refl [simp]: "extends c c"
  by (simp add: extends_def)

lemma extends_trans: "extends a b \<Longrightarrow> extends b c \<Longrightarrow> extends a c"
  unfolding extends_def by (metis subset_trans)

lemma wired_mono:
  assumes "extends c c'" and "wired ops c inst"
  shows "wired ops c' inst"
proof (cases "sv_method ops inst")
  case (Some ps)
  then obtain args where a: "(inst, args) \<in> set (c_calls c)" "arguments c ps args"
      "sv_call ops inst args = Ok ()"
    using assms(2) by (auto simp: wired_def)
  have "arguments c' ps args"
    using a(2) assms(1) unfolding arguments_def extends_def
    by (elim list_all2_mono) blast
  with a Some assms(1) show ?thesis by (auto simp: wired_def extends_def)
qed (simp add: wired_def)

lemma inject_extends: "inject ops inst c = (c', r) \<Longrightarrow> extends c c'"
  using inject_frame [of ops inst c c' r] by (simp add: extends_def)

text \<open>The outcome of an injection depends on the bindings alone.\<close>

lemma inject_args_cong:
  "c_dependencies c = c_dependencies c' \<Longrightarrow> inject_args c ty ps = inject_args c' ty ps"
  by (induction ps) (auto simp: getDependency_def split: option.splits go.splits)

lemma inject_cong:
  "c_dependencies c = c_dependencies c' \<Longrightarrow> snd (inject ops i c) = snd (inject ops i c')"
  using inject_args_cong [of c c'] by (auto simp: inject_def split: option.splits go.splits)


subsection \<open>Building\<close>

definition wf_container :: "'s svc_ops \<Rightarrow> 's container \<Rightarrow> bool" where
  "wf_container ops c \<longleftrightarrow>
     (\<forall>k dep. c_dependencies c k = Some dep \<longrightarrow>
        sv_is_ptr ops (dep_service dep) \<and>
        (dep_injected dep \<or> c_initialized c \<longrightarrow> wired ops c (dep_service dep)))"

lemma wf_New [wf_intros]: "wf_container ops di_New"
  by (simp add: wf_container_def di_New_def)

lemma build_loop_frame:
  "build_loop ops names err c = (c', r) \<Longrightarrow>
     c_dependencies c' = c_dependencies c \<and> c_initialized c' = c_initialized c \<and> extends c c'"
proof (induction ops names err c rule: build_loop.induct)
  case (2 ops name names err c)
  show ?case
  proof (cases "c_dependencies c name")
    case None
    with 2 show ?thesis by simp
  next
    case (Some dep)
    show ?thesis
    proof (cases "dep_injected dep")
      case True
      with Some 2 show ?thesis by simp
    next
      case False
      obtain c1 r1 where i: "inject ops (dep_service dep) c = (c1, r1)" by force
      note f = inject_frame [OF i] and e = inject_extends [OF i]
      show ?thesis
        using "2.prems" "2.IH"(3,4) [OF Some False i [symmetric]] Some False i f e
        by (cases r1) (auto intro: extends_trans)
    qed
  qed
qed simp

text \<open>A loop that succeeds has wired every pending service that it visited, and its error was nil.\<close>

lemma build_loop_Ok:
  "build_loop ops names err c = (c', Ok ()) \<Longrightarrow>
     err = None \<and>
     (\<forall>name \<in> set names. \<forall>dep. c_dependencies c name = Some dep \<longrightarrow> dep_injected dep \<or>
        (snd (inject ops (dep_service dep) c) = Ok () \<and> wired ops c' (dep_service dep)))"
proof (induction ops names err c rule: build_loop.induct)
  case (1 ops err c)
  then show ?case by (auto simp: go_of_error_def split: option.splits)
next
  case (2 ops name names err c)
  show ?case
  proof (cases "c_dependencies c name")
    case None
    with 2 show ?thesis by simp
  next
    case (Some dep)
    show ?thesis
    proof (cases "dep_injected dep")
      case True
      with Some 2 show ?thesis by simp
    next
      case False
      obtain c1 r1 where i: "inject ops (dep_service dep) c = (c1, r1)" by force
      note f = inject_frame [OF i]
      have run: "build_loop ops names (errors_Join [err, err_of r1]) c1 = (c', Ok ())"
        using "2.prems" Some False i by (cases r1) auto
      have nopanic: "\<And>p. r1 \<noteq> Panic p" using "2.prems" Some False i by auto
      have IH: "errors_Join [err, err_of r1] = None \<and>
          (\<forall>name \<in> set names. \<forall>d. c_dependencies c1 name = Some d \<longrightarrow> dep_injected d \<or>
            (snd (inject ops (dep_service d) c1) = Ok () \<and> wired ops c' (dep_service d)))"
        using "2.IH"(3,4) [OF Some False i [symmetric]] run nopanic by (cases r1) auto
      then have "r1 = Ok ()" using nopanic by (cases r1) (auto simp: err_of_def)
      with i have i': "inject ops (dep_service dep) c = (c1, Ok ())" by simp
      have "wired ops c' (dep_service dep)"
        using inject_Ok_wired [OF i'] wired_mono [of c1 c'] build_loop_frame [OF run] by simp
      moreover have "snd (inject ops s c) = snd (inject ops s c1)" for s
        by (rule inject_cong) (simp add: f)
      moreover have "snd (inject ops (dep_service dep) c) = Ok ()" using i' by simp
      ultimately show ?thesis using IH Some f(1) by simp
    qed
  qed
qed

lemma build_loop_succeeds:
  assumes "\<forall>name \<in> set names. \<forall>dep. c_dependencies c name = Some dep \<longrightarrow> dep_injected dep \<or>
      snd (inject ops (dep_service dep) c) = Ok ()"
  shows "snd (build_loop ops names None c) = Ok ()"
  using assms
proof (induction names arbitrary: c)
  case Nil
  show ?case by (simp add: go_of_error_def)
next
  case (Cons name names)
  show ?case
  proof (cases "\<exists>dep. c_dependencies c name = Some dep \<and> \<not> dep_injected dep")
    case False
    with Cons show ?thesis by (auto split: option.splits)
  next
    case True
    then obtain dep where d: "c_dependencies c name = Some dep" "\<not> dep_injected dep" by blast
    obtain c1 r1 where i: "inject ops (dep_service dep) c = (c1, r1)" by force
    have r1: "r1 = Ok ()" using Cons.prems d i by auto
    have "snd (inject ops s c1) = snd (inject ops s c)" for s
      by (rule inject_cong) (simp add: inject_frame [OF i])
    then have "snd (build_loop ops names None c1) = Ok ()"
      using Cons inject_frame(1) [OF i] by simp
    moreover have "err_of (Ok ()) = None" by (simp add: err_of_def)
    ultimately show ?thesis using d i r1 by simp
  qed
qed

lemma Build_Ok_iff:
  assumes "\<not> c_initialized c"
  shows "snd (Build ops order c) = Ok () \<longleftrightarrow>
     (\<forall>name \<in> set order. \<forall>dep. c_dependencies c name = Some dep \<longrightarrow> dep_injected dep \<or>
        snd (inject ops (dep_service dep) c) = Ok ())" (is "?l \<longleftrightarrow> ?r")
proof
  assume ?l
  then obtain c' where "build_loop ops order None c = (c', Ok ())"
    using assms by (auto simp: Build_def split: prod.splits go.splits)
  then show ?r using build_loop_Ok by blast
next
  assume ?r
  then have "snd (build_loop ops order None c) = Ok ()" by (rule build_loop_succeeds)
  then show ?l using assms by (cases "build_loop ops order None c") (simp add: Build_def)
qed

lemma Build_wires:
  assumes "wf_container ops c" and "dom (c_dependencies c) \<subseteq> set order"
    and "Build ops order c = (c', Ok ())"
  shows "wf_container ops c' \<and> c_initialized c' \<and> c_dependencies c' = c_dependencies c"
proof (cases "c_initialized c")
  case True
  with assms show ?thesis by (simp add: Build_def)
next
  case False
  then obtain c1 where run: "build_loop ops order None c = (c1, Ok ())"
    and c': "c' = c1\<lparr>c_initialized := True\<rparr>"
    using assms(3) by (auto simp: Build_def split: prod.splits go.splits)
  note fr = build_loop_frame [OF run] and ok = build_loop_Ok [OF run]
  have ext: "extends c1 c'" by (simp add: c' extends_def)
  have "wired ops c' (dep_service dep)" if "c_dependencies c k = Some dep" for k dep
  proof (cases "dep_injected dep")
    case True
    then have "wired ops c (dep_service dep)" using assms(1) that by (simp add: wf_container_def)
    then show ?thesis
      using wired_mono [OF extends_trans [of c c1 c']] fr ext by simp
  next
    case False
    then have "wired ops c1 (dep_service dep)" using ok that assms(2) by blast
    then show ?thesis using wired_mono [OF ext] by simp
  qed
  moreover have "c_dependencies c' = c_dependencies c" "c_initialized c'" using fr by (simp_all add: c')
  ultimately show ?thesis using assms(1) by (simp add: wf_container_def)
qed

subsection \<open>Registration\<close>

lemma register_present:
  "c_dependencies c (getTypeName ty) = Some dep \<Longrightarrow>
     register ops ty inst c = (c, Panic ''already registered'')"
  by (simp add: register_def exist_def)

lemma register_Ok:
  assumes "register ops ty inst c = (c', Ok ())"
  shows "c_dependencies c (getTypeName ty) = None \<and>
    (\<exists>f. c_dependencies c' = (c_dependencies c)(getTypeName ty \<mapsto> \<lparr>dep_service = inst, dep_injected = f\<rparr>)
      \<and> (f \<longrightarrow> snd (inject ops inst c) = Ok ())) \<and>
    c_initialized c' = c_initialized c \<and> extends c c'"
proof -
  obtain c1 r1 where i: "inject ops inst c = (c1, r1)" by force
  note f = inject_frame [OF i] and e = inject_extends [OF i]
  have new: "c_dependencies c (getTypeName ty) = None"
    using assms by (auto simp: register_def exist_def Let_def split: option.splits)
  with assms i obtain g where c': "c' = bind_dependency (getTypeName ty) inst g c1"
      and g: "g \<longrightarrow> r1 = Ok ()"
    by (auto simp: register_def exist_def Let_def split: if_splits go.splits)
  have "extends c c'" using e new f unfolding extends_def c' by (auto simp: frame_simps)
  then show ?thesis using new f g i unfolding c' by (auto simp: frame_simps)
qed

lemma wf_register [wf_intros]:
  assumes "wf_container ops c" and "register ops ty inst c = (c', Ok ())"
  shows "wf_container ops c'"
proof -
  obtain c1 r1 where i: "inject ops inst c = (c1, r1)" by force
  note f = inject_frame [OF i] and e = inject_extends [OF i] and rOk = register_Ok [OF assms(2)]
  have new: "c_dependencies c (getTypeName ty) = None" using rOk by simp
  from assms(2) i new obtain g where c': "c' = bind_dependency (getTypeName ty) inst g c1"
      and g: "g \<or> c_initialized c \<longrightarrow> r1 = Ok ()"
      and pe: "r1 = Ok () \<or> (\<exists>err. r1 = Err err \<and> errors_is err ErrUnregisteredType)"
    by (auto simp: register_def exist_def Let_def split: if_splits go.splits)
  have ext: "extends c c'" using rOk by simp
  have old: "sv_is_ptr ops (dep_service dep) \<and>
      (dep_injected dep \<or> c_initialized c \<longrightarrow> wired ops c' (dep_service dep))"
    if "c_dependencies c k = Some dep" for k dep
    using assms(1) that wired_mono [OF ext] by (simp add: wf_container_def)
  have c1': "extends c1 c'" using f new by (simp add: c' extends_def frame_simps)
  have ptr: "sv_is_ptr ops inst"
    using pe i by (auto simp: inject_def ErrServiceMustBePointer_def ErrUnregisteredType_def
        split: if_splits)
  have own: "wired ops c' inst" if "g \<or> c_initialized c"
    using g i that inject_Ok_wired [of ops inst c c1] wired_mono [OF c1'] by simp
  show ?thesis
    using old ptr own f(1,2) by (auto simp: wf_container_def c' frame_simps)
qed

subsection \<open>Every container that the operations make\<close>

text \<open>
  The containers that any calls of \<^verbatim>\<open>Register\<close> and \<^verbatim>\<open>Build\<close> make of a new one, whether the calls
  succeed, fail or panic; \<^verbatim>\<open>Build\<close> ranges over all keys.
\<close>

inductive di_reachable :: "'s svc_ops \<Rightarrow> 's container \<Rightarrow> bool" for ops where
  reachable_New: "di_reachable ops di_New"
| reachable_register: "di_reachable ops c \<Longrightarrow> register ops ty inst c = (c', r) \<Longrightarrow> di_reachable ops c'"
| reachable_Build: "di_reachable ops c \<Longrightarrow> dom (c_dependencies c) \<subseteq> set order \<Longrightarrow>
    Build ops order c = (c', r) \<Longrightarrow> di_reachable ops c'"

lemma wf_same_dependencies:
  assumes "wf_container ops c" and "c_dependencies c' = c_dependencies c"
    and "c_initialized c' = c_initialized c" and "extends c c'"
  shows "wf_container ops c'"
  using assms wired_mono [OF assms(4)] by (simp add: wf_container_def)

lemma register_failed:
  assumes "register ops ty inst c = (c', r)" and "r \<noteq> Ok ()"
  shows "c_dependencies c' = c_dependencies c \<and> c_initialized c' = c_initialized c \<and> extends c c'"
proof -
  obtain c1 r1 where i: "inject ops inst c = (c1, r1)" by force
  have "c' = c \<or> c' = c1"
    using assms i by (auto simp: register_def Let_def split: option.splits if_splits go.splits)
  then show ?thesis using inject_frame [OF i] inject_extends [OF i] by auto
qed

lemma register_dom:
  assumes "register ops ty inst c = (c', r)"
  shows "dom (c_dependencies c') \<subseteq> insert (getTypeName ty) (dom (c_dependencies c))"
  using register_Ok [of ops ty inst c c'] register_failed [OF assms] assms
  by (cases "r = Ok ()") auto

lemma Build_failed:
  assumes "Build ops order c = (c', r)" and "r \<noteq> Ok ()"
  shows "c_dependencies c' = c_dependencies c \<and> c_initialized c' = c_initialized c \<and> extends c c'"
proof -
  obtain c1 r1 where run: "build_loop ops order None c = (c1, r1)" by force
  then have "c' = c1" using assms by (auto simp: Build_def split: if_splits go.splits)
  then show ?thesis using build_loop_frame [OF run] by simp
qed

lemma wf_di_reachable: "di_reachable ops c \<Longrightarrow> wf_container ops c"
proof (induction rule: di_reachable.induct)
  case reachable_New
  show ?case by (rule wf_New)
next
  case (reachable_register c ty inst c' r)
  then show ?case
    using wf_register [of ops c ty inst c'] register_failed [of ops ty inst c c' r]
      wf_same_dependencies [of ops c c']
    by (cases "r = Ok ()") auto
next
  case (reachable_Build c order c' r)
  then show ?case
    using Build_wires [of ops c order c'] Build_failed [of ops order c c' r]
      wf_same_dependencies [of ops c c']
    by (cases "r = Ok ()") auto
qed

lemma di_Register_Ok:
  assumes "di_Register ops ctx ty inst w = (w', Ok x)"
  shows "x = inst \<and> (\<exists>p c f. getContainer ctx w = Ok p \<and> getContainer ctx w' = Ok p \<and>
    dw_heap w' p = c \<and> c_dependencies c (getTypeName ty) = Some \<lparr>dep_service = inst, dep_injected = f\<rparr>)"
proof -
  obtain p where p: "getContainer ctx w = Ok p"
    using assms by (cases "getContainer ctx w") (auto simp: di_Register_def)
  obtain c' r where r: "register ops ty inst (dw_heap w p) = (c', r)" by force
  with assms p have "r = Ok ()" "x = inst" and w': "w' = w\<lparr>dw_heap := (dw_heap w)(p := c')\<rparr>"
    by (auto simp: di_Register_def split: go.splits)
  moreover have "getContainer ctx w' = Ok p"
    using p by (simp add: getContainer_def w' split: option.splits)
  ultimately show ?thesis using register_Ok [of ops ty inst "dw_heap w p" c'] p r by auto
qed

subsection \<open>Types of the bindings\<close>

text \<open>
  \<^verbatim>\<open>Register[T]\<close> takes an instance of \<^verbatim>\<open>T\<close>.  A container that is used through it only binds a key to an instance of
  a type with that key; the key forgets whether the type was a pointer, and all unnamed types share one.
\<close>

fun dot_free :: "gotype \<Rightarrow> bool" where
  "dot_free (TNamed p n) = (CHR ''.'' \<notin> set n)"
| "dot_free (TPtr (TNamed p n)) = (CHR ''.'' \<notin> set n)"
| "dot_free ty = True"

inductive di_typed :: "'s svc_ops \<Rightarrow> 's container \<Rightarrow> bool" for ops where
  typed_New: "di_typed ops di_New"
| typed_register: "di_typed ops c \<Longrightarrow> sv_implements ops inst ty \<Longrightarrow> dot_free ty \<Longrightarrow>
    register ops ty inst c = (c', r) \<Longrightarrow> di_typed ops c'"
| typed_Build: "di_typed ops c \<Longrightarrow> Build ops order c = (c', r) \<Longrightarrow> di_typed ops c'"

lemma Build_dependencies: "Build ops order c = (c', r) \<Longrightarrow> c_dependencies c' = c_dependencies c"
proof -
  assume b: "Build ops order c = (c', r)"
  obtain c1 r1 where run: "build_loop ops order None c = (c1, r1)" by force
  with b build_loop_frame [OF run] show ?thesis by (auto simp: Build_def split: if_splits go.splits)
qed

lemma di_typed_bindings:
  assumes "di_typed ops c" and "c_dependencies c k = Some dep"
  shows "\<exists>ty. getTypeName ty = k \<and> dot_free ty \<and> sv_implements ops (dep_service dep) ty"
  using assms
proof (induction arbitrary: k dep rule: di_typed.induct)
  case typed_New
  then show ?case by (simp add: di_New_def)
next
  case (typed_register c inst ty c' r)
  show ?case
  proof (cases "r = Ok ()")
    case True
    with typed_register.hyps register_Ok [of ops ty inst c c'] obtain f where
      "c_dependencies c' = (c_dependencies c)(getTypeName ty \<mapsto> \<lparr>dep_service = inst, dep_injected = f\<rparr>)" by blast
    with typed_register show ?thesis by (auto split: if_splits)
  next
    case False
    with typed_register register_failed [of ops ty inst c c' r] show ?thesis by simp
  qed
next
  case (typed_Build c order c' r)
  with Build_dependencies [of ops order c c' r] show ?case by simp
qed

lemma getTypeName_unnamed: "getTypeName (TUnnamed d) = ''.''" "getTypeName (TPtr (TPtr t)) = ''.''" "getTypeName (TPtr (TUnnamed d)) = ''.''"
  by (simp_all add: getTypeName_def)

lemma getTypeName_named:
  assumes "getTypeName ty = getTypeName (TNamed p n)" and "dot_free ty" and "CHR ''.'' \<notin> set n" and "n \<noteq> []"
  shows "ty = TNamed p n \<or> ty = TPtr (TNamed p n)"
proof -
  have other: "getTypeName (TNamed p n) \<noteq> ''.''"
    using assms(4) by (cases p) (auto simp: getTypeName_def)
  show ?thesis
  proof (cases ty)
    case (TNamed p' n')
    with assms getTypeName_inj [of n' n p' p] show ?thesis by simp
  next
    case (TPtr t)
    with assms other getTypeName_inj [of _ n _ p] show ?thesis
      by (cases t) (auto simp: getTypeName_pointer getTypeName_unnamed)
  next
    case (TUnnamed d)
    with assms(1) other show ?thesis by (simp add: getTypeName_unnamed)
  qed
qed

lemma di_typed_resolve:
  assumes "di_typed ops c" and "resolve c (TNamed p n) = Ok inst" and "CHR ''.'' \<notin> set n" and "n \<noteq> []"
  shows "sv_implements ops inst (TNamed p n) \<or> sv_implements ops inst (TPtr (TNamed p n))"
proof -
  obtain dep where "c_dependencies c (getTypeName (TNamed p n)) = Some dep" "dep_service dep = inst"
    using assms(2) by (auto simp: resolve_def getDependency_def split: option.splits)
  with di_typed_bindings [OF assms(1)] getTypeName_named [OF _ _ assms(3,4)] show ?thesis by metis
qed

end
