(* ===== verification/Grpc.thy ===== *)
theory Grpc
  imports Di_Container
begin

section \<open>gRPC servers and clients (pkg/grpc)\<close>

text \<open>
  The manager of a server collects services and interceptors until \<^verbatim>\<open>Initialize\<close> builds the
  \<^verbatim>\<open>grpc.Server\<close>; the manager of the clients opens one connection per registration and puts the client
  built on it into the dependency container.  The library \<^verbatim>\<open>google.golang.org/grpc\<close> is a parameter
  where a call of it can fail.  An interceptor is modelled by what it does to a handler; the
  requests counted by the metrics are a list in the state.
\<close>

subsection \<open>Interceptors\<close>

text \<open>A handler turns a state into a new state and a response with an error, or panics.\<close>

type_synonym ('s, 'r) handler = "'s \<Rightarrow> 's \<times> ('r option \<times> gerror) go"

definition ErrInternal :: gerr where "ErrInternal = Sentinel ''internal server error''"

text \<open>\<open>inc\<close> adds a request with its status to the metrics of the state.\<close>

definition MetricsUnaryInterceptor :: "(gerror \<Rightarrow> 's \<Rightarrow> 's) \<Rightarrow> ('s, 'r) handler \<Rightarrow> ('s, 'r) handler" where
  "MetricsUnaryInterceptor inc handler s =
     (case handler s of
        (s', Ok (resp, err)) \<Rightarrow> (inc err s', Ok (resp, err))
      | (s', Err e) \<Rightarrow> (s', Err e)
      | (s', Panic p) \<Rightarrow> (s', Panic p))"

definition RecoveryUnaryInterceptor :: "('s, 'r) handler \<Rightarrow> ('s, 'r) handler" where
  "RecoveryUnaryInterceptor handler s =
     (case handler s of
        (s', Panic p) \<Rightarrow> (s', Ok (None, Some ErrInternal))
      | r \<Rightarrow> r)"

datatype ('s, 'r) interceptor = IRecovery | IMetrics | ICustom "('s, 'r) handler \<Rightarrow> ('s, 'r) handler"

fun apply_interceptor ::
    "(gerror \<Rightarrow> 's \<Rightarrow> 's) \<Rightarrow> ('s, 'r) interceptor \<Rightarrow> ('s, 'r) handler \<Rightarrow> ('s, 'r) handler" where
  "apply_interceptor inc IRecovery h = RecoveryUnaryInterceptor h"
| "apply_interceptor inc IMetrics h = MetricsUnaryInterceptor inc h"
| "apply_interceptor inc (ICustom f) h = f h"

subsection \<open>The server manager (server/server.go)\<close>

record grpc_config =
  gcfg_Addr :: string
  gcfg_MaxRecvMsgSize :: int
  gcfg_MaxSendMsgSize :: int
  gcfg_ConnectionTimeout :: int
  gcfg_KeepAliveTime :: int
  gcfg_KeepAliveTimeout :: int

text \<open>The \<^verbatim>\<open>grpc.Server\<close>: its chains, what was registered on it, and whether it is stopped.\<close>

record ('s, 'r) grpc_server =
  gsv_unaryChain :: "('s, 'r) interceptor list"
  gsv_streamChain :: "('s, 'r) interceptor list"
  gsv_config :: grpc_config
  gsv_services :: "string list"
  gsv_stopped :: bool

record ('s, 'r) server_manager =
  sm_cfg :: grpc_config
  sm_addr :: string
  sm_listener :: bool
  sm_grpc :: "('s, 'r) grpc_server option"
  sm_health :: "bool option"            \<comment> \<open>the overall status: \<^verbatim>\<open>SERVING\<close> or not\<close>
  sm_registrations :: "string list"
  sm_unary :: "('s, 'r) interceptor list"
  sm_stream :: "('s, 'r) interceptor list"
  sm_publicServices :: "nat set"        \<comment> \<open>addresses of the services' structures\<close>

definition server_New :: "grpc_config \<Rightarrow> ('s, 'r) server_manager" where
  "server_New cfg =
     \<lparr>sm_cfg = cfg, sm_addr = gcfg_Addr cfg, sm_listener = False, sm_grpc = None, sm_health = None,
      sm_registrations = [], sm_unary = [], sm_stream = [], sm_publicServices = {}\<rparr>"

definition ServicesCount :: "('s, 'r) server_manager \<Rightarrow> nat" where
  "ServicesCount m = length (sm_registrations m)"

definition AddUnaryInterceptor ::
    "('s, 'r) interceptor \<Rightarrow> ('s, 'r) server_manager \<Rightarrow> ('s, 'r) server_manager" where
  "AddUnaryInterceptor i m = m\<lparr>sm_unary := sm_unary m @ [i]\<rparr>"

definition AddStreamInterceptor ::
    "('s, 'r) interceptor \<Rightarrow> ('s, 'r) server_manager \<Rightarrow> ('s, 'r) server_manager" where
  "AddStreamInterceptor i m = m\<lparr>sm_stream := sm_stream m @ [i]\<rparr>"

definition AddService :: "string \<Rightarrow> ('s, 'r) server_manager \<Rightarrow> ('s, 'r) server_manager" where
  "AddService reg m = m\<lparr>sm_registrations := sm_registrations m @ [reg]\<rparr>"

definition server_Initialize :: "('s, 'r) server_manager \<Rightarrow> ('s, 'r) server_manager \<times> gerror" where
  "server_Initialize m =
     (m\<lparr>sm_grpc := Some \<lparr>gsv_unaryChain = [IRecovery, IMetrics] @ sm_unary m,
                         gsv_streamChain = [IRecovery, IMetrics] @ sm_stream m,
                         gsv_config = sm_cfg m,
                         gsv_services = ''grpc.health.v1.Health'' # sm_registrations m,
                         gsv_stopped = False\<rparr>,
        sm_health := Some True\<rparr>, None)"

text \<open>\<open>listen_err\<close> is the result of \<^verbatim>\<open>net.Listen\<close>.\<close>

definition server_Start :: "gerror \<Rightarrow> ('s, 'r) server_manager \<Rightarrow> ('s, 'r) server_manager \<times> gerror" where
  "server_Start listen_err m =
     (case listen_err of
        Some err \<Rightarrow> (m, Some (Wrapped (''failed to listen on '' @ sm_addr m) err))
      | None \<Rightarrow> (m\<lparr>sm_listener := True\<rparr>, None))"

text \<open>
  \<^verbatim>\<open>GracefulStop\<close> in a goroutine, \<^verbatim>\<open>Stop\<close> after ten seconds: either way the server is stopped.  Both are
  methods of a nil pointer when the manager was not initialised.
\<close>

definition server_Stop :: "('s, 'r) server_manager \<Rightarrow> (('s, 'r) server_manager \<times> gerror) go" where
  "server_Stop m =
     (let m = m\<lparr>sm_health := map_option (\<lambda>_. False) (sm_health m)\<rparr> in
      case sm_grpc m of
        None \<Rightarrow> Panic ''nil pointer dereference''
      | Some g \<Rightarrow> Ok (m\<lparr>sm_grpc := Some (g\<lparr>gsv_stopped := True\<rparr>)\<rparr>, None))"

definition server_HealthCheck :: "('s, 'r) server_manager \<Rightarrow> gerror" where
  "server_HealthCheck m =
     (if sm_grpc m = None then Some (Sentinel ''gRPC server not initialized'')
      else if \<not> sm_listener m then Some (Sentinel ''gRPC server not started'')
      else None)"

definition MarkPublicService :: "nat \<Rightarrow> ('s, 'r) server_manager \<Rightarrow> ('s, 'r) server_manager" where
  "MarkPublicService srv m = m\<lparr>sm_publicServices := insert srv (sm_publicServices m)\<rparr>"

definition CheckPublicServer :: "nat \<Rightarrow> ('s, 'r) server_manager \<Rightarrow> bool" where
  "CheckPublicServer srv m = (srv \<in> sm_publicServices m)"

subsection \<open>The client manager (client/client.go)\<close>

text \<open>A registration: the service, the type it is registered under, and the client built on a connection.\<close>

record 's client_registration =
  rg_serviceName :: string
  rg_type :: gotype
  rg_build :: "string \<Rightarrow> 's"           \<comment> \<open>from the address of the connection\<close>

record client_config =
  ccf_Address :: string
  ccf_Timeout :: int
  ccf_MaxRecvMsgSize :: int
  ccf_MaxSendMsgSize :: int
  ccf_KeepAliveTime :: int
  ccf_KeepAliveTimeout :: int

record 's client_manager =
  clm_connections :: "string \<rightharpoonup> string"    \<comment> \<open>service to the address of its connection\<close>
  clm_registrations :: "'s client_registration list"

definition NewManager :: "'s client_manager" where
  "NewManager = \<lparr>clm_connections = Map.empty, clm_registrations = []\<rparr>"

text \<open>\<open>ok\<close> tells whether the constructor has the type that the registration asks for.\<close>

definition AddGenericRegistration ::
    "bool \<Rightarrow> 's client_registration \<Rightarrow> 's client_manager \<Rightarrow> 's client_manager go" where
  "AddGenericRegistration ok reg m =
     (if ok then Ok (m\<lparr>clm_registrations := clm_registrations m @ [reg]\<rparr>)
      else Panic ''constructor has the wrong type'')"

fun client_init_loop ::
    "'s svc_ops \<Rightarrow> (string \<Rightarrow> gerror) \<Rightarrow> (string \<Rightarrow> client_config) \<Rightarrow> nat option \<Rightarrow>
       's client_registration list \<Rightarrow> 's client_manager \<Rightarrow> 's di_world \<Rightarrow>
       's client_manager \<times> 's di_world \<times> unit go" where
  "client_init_loop ops dial resolveCfg ctx [] m w = (m, w, Ok ())"
| "client_init_loop ops dial resolveCfg ctx (reg # regs) m w =
     (let cfg = resolveCfg (rg_serviceName reg) in
      if ccf_Address cfg = [] then
        (m, w, Err (Sentinel (''address not configured for service: '' @ rg_serviceName reg)))
      else
        (case dial (ccf_Address cfg) of
           Some err \<Rightarrow>
             (m, w, Err (Wrapped (''failed to create connection for '' @ rg_serviceName reg) err))
         | None \<Rightarrow>
             let m' = m\<lparr>clm_connections := (clm_connections m)(rg_serviceName reg \<mapsto> ccf_Address cfg)\<rparr> in
             case di_RegisterFactory ops ctx (rg_type reg) (\<lambda>_. rg_build reg (ccf_Address cfg)) w of
               (w', Ok _) \<Rightarrow> client_init_loop ops dial resolveCfg ctx regs m' w'
             | (w', Err e) \<Rightarrow> (m', w', Err e)
             | (w', Panic p) \<Rightarrow> (m', w', Panic p)))"

definition client_Initialize ::
    "'s svc_ops \<Rightarrow> (string \<Rightarrow> gerror) \<Rightarrow> (string \<Rightarrow> client_config) \<Rightarrow> nat option \<Rightarrow>
       's client_manager \<Rightarrow> 's di_world \<Rightarrow> 's client_manager \<times> 's di_world \<times> unit go" where
  "client_Initialize ops dial resolveCfg ctx m w =
     client_init_loop ops dial resolveCfg ctx (clm_registrations m) m w"

definition GetConnection :: "'s client_manager \<Rightarrow> string \<Rightarrow> gerr + string" where
  "GetConnection m service =
     (case clm_connections m service of
        None \<Rightarrow> Inl (Sentinel (''connection not found for service: '' @ service))
      | Some conn \<Rightarrow> Inr conn)"

definition client_Close :: "'s client_manager \<Rightarrow> 's client_manager \<times> gerror" where
  "client_Close m = (m\<lparr>clm_connections := Map.empty\<rparr>, None)"

text \<open>\<open>shut\<close> tells which connections are in the state \<^verbatim>\<open>SHUTDOWN\<close>; \<open>order\<close> is that of the map's iteration.\<close>

definition client_HealthCheck :: "(string \<Rightarrow> bool) \<Rightarrow> string list \<Rightarrow> 's client_manager \<Rightarrow> gerror" where
  "client_HealthCheck shut order m =
     map_option (\<lambda>s. Sentinel (''connection to '' @ s @ '' is shutdown''))
       (find (\<lambda>s. case clm_connections m s of None \<Rightarrow> False | Some conn \<Rightarrow> shut conn) order)"

subsection \<open>What the chain does to a handler\<close>

definition server_chain ::
    "(gerror \<Rightarrow> 's \<Rightarrow> 's) \<Rightarrow> ('s, 'r) interceptor list \<Rightarrow> ('s, 'r) handler \<Rightarrow> ('s, 'r) handler" where
  "server_chain inc is h = foldr (apply_interceptor inc) is h"

interpretation unary_chain: handler_chain "server_chain inc" "apply_interceptor inc"
  by unfold_locales (simp_all add: server_chain_def)

lemma RecoveryUnaryInterceptor_no_panic: "snd (RecoveryUnaryInterceptor h s) \<noteq> Panic p"
  by (auto simp: RecoveryUnaryInterceptor_def split: prod.splits go.splits)

lemma initialized_chain:
  "sm_grpc (fst (server_Initialize m)) =
     Some g \<Longrightarrow> gsv_unaryChain g = IRecovery # IMetrics # sm_unary m"
  by (auto simp: server_Initialize_def)

lemma server_chain_recovers:
  "snd (server_chain inc (IRecovery # is) h s) \<noteq> Panic p"
  by (simp add: unary_chain.chain_Cons RecoveryUnaryInterceptor_no_panic)

text \<open>A request whose handler returns is counted once, with its status; one that panics is not.\<close>

lemma server_chain_counts:
  "h s = (s', Ok (resp, err)) \<Longrightarrow>
     server_chain inc [IRecovery, IMetrics] h s = (inc err s', Ok (resp, err))"
  by (simp add: server_chain_def RecoveryUnaryInterceptor_def MetricsUnaryInterceptor_def)

lemma server_chain_panic_uncounted:
  "h s = (s', Panic p) \<Longrightarrow>
     server_chain inc [IRecovery, IMetrics] h s = (s', Ok (None, Some ErrInternal))"
  by (simp add: server_chain_def RecoveryUnaryInterceptor_def MetricsUnaryInterceptor_def)

subsection \<open>Clients in the container\<close>

lemma client_init_loop_connections:
  assumes "client_init_loop ops dial resolveCfg ctx regs m w = (m', w', Ok ())"
  shows "clm_connections m' =
     foldl (\<lambda>cs reg. cs(rg_serviceName reg \<mapsto> ccf_Address (resolveCfg (rg_serviceName reg))))
       (clm_connections m) regs \<and>
     (\<forall>reg \<in> set regs. ccf_Address (resolveCfg (rg_serviceName reg)) \<noteq> [])"
  using assms
proof (induction regs arbitrary: m w)
  case (Cons reg regs)
  let ?a = "ccf_Address (resolveCfg (rg_serviceName reg))"
  let ?m = "m\<lparr>clm_connections := (clm_connections m)(rg_serviceName reg \<mapsto> ?a)\<rparr>"
  have a: "?a \<noteq> []" "dial ?a = None"
    using Cons.prems by (auto simp: Let_def split: if_splits option.splits)
  obtain w1 r1 where r: "di_RegisterFactory ops ctx (rg_type reg) (\<lambda>_. rg_build reg ?a) w = (w1, r1)"
    by force
  with Cons.prems a have "client_init_loop ops dial resolveCfg ctx regs ?m w1 = (m', w', Ok ())"
    by (cases r1) (auto simp: Let_def)
  from Cons.IH [OF this] a show ?case by simp
qed simp

end
