(* ===== verification/Application.thy ===== *)
theory Application
  imports Components Lifecycle Http_Handlers App_Config Grpc
begin

section \<open>The application and its built-in components (application/*.go)\<close>

text \<open>
  An \<^verbatim>\<open>Application\<close> is the record \<open>app\<close>: what has been registered with the closer, the health checks
  and the middleware chain (by name), the dependency containers, and which clients exist.  The
  results of the constructors and calls of the other packages are the record \<open>app_env\<close>, so every
  error path can be taken.  \<open>new\<close> applies the options in order, adds the probes and initialises the
  components in the registry's order; \<open>app_Run\<close> runs them.
\<close>

datatype app_service =
    SvcConfigurer | SvcDB | SvcKafka | SvcRedis | SvcS3 | SvcLocalizer | SvcWorkflow
  | SvcGrpcClient string string        \<comment> \<open>service, address of its connection\<close>
  | SvcUser nat

record app_env =
  ae_conf :: configurer
  ae_ops :: "app_service svc_ops"
  ae_build_order :: "string list"
  ae_NewPostgresManager :: gerror
  ae_DB_is_Manager :: bool
  ae_DB_Connect :: gerror
  ae_DB_Migrate :: gerror
  ae_NewKafkaClient :: gerror
  ae_Kafka_Run :: gerror
  ae_NewRedis :: gerror
  ae_NewS3Client :: gerror
  ae_S3_Ping :: gerror
  ae_GetTracingConfig :: gerror
  ae_InitProvider :: gerror
  ae_LoadTranslations :: gerror
  ae_Listen :: "string \<Rightarrow> gerror"
  ae_Dial :: "string \<Rightarrow> gerror"

type_synonym user_state = unit
type_synonym app_server = "(user_state, unit) server_manager"

record app =
  ap_closers :: "string list"                \<comment> \<open>the closer's list, front first\<close>
  ap_health :: "string list"
  ap_middlewares :: "string list"
  ap_subscribed :: "string list"             \<comment> \<open>subscribers of the configuration\<close>
  ap_di :: "app_service di_world"
  ap_next :: nat                             \<comment> \<open>a container address not in use\<close>
  ap_container :: "nat option"
  ap_DB :: bool                              \<comment> \<open>the field is not nil\<close>
  ap_Kafka :: bool
  ap_Redis :: bool
  ap_S3 :: bool
  ap_Localizer :: bool
  ap_Workflow :: bool                        \<comment> \<open>the builder\<close>
  ap_workflow :: bool
  ap_router :: bool
  ap_httpServer :: bool
  ap_metrics :: bool
  ap_PrivateGrpc :: "app_server option"
  ap_PublicGrpc :: "app_server option"
  ap_GrpcClients :: "app_service client_manager option"
  ap_swagger :: "swagger_manager option"

type_synonym app_components = "app components"

text \<open>An option may change the application and the registry; a nil pointer makes it panic.\<close>

type_synonym app_option = "app \<Rightarrow> app_components \<Rightarrow> (app \<times> app_components \<times> gerror) go"

definition add_closer :: "string \<Rightarrow> app \<Rightarrow> app" where
  "add_closer n a = a\<lparr>ap_closers := n # ap_closers a\<rparr>"

definition add_health :: "string \<Rightarrow> app \<Rightarrow> app" where
  "add_health n a = a\<lparr>ap_health := ap_health a @ [n]\<rparr>"

definition add_middleware :: "string \<Rightarrow> app \<Rightarrow> app" where
  "add_middleware n a = a\<lparr>ap_middlewares := ap_middlewares a @ [n]\<rparr>"

definition app_Subscribe :: "string \<Rightarrow> app \<Rightarrow> app" where
  "app_Subscribe n a = a\<lparr>ap_subscribed := ap_subscribed a @ [n]\<rparr>"

definition app_fail :: "string \<Rightarrow> app \<Rightarrow> app \<times> unit go" where
  "app_fail msg a = (a, Err (Sentinel msg))"

definition app_wrap :: "string \<Rightarrow> gerr \<Rightarrow> app \<Rightarrow> app \<times> unit go" where
  "app_wrap msg err a = (a, Err (Wrapped msg err))"

definition module_path :: string where
  "module_path = ''git.vepay.dev/knoknok/backend-platform/''"

fun service_type :: "app_service \<Rightarrow> gotype" where
  "service_type SvcConfigurer = TNamed (module_path @ ''internal/pkg/config'') ''Configurer''"
| "service_type SvcDB = TNamed (module_path @ ''pkg/db'') ''DbClient''"
| "service_type SvcKafka = TNamed (module_path @ ''pkg/kafka'') ''KafkaClient''"
| "service_type SvcRedis = TNamed (module_path @ ''pkg/redis'') ''Redis''"
| "service_type SvcS3 = TNamed (module_path @ ''pkg/s3client'') ''Client''"
| "service_type SvcLocalizer = TNamed (module_path @ ''internal/pkg/localize/localize'') ''Localizer''"
| "service_type SvcWorkflow = TNamed (module_path @ ''pkg/workflow'') ''Workflow''"
| "service_type (SvcGrpcClient s a) = TNamed s ''Client''"
| "service_type (SvcUser n) = TUnnamed []"

text \<open>\<^verbatim>\<open>di.Register(ctx, ...)\<close> with a context that carries no container.\<close>

definition app_register :: "app_env \<Rightarrow> app_service \<Rightarrow> app \<Rightarrow> app \<times> unit go" where
  "app_register E svc a =
     (case di_Register (ae_ops E) None (service_type svc) svc (ap_di a) of
        (w, r) \<Rightarrow> (a\<lparr>ap_di := w\<rparr>, go_bind r (\<lambda>_. Ok ())))"

subsection \<open>The container component (container.go)\<close>

definition initContainer :: "app_env \<Rightarrow> app \<Rightarrow> app \<times> unit go" where
  "initContainer E a =
     (let p = ap_next a;
          w = ap_di a;
          w = SetGlobal p (w\<lparr>dw_heap := (dw_heap w)(p := di_New)\<rparr>);
          a = a\<lparr>ap_di := w, ap_next := Suc p, ap_container := Some p\<rparr>
      in app_register E SvcConfigurer a)"

definition runContainer :: "app_env \<Rightarrow> app \<Rightarrow> app \<times> unit go" where
  "runContainer E a =
     (case ap_container a of
        None \<Rightarrow> (a, Panic ''nil pointer dereference'')
      | Some p \<Rightarrow>
          (case Build (ae_ops E) (ae_build_order E) (dw_heap (ap_di a) p) of
             (c, r) \<Rightarrow> (a\<lparr>ap_di := (ap_di a)\<lparr>dw_heap := (dw_heap (ap_di a))(p := c)\<rparr>\<rparr>, r)))"

definition containerComponent :: "app_env \<Rightarrow> app component" where
  "containerComponent E = NewComponent ''di'' (initContainer E) (runContainer E)"

subsection \<open>HTTP (http.go, health_check.go)\<close>

definition runHTTP :: "app \<Rightarrow> app \<times> unit go" where
  "runHTTP a =
     (if \<not> ap_router a then app_fail ''http router not defined, use app.RegisterRouter'' a
      else (add_closer ''http'' (a\<lparr>ap_httpServer := True\<rparr>), Ok ()))"

definition httpServer :: "app component" where
  "httpServer = NewComponent ''http'' Noop runHTTP"

definition WithHTTP :: app_option where
  "WithHTTP a cs =
     (case components_add httpServer cs of
        (cs', True) \<Rightarrow> Ok (a, cs', None)
      | (cs', False) \<Rightarrow> Ok (a, cs', Some ErrComponentAlreadyExist))"

definition RegisterRouter :: "bool \<Rightarrow> app \<Rightarrow> app" where
  "RegisterRouter router a = a\<lparr>ap_router := router\<rparr>"

definition addProbes :: "app \<Rightarrow> app_components \<Rightarrow> app \<times> app_components" where
  "addProbes a cs =
     (let a = add_middleware ''liveness'' a; a = add_middleware ''readiness'' a
      in (a, fst (components_add httpServer cs)))"

subsection \<open>The database (db.go)\<close>

definition initPostgresClient :: "app_env \<Rightarrow> app \<Rightarrow> app \<times> unit go" where
  "initPostgresClient E a =
     (case ae_NewPostgresManager E of
        Some err \<Rightarrow> (a, Err err)
      | None \<Rightarrow> app_register E SvcDB (a\<lparr>ap_DB := True\<rparr>))"

definition runPostgresClient :: "app_env \<Rightarrow> app \<Rightarrow> app \<times> unit go" where
  "runPostgresClient E a =
     (if \<not> ap_DB a then app_fail ''db.Client not initialized'' a
      else if \<not> ae_DB_is_Manager E then app_fail ''failed to cast app.DB to db.Manager'' a
      else case ae_DB_Connect E of
        Some err \<Rightarrow> (a, Err err)
      | None \<Rightarrow>
          (case ae_DB_Migrate E of
             Some err \<Rightarrow> (a, Err err)
           | None \<Rightarrow> (add_health ''postgres'' (add_closer ''postgres'' a), Ok ())))"

definition dbComponent :: "app_env \<Rightarrow> app component" where
  "dbComponent E = NewComponent ''postgres'' (initPostgresClient E) (runPostgresClient E)"

definition WithDB :: "app_env \<Rightarrow> app_option" where
  "WithDB E a cs = Ok (a, fst (components_addFirst (dbComponent E) cs), None)"

subsection \<open>Kafka, Redis, S3 (kafka.go, redis.go, s3.go)\<close>

definition initKafkaClient :: "app_env \<Rightarrow> app \<Rightarrow> app \<times> unit go" where
  "initKafkaClient E a =
     (case ae_NewKafkaClient E of
        Some err \<Rightarrow> (a, Err err)
      | None \<Rightarrow>
          let a = add_closer ''kafka'' a; a = add_health ''kafka'' a; a = a\<lparr>ap_Kafka := True\<rparr>
          in app_register E SvcKafka a)"

definition runKafkaClient :: "app_env \<Rightarrow> app \<Rightarrow> app \<times> unit go" where
  "runKafkaClient E a =
     (if \<not> ap_Kafka a then app_fail ''kafkaClient not initialized'' a
      else (a, go_of_error (ae_Kafka_Run E)))"

definition WithKafka :: "app_env \<Rightarrow> app_option" where
  "WithKafka E a cs =
     Ok (a, fst (components_add (NewComponent ''kafka'' (initKafkaClient E) (runKafkaClient E)) cs), None)"

definition initRedisClient :: "app_env \<Rightarrow> app \<Rightarrow> app \<times> unit go" where
  "initRedisClient E a =
     (case ae_NewRedis E of
        Some err \<Rightarrow> (a, Err err)
      | None \<Rightarrow>
          let a = add_closer ''redis'' a; a = add_health ''redis'' a; a = a\<lparr>ap_Redis := True\<rparr>
          in app_register E SvcRedis a)"

definition WithRedis :: "app_env \<Rightarrow> app_option" where
  "WithRedis E a cs =
     Ok (a, fst (components_add (NewComponent ''redis'' (initRedisClient E) Noop) cs), None)"

definition initS3Client :: "app_env \<Rightarrow> app \<Rightarrow> app \<times> unit go" where
  "initS3Client E a =
     (case ae_NewS3Client E of
        Some err \<Rightarrow> (a, Err err)
      | None \<Rightarrow>
          let a = add_closer ''S3'' a; a = add_health ''s3'' a; a = app_Subscribe ''S3'' a;
              a = a\<lparr>ap_S3 := True\<rparr>
          in app_register E SvcS3 a)"

definition runS3Client :: "app_env \<Rightarrow> app \<Rightarrow> app \<times> unit go" where
  "runS3Client E a =
     (if \<not> ap_S3 a then app_fail ''S3 client not initialized'' a
      else (a, go_of_error (ae_S3_Ping E)))"

definition WithS3 :: "app_env \<Rightarrow> app_option" where
  "WithS3 E a cs =
     Ok (a, fst (components_add (NewComponent ''s3'' (initS3Client E) (runS3Client E)) cs), None)"

subsection \<open>Localisation, metrics, tracing, workflow (localize.go, metrics.go, trace.go, workflow.go)\<close>

text \<open>Errors of the translation service are logged; only the local file must load.\<close>

definition initLocalizeTolgee :: "app \<Rightarrow> app" where
  "initLocalizeTolgee a = add_closer ''translations'' (app_Subscribe ''tolgee'' a)"

definition initLocalizeClient :: "app_env \<Rightarrow> app \<Rightarrow> app \<times> unit go" where
  "initLocalizeClient E a =
     (case ae_LoadTranslations E of
        Some err \<Rightarrow> app_wrap ''failed to bootstrap translations'' err a
      | None \<Rightarrow>
          (case app_register E SvcLocalizer (a\<lparr>ap_Localizer := True\<rparr>) of
             (a', Ok _) \<Rightarrow> (initLocalizeTolgee a', Ok ())
           | r \<Rightarrow> r))"

definition WithLocalize :: "app_env \<Rightarrow> app_option" where
  "WithLocalize E a cs =
     Ok (a, fst (components_add (NewComponent ''localize'' (initLocalizeClient E) Noop) cs), None)"

definition initMetrics :: "app \<Rightarrow> app \<times> unit go" where
  "initMetrics a = (a\<lparr>ap_metrics := True\<rparr>, Ok ())"

definition runMetrics :: "app \<Rightarrow> app \<times> unit go" where
  "runMetrics a = (add_closer ''metrics'' a, Ok ())"

definition WithMetrics :: app_option where
  "WithMetrics a cs =
     Ok (a, fst (components_add (NewComponent ''metrics'' initMetrics runMetrics) cs), None)"

definition initTrace :: "app_env \<Rightarrow> app \<Rightarrow> app \<times> unit go" where
  "initTrace E a =
     (case ae_GetTracingConfig E of
        Some err \<Rightarrow> (a, Err err)
      | None \<Rightarrow>
          (case ae_InitProvider E of
             Some err \<Rightarrow> (a, Err err)
           | None \<Rightarrow> (add_closer ''trace'' a, Ok ())))"

definition WithTrace :: "app_env \<Rightarrow> app_option" where
  "WithTrace E a cs =
     Ok (a, fst (components_add (NewComponent ''trace'' (initTrace E) Noop) cs), None)"

definition initWorkflow :: "app \<Rightarrow> app \<times> unit go" where
  "initWorkflow a = (a\<lparr>ap_Workflow := True\<rparr>, Ok ())"

definition runWorkflow :: "app_env \<Rightarrow> app \<Rightarrow> app \<times> unit go" where
  "runWorkflow E a =
     (if \<not> ap_Workflow a then app_fail ''workflow is not initialized'' a
      else
        let a = a\<lparr>ap_workflow := True\<rparr>; a = add_health ''workflow'' a; a = add_closer ''workflow'' a
        in app_register E SvcWorkflow a)"

definition WithWorkflow :: "app_env \<Rightarrow> app_option" where
  "WithWorkflow E a cs =
     Ok (a, fst (components_add (NewComponent ''workflow'' initWorkflow (runWorkflow E)) cs), None)"


subsection \<open>gRPC (grpc_server_private.go, grpc_server_public.go, grpc_client.go)\<close>

definition server_config_of :: "grpc_server_config \<Rightarrow> grpc_config" where
  "server_config_of cfg =
     \<lparr>gcfg_Addr = grpc_GetAddr cfg, gcfg_MaxRecvMsgSize = gs_MaxRecvMsgSize cfg,
      gcfg_MaxSendMsgSize = gs_MaxSendMsgSize cfg, gcfg_ConnectionTimeout = gs_ConnectionTimeout cfg,
      gcfg_KeepAliveTime = gs_KeepAliveTime cfg, gcfg_KeepAliveTimeout = gs_KeepAliveTimeout cfg\<rparr>"

definition addPrivateGrpcServer :: "app_env \<Rightarrow> app \<Rightarrow> app" where
  "addPrivateGrpcServer E a =
     (case ap_PrivateGrpc a of
        Some m \<Rightarrow> a
      | None \<Rightarrow>
          a\<lparr>ap_PrivateGrpc := Some (server_New (server_config_of (GetGrpcPrivateServerConfig (ae_conf E))))\<rparr>)"

definition initPrivateGrpcServer :: "app \<Rightarrow> app \<times> unit go" where
  "initPrivateGrpcServer a =
     (case ap_PrivateGrpc a of
        None \<Rightarrow> app_fail ''private gRPC server not configured (no services were registered)'' a
      | Some m \<Rightarrow>
          if (case ap_PublicGrpc a of None \<Rightarrow> False | Some m' \<Rightarrow> sm_addr m' = sm_addr m) then
            app_fail ''private/public gRPC servers must listen on different addresses'' a
          else
            (case server_Initialize m of
               (m', Some err) \<Rightarrow> app_wrap ''failed to initialize private gRPC server'' err a
             | (m', None) \<Rightarrow> (add_closer ''grpc-server-private'' (a\<lparr>ap_PrivateGrpc := Some m'\<rparr>), Ok ())))"

definition runPrivateGrpcServer :: "app_env \<Rightarrow> app \<Rightarrow> app \<times> unit go" where
  "runPrivateGrpcServer E a =
     (case ap_PrivateGrpc a of
        None \<Rightarrow> app_fail ''private gRPC server not initialized'' a
      | Some m \<Rightarrow>
          (case server_Start (ae_Listen E (sm_addr m)) m of
             (m', Some err) \<Rightarrow> app_wrap ''failed to start private gRPC server'' err (a\<lparr>ap_PrivateGrpc := Some m'\<rparr>)
           | (m', None) \<Rightarrow> (add_health ''grpc-server-private'' (a\<lparr>ap_PrivateGrpc := Some m'\<rparr>), Ok ())))"

definition grpcPrivateServerComponent :: "app_env \<Rightarrow> app component" where
  "grpcPrivateServerComponent E =
     NewComponent ''grpc-private-server'' initPrivateGrpcServer (runPrivateGrpcServer E)"

text \<open>\<open>reg\<close> names the registration function, \<open>inst\<close> is the address of the service's structure.\<close>

definition WithPrivateGrpcServer :: "app_env \<Rightarrow> string \<Rightarrow> nat \<Rightarrow> app_option" where
  "WithPrivateGrpcServer E reg inst a cs =
     (let cs = fst (components_add (grpcPrivateServerComponent E) cs);
          a = addPrivateGrpcServer E a
      in case ap_PrivateGrpc a of
           None \<Rightarrow> Panic ''nil pointer dereference''
         | Some m \<Rightarrow> Ok (a\<lparr>ap_PrivateGrpc := Some (AddService reg m)\<rparr>, cs, None))"

definition WithPrivateGrpcUnaryInterceptor :: "(user_state, unit) interceptor \<Rightarrow> app_option" where
  "WithPrivateGrpcUnaryInterceptor i a cs =
     (case ap_PrivateGrpc a of
        None \<Rightarrow> Panic ''nil pointer dereference''
      | Some m \<Rightarrow> Ok (a\<lparr>ap_PrivateGrpc := Some (AddUnaryInterceptor i m)\<rparr>, cs, None))"

definition WithPrivateGrpcStreamInterceptor :: "(user_state, unit) interceptor \<Rightarrow> app_option" where
  "WithPrivateGrpcStreamInterceptor i a cs =
     (case ap_PrivateGrpc a of
        None \<Rightarrow> Panic ''nil pointer dereference''
      | Some m \<Rightarrow> Ok (a\<lparr>ap_PrivateGrpc := Some (AddStreamInterceptor i m)\<rparr>, cs, None))"

definition addPublicGrpcServer :: "app_env \<Rightarrow> app \<Rightarrow> app" where
  "addPublicGrpcServer E a =
     (case ap_PublicGrpc a of
        Some m \<Rightarrow> a
      | None \<Rightarrow>
          a\<lparr>ap_PublicGrpc := Some (server_New (server_config_of (GetGrpcPublicServerConfig (ae_conf E))))\<rparr>)"

definition initPublicGrpcServer :: "app \<Rightarrow> app \<times> unit go" where
  "initPublicGrpcServer a =
     (case ap_PublicGrpc a of
        None \<Rightarrow> app_fail ''public gRPC server not configured (no services were registered)'' a
      | Some m \<Rightarrow>
          if (case ap_PrivateGrpc a of None \<Rightarrow> False | Some m' \<Rightarrow> sm_addr m' = sm_addr m) then
            app_fail ''private/public gRPC servers must listen on different addresses'' a
          else
            (case server_Initialize m of
               (m', Some err) \<Rightarrow> app_wrap ''failed to initialize public gRPC server'' err a
             | (m', None) \<Rightarrow> (add_closer ''grpc-server-public'' (a\<lparr>ap_PublicGrpc := Some m'\<rparr>), Ok ())))"

definition runPublicGrpcServer :: "app_env \<Rightarrow> app \<Rightarrow> app \<times> unit go" where
  "runPublicGrpcServer E a =
     (case ap_PublicGrpc a of
        None \<Rightarrow> app_fail ''public gRPC server not initialized'' a
      | Some m \<Rightarrow>
          (case server_Start (ae_Listen E (sm_addr m)) m of
             (m', Some err) \<Rightarrow> app_wrap ''failed to start public gRPC server'' err (a\<lparr>ap_PublicGrpc := Some m'\<rparr>)
           | (m', None) \<Rightarrow> (add_health ''grpc-server-public'' (a\<lparr>ap_PublicGrpc := Some m'\<rparr>), Ok ())))"

definition grpcPublicServerComponent :: "app_env \<Rightarrow> app component" where
  "grpcPublicServerComponent E =
     NewComponent ''grpc-public-server'' initPublicGrpcServer (runPublicGrpcServer E)"

text \<open>\<open>reg\<close> names the registration function, \<open>inst\<close> is the address of the service's structure.\<close>

definition WithPublicGrpcServer :: "app_env \<Rightarrow> string \<Rightarrow> nat \<Rightarrow> app_option" where
  "WithPublicGrpcServer E reg inst a cs =
     (let cs = fst (components_add (grpcPublicServerComponent E) cs);
          a = addPublicGrpcServer E a
      in case ap_PublicGrpc a of
           None \<Rightarrow> Panic ''nil pointer dereference''
         | Some m \<Rightarrow> Ok (a\<lparr>ap_PublicGrpc := Some (AddService reg (MarkPublicService inst m))\<rparr>, cs, None))"

definition WithPublicGrpcUnaryInterceptor :: "(user_state, unit) interceptor \<Rightarrow> app_option" where
  "WithPublicGrpcUnaryInterceptor i a cs =
     (case ap_PublicGrpc a of
        None \<Rightarrow> Panic ''nil pointer dereference''
      | Some m \<Rightarrow> Ok (a\<lparr>ap_PublicGrpc := Some (AddUnaryInterceptor i m)\<rparr>, cs, None))"

definition WithPublicGrpcStreamInterceptor :: "(user_state, unit) interceptor \<Rightarrow> app_option" where
  "WithPublicGrpcStreamInterceptor i a cs =
     (case ap_PublicGrpc a of
        None \<Rightarrow> Panic ''nil pointer dereference''
      | Some m \<Rightarrow> Ok (a\<lparr>ap_PublicGrpc := Some (AddStreamInterceptor i m)\<rparr>, cs, None))"


definition client_config_of :: "grpc_client_config \<Rightarrow> client_config" where
  "client_config_of cfg =
     \<lparr>ccf_Address = gc_Address cfg, ccf_Timeout = gc_Timeout cfg,
      ccf_MaxRecvMsgSize = gc_MaxRecvMsgSize cfg, ccf_MaxSendMsgSize = gc_MaxSendMsgSize cfg,
      ccf_KeepAliveTime = gc_KeepAliveTime cfg, ccf_KeepAliveTimeout = gc_KeepAliveTimeout cfg\<rparr>"

definition initGrpcClient :: "app_env \<Rightarrow> app \<Rightarrow> app \<times> unit go" where
  "initGrpcClient E a =
     (case ap_GrpcClients a of
        None \<Rightarrow> app_fail ''gRPC client manager not created'' a
      | Some m \<Rightarrow>
          (case client_Initialize (ae_ops E) (ae_Dial E)
                  (\<lambda>serviceName. client_config_of (GetGrpcClientConfig (ae_conf E) serviceName))
                  None m (ap_di a) of
             (m', w, r) \<Rightarrow>
               let a = a\<lparr>ap_GrpcClients := Some m', ap_di := w\<rparr> in
               case r of
                 Err err \<Rightarrow> app_wrap ''failed to initialize gRPC clients'' err a
               | Panic p \<Rightarrow> (a, Panic p)
               | Ok _ \<Rightarrow> (add_closer ''grpc-clients'' (add_health ''grpc-clients'' a), Ok ())))"

definition WithGrpcClient :: "app_env \<Rightarrow> bool \<Rightarrow> app_service client_registration \<Rightarrow> app_option" where
  "WithGrpcClient E ok reg a cs =
     (let (a, cs) = (case ap_GrpcClients a of
            Some m \<Rightarrow> (a, cs)
          | None \<Rightarrow> (a\<lparr>ap_GrpcClients := Some NewManager\<rparr>,
                     fst (components_add (NewComponent ''grpc-client'' (initGrpcClient E) Noop) cs)))
      in case ap_GrpcClients a of
           None \<Rightarrow> Panic ''nil pointer dereference''
         | Some m \<Rightarrow>
             go_bind (AddGenericRegistration ok reg m)
               (\<lambda>m'. Ok (a\<lparr>ap_GrpcClients := Some m'\<rparr>, cs, None)))"

subsection \<open>Swagger (swagger.go)\<close>

definition initSwagger :: "app \<Rightarrow> app \<times> unit go" where
  "initSwagger a =
     (case ap_swagger a of
        None \<Rightarrow> (a, Panic ''nil pointer dereference'')
      | Some m \<Rightarrow>
          (case non_nil (sg_regs m) of
             err # _ \<Rightarrow> app_wrap ''swagger init failed'' err a
           | [] \<Rightarrow> (add_middleware ''swagger'' a, Ok ())))"

definition WithSwagger :: "string \<Rightarrow> app_option" where
  "WithSwagger spec a cs =
     Ok (a\<lparr>ap_swagger := Some (swagger_New spec)\<rparr>,
         fst (components_add (NewComponent ''swagger'' initSwagger Noop) cs), None)"

text \<open>\<open>reg\<close> is what the registrar made of the arguments returns, \<open>srv\<close> the address of the service.\<close>

definition WithPublicSwaggerGateway :: "gerror \<Rightarrow> nat \<Rightarrow> app_option" where
  "WithPublicSwaggerGateway reg srv a cs =
     (case ap_swagger a of
        None \<Rightarrow> Ok (a, cs, Some (Sentinel ''call WithSwagger() before adding gateway registrars''))
      | Some sw \<Rightarrow>
          (case ap_PublicGrpc a of
             None \<Rightarrow> Ok (a, cs, Some (Sentinel ''public gRPC server is not configured''))
           | Some m \<Rightarrow>
               if \<not> CheckPublicServer srv m then Ok (a, cs, None)
               else Ok (a\<lparr>ap_swagger := Some (swagger_Add reg sw)\<rparr>, cs, None)))"

definition WithSwaggerGatewayServer :: "gerror \<Rightarrow> nat \<Rightarrow> app_option" where
  "WithSwaggerGatewayServer reg srv a cs =
     (case ap_swagger a of
        None \<Rightarrow> Ok (a, cs, Some (Sentinel ''call WithSwagger() before adding gateway registrars''))
      | Some sw \<Rightarrow> Ok (a\<lparr>ap_swagger := Some (swagger_Add reg sw)\<rparr>, cs, None))"

definition With_Component :: "string \<Rightarrow> app component_func \<Rightarrow> app component_func \<Rightarrow> app_option" where
  "With_Component name i r a cs =
     (case WithComponent name i r cs of (cs', e) \<Rightarrow> Ok (a, cs', e))"

subsection \<open>Creation and run (application.go, config_watcher.go)\<close>

text \<open>A new process: no container is global, \<open>heap\<close> is arbitrary.\<close>

definition empty_app :: "app_service di_world \<Rightarrow> nat \<Rightarrow> app" where
  "empty_app w p =
     \<lparr>ap_closers = [], ap_health = [], ap_middlewares = [], ap_subscribed = [], ap_di = w, ap_next = p,
      ap_container = None, ap_DB = False, ap_Kafka = False, ap_Redis = False, ap_S3 = False,
      ap_Localizer = False, ap_Workflow = False, ap_workflow = False, ap_router = True,
      ap_httpServer = False, ap_metrics = False, ap_PrivateGrpc = None, ap_PublicGrpc = None,
      ap_GrpcClients = None, ap_swagger = None\<rparr>"

definition initConfig :: "app \<Rightarrow> app" where
  "initConfig a = add_closer ''config'' a"

fun apply_app_options :: "app_option list \<Rightarrow> app \<Rightarrow> app_components \<Rightarrow> (app \<times> app_components \<times> gerror) go" where
  "apply_app_options [] a cs = Ok (a, cs, None)"
| "apply_app_options (c # components) a cs =
     go_bind (c a cs) (\<lambda>(a, cs, err).
       case err of
         Some e \<Rightarrow> Ok (a, cs, Some e)
       | None \<Rightarrow> apply_app_options components a cs)"

definition app_new ::
    "app_env \<Rightarrow> app_option list \<Rightarrow> app_service di_world \<Rightarrow> nat \<Rightarrow> (app \<times> app_components) \<times> unit go" where
  "app_new E components w p =
     (let a = empty_app w p;
          cs = fst (components_add (containerComponent E) newComponents)
      in case apply_app_options components a cs of
           Panic m \<Rightarrow> ((a, cs), Panic m)
         | Err e \<Rightarrow> ((a, cs), Err e)
         | Ok (a, cs, Some err) \<Rightarrow> ((a, cs), Err err)
         | Ok (a, cs, None) \<Rightarrow>
             let (a, cs) = addProbes a cs; a = initConfig a in
             case components_init cs a of (a', r) \<Rightarrow> ((a', cs), r))"

definition app_Run :: "app \<times> app_components \<Rightarrow> (app \<times> app_components) \<times> unit go" where
  "app_Run ac = (case components_run (snd ac) (fst ac) of (a', r) \<Rightarrow> ((a', snd ac), r))"

end
