(* ===== verification/Application_Start.thy ===== *)
theory Application_Start
  imports Application
begin

section \<open>Starting an application\<close>

text \<open>
  Which registries the options build and what the initialisation of the components leaves behind:
  with any selection of the optional components, in any order, a working environment gives an
  application whose container holds exactly the selected clients; with the database component, whose
  initialisation comes before that of the container, a fresh process panics.
\<close>

subsection \<open>Services and keys\<close>

definition service_key :: "app_service \<Rightarrow> string" where
  "service_key s = getTypeName (service_type s)"

definition platform :: "app_service set" where
  "platform = {SvcConfigurer, SvcDB, SvcKafka, SvcRedis, SvcS3, SvcLocalizer, SvcWorkflow}"

lemma service_key_inj: "s \<in> platform \<Longrightarrow> t \<in> platform \<Longrightarrow> service_key s = service_key t \<longleftrightarrow> s = t"
  unfolding platform_def service_key_def
  by (elim insertE emptyE; simp add: getTypeName_def module_path_def)

definition plain_services :: "app_env \<Rightarrow> bool" where
  "plain_services E \<longleftrightarrow>
     (\<forall>s \<in> platform. sv_is_ptr (ae_ops E) s \<and> sv_method (ae_ops E) s = None)"

text \<open>Everything the components call succeeds.\<close>

definition healthy_env :: "app_env \<Rightarrow> bool" where
  "healthy_env E \<longleftrightarrow> plain_services E \<and> ae_NewPostgresManager E = None \<and> ae_NewKafkaClient E = None \<and>
     ae_NewRedis E = None \<and> ae_NewS3Client E = None \<and> ae_GetTracingConfig E = None \<and>
     ae_InitProvider E = None \<and> ae_LoadTranslations E = None"

text \<open>The bindings of the global container.\<close>

definition bindings_of :: "app \<Rightarrow> (string \<rightharpoonup> app_service dependency) option" where
  "bindings_of a = map_option (\<lambda>p. c_dependencies (dw_heap (ap_di a) p)) (dw_global (ap_di a))"

lemma app_register_new:
  assumes "plain_services E" and "s \<in> platform" and "bindings_of a = Some d" and "d (service_key s) = None"
  shows "\<exists>a'. app_register E s a = (a', Ok ()) \<and>
    bindings_of a' = Some (d(service_key s \<mapsto> \<lparr>dep_service = s, dep_injected = True\<rparr>)) \<and>
    a' = a\<lparr>ap_di := ap_di a'\<rparr>"
proof -
  obtain p where p: "dw_global (ap_di a) = Some p" and d: "c_dependencies (dw_heap (ap_di a) p) = d"
    using assms(3) by (auto simp: bindings_of_def)
  let ?c = "dw_heap (ap_di a) p"
  have i: "inject (ae_ops E) s ?c = (?c, Ok ())"
    using assms(1,2) by (simp add: inject_def plain_services_def)
  have "register (ae_ops E) (service_type s) s ?c = (bind_dependency (service_key s) s True ?c, Ok ())"
    using assms(4) i d by (simp add: register_def exist_def service_key_def Let_def)
  then have "app_register E s a =
      (a\<lparr>ap_di := (ap_di a)\<lparr>dw_heap := (dw_heap (ap_di a))(p := bind_dependency (service_key s) s True ?c)\<rparr>\<rparr>, Ok ())"
    by (simp add: app_register_def di_Register_def getContainer_def p)
  then show ?thesis by (simp add: bindings_of_def p d frame_simps)
qed

lemma app_register_no_container:
  "dw_global (ap_di a) = None \<Longrightarrow> app_register E s a = (a, Panic ''container not found'')"
  by (simp add: app_register_def di_Register_def getContainer_def)

lemma bindings_of_cong: "ap_di a = ap_di a' \<Longrightarrow> bindings_of a = bindings_of a'"
  by (simp add: bindings_of_def)

lemma ap_di_frame [frame_simps]:
  "ap_di (add_closer n a) = ap_di a" "ap_di (add_health n a) = ap_di a"
  "ap_di (add_middleware n a) = ap_di a" "ap_di (app_Subscribe n a) = ap_di a"
  by (simp_all add: add_closer_def add_health_def add_middleware_def app_Subscribe_def)

subsection \<open>The optional components\<close>

definition optional_init :: "app_env \<Rightarrow> (string \<times> app component_func \<times> app_service option) list" where
  "optional_init E =
     [(''kafka'', initKafkaClient E, Some SvcKafka), (''redis'', initRedisClient E, Some SvcRedis),
      (''s3'', initS3Client E, Some SvcS3), (''localize'', initLocalizeClient E, Some SvcLocalizer),
      (''metrics'', initMetrics, None), (''trace'', initTrace E, None), (''workflow'', initWorkflow, None)]"

definition optional_run :: "app_env \<Rightarrow> (string \<times> app component_func) list" where
  "optional_run E =
     [(''kafka'', runKafkaClient E), (''redis'', Noop), (''s3'', runS3Client E), (''localize'', Noop),
      (''metrics'', runMetrics), (''trace'', Noop), (''workflow'', runWorkflow E)]"

definition optional_option :: "app_env \<Rightarrow> (string \<times> app_option) list" where
  "optional_option E =
     [(''kafka'', WithKafka E), (''redis'', WithRedis E), (''s3'', WithS3 E), (''localize'', WithLocalize E),
      (''metrics'', WithMetrics), (''trace'', WithTrace E), (''workflow'', WithWorkflow E)]"

definition optional_names :: "string list" where
  "optional_names = [''kafka'', ''redis'', ''s3'', ''localize'', ''metrics'', ''trace'', ''workflow'']"

definition with_option :: "app_env \<Rightarrow> string \<Rightarrow> app_option" where
  "with_option E n = the (map_of (optional_option E) n)"

fun service_of :: "string \<Rightarrow> app_service option" where
  "service_of n =
     (if n = ''kafka'' then Some SvcKafka else if n = ''redis'' then Some SvcRedis
      else if n = ''s3'' then Some SvcS3 else if n = ''localize'' then Some SvcLocalizer else None)"

definition init_of :: "app_env \<Rightarrow> string \<Rightarrow> app component_func" where
  "init_of E n = fst (the (map_of (optional_init E) n))"

definition run_of :: "app_env \<Rightarrow> string \<Rightarrow> app component_func" where
  "run_of E n = the (map_of (optional_run E) n)"

lemma optional_cases:
  assumes "n \<in> set optional_names"
  obtains "n = ''kafka''" | "n = ''redis''" | "n = ''s3''" | "n = ''localize''" | "n = ''metrics''"
    | "n = ''trace''" | "n = ''workflow''"
  using assms unfolding optional_names_def list.set
  by (elim insertE emptyE) (rule that; assumption)+

lemma with_option_add:
  "n \<in> set optional_names \<Longrightarrow>
     with_option E n a cs = Ok (a, fst (components_add (NewComponent n (init_of E n) (run_of E n)) cs), None)"
  by (erule optional_cases)
    (simp_all add: with_option_def optional_option_def init_of_def run_of_def optional_init_def
      optional_run_def WithKafka_def WithRedis_def WithS3_def WithLocalize_def WithMetrics_def
      WithTrace_def WithWorkflow_def)

text \<open>The initialisation of one component binds its service and touches no other binding.\<close>

definition binds :: "app_service option \<Rightarrow> (string \<rightharpoonup> app_service dependency) \<Rightarrow> (string \<rightharpoonup> app_service dependency)" where
  "binds so d = (case so of None \<Rightarrow> d
                  | Some s \<Rightarrow> d(service_key s \<mapsto> \<lparr>dep_service = s, dep_injected = True\<rparr>))"

lemma init_of_Ok:
  assumes "healthy_env E" and "n \<in> set optional_names" and "bindings_of a = Some d"
    and "\<forall>s. service_of n = Some s \<longrightarrow> d (service_key s) = None"
  shows "\<exists>a'. init_of E n a = (a', Ok ()) \<and> bindings_of a' = Some (binds (service_of n) d)"
proof -
  have plain: "plain_services E" using assms(1) by (simp add: healthy_env_def)
  have reg: "\<exists>a'. app_register E s b = (a', Ok ()) \<and>
      bindings_of a' = Some (d(service_key s \<mapsto> \<lparr>dep_service = s, dep_injected = True\<rparr>))"
    if "s \<in> platform" "bindings_of b = Some d" "d (service_key s) = None" for s b
    using app_register_new [OF plain that] by blast
  have bind_cong: "bindings_of b = Some d" if "ap_di b = ap_di a" for b
    using assms(3) bindings_of_cong [OF that] by simp
  from assms(2) show ?thesis
  proof (cases rule: optional_cases)
    case 1
    let ?b = "(add_health ''kafka'' (add_closer ''kafka'' a))\<lparr>ap_Kafka := True\<rparr>"
    have "bindings_of ?b = Some d" by (rule bind_cong) (simp add: frame_simps)
    from reg [OF _ this, of SvcKafka] 1 assms show ?thesis
      by (simp add: init_of_def optional_init_def initKafkaClient_def healthy_env_def platform_def binds_def Let_def)
  next
    case 2
    let ?b = "(add_health ''redis'' (add_closer ''redis'' a))\<lparr>ap_Redis := True\<rparr>"
    have "bindings_of ?b = Some d" by (rule bind_cong) (simp add: frame_simps)
    from reg [OF _ this, of SvcRedis] 2 assms show ?thesis
      by (simp add: init_of_def optional_init_def initRedisClient_def healthy_env_def platform_def binds_def Let_def)
  next
    case 3
    let ?b = "(app_Subscribe ''S3'' (add_health ''s3'' (add_closer ''S3'' a)))\<lparr>ap_S3 := True\<rparr>"
    have "bindings_of ?b = Some d" by (rule bind_cong) (simp add: frame_simps)
    from reg [OF _ this, of SvcS3] 3 assms show ?thesis
      by (simp add: init_of_def optional_init_def initS3Client_def healthy_env_def platform_def binds_def Let_def)
  next
    case 4
    let ?b = "a\<lparr>ap_Localizer := True\<rparr>"
    have "bindings_of ?b = Some d" by (rule bind_cong) simp
    then obtain b' where b': "app_register E SvcLocalizer ?b = (b', Ok ())"
        "bindings_of b' = Some (d(service_key SvcLocalizer \<mapsto> \<lparr>dep_service = SvcLocalizer, dep_injected = True\<rparr>))"
      using reg [of SvcLocalizer ?b] 4 assms(4) by (auto simp: platform_def)
    have "bindings_of (initLocalizeTolgee b') = bindings_of b'"
      by (rule bindings_of_cong) (simp add: initLocalizeTolgee_def frame_simps)
    with b' 4 assms(1) show ?thesis
      by (simp add: init_of_def optional_init_def initLocalizeClient_def healthy_env_def binds_def)
  next
    case 5
    have "bindings_of (a\<lparr>ap_metrics := True\<rparr>) = Some d" by (rule bind_cong) simp
    with 5 show ?thesis by (simp add: init_of_def optional_init_def initMetrics_def binds_def)
  next
    case 6
    have "bindings_of (add_closer ''trace'' a) = Some d" by (rule bind_cong) (simp add: frame_simps)
    with 6 assms(1) show ?thesis
      by (simp add: init_of_def optional_init_def initTrace_def healthy_env_def binds_def)
  next
    case 7
    have "bindings_of (a\<lparr>ap_Workflow := True\<rparr>) = Some d" by (rule bind_cong) simp
    with 7 show ?thesis by (simp add: init_of_def optional_init_def initWorkflow_def binds_def)
  qed
qed


subsection \<open>The registry that the options build\<close>

text \<open>The registry after options for the names \<open>ns\<close>, in order, none twice.\<close>

definition registry_of :: "app_env \<Rightarrow> string list \<Rightarrow> app_components" where
  "registry_of E ns =
     \<lparr>cs_order = ''di'' # ns,
      cs_list = (\<lambda>k. if k = ''di'' then Some (containerComponent E)
                     else if k \<in> set ns then Some (NewComponent k (init_of E k) (run_of E k)) else None)\<rparr>"

lemma optional_not_di: "n \<in> set optional_names \<Longrightarrow> n \<noteq> ''di'' \<and> n \<noteq> ''http'' \<and> n \<noteq> ''postgres''"
  by (erule optional_cases) simp_all

lemma apply_optional:
  assumes "distinct (ms @ ns)" and "set (ms @ ns) \<subseteq> set optional_names"
  shows "apply_app_options (map (with_option E) ns) a (registry_of E ms) =
    Ok (a, registry_of E (ms @ ns), None)"
  using assms
proof (induction ns arbitrary: ms)
  case Nil
  show ?case by simp
next
  case (Cons n ns)
  have n: "n \<in> set optional_names" "n \<notin> set ms" using Cons.prems by auto
  have "cs_list (registry_of E ms) n = None" using n optional_not_di by (simp add: registry_of_def)
  then have "fst (components_add (NewComponent n (init_of E n) (run_of E n)) (registry_of E ms)) =
      registry_of E (ms @ [n])"
    using n optional_not_di [OF n(1)]
    by (auto simp: components_add_def components_has_def NewComponent_def registry_of_def intro!: ext)
  with n Cons.IH [of "ms @ [n]"] Cons.prems show ?case by (simp add: with_option_add)
qed

lemma registry_start: "fst (components_add (containerComponent E) newComponents) = registry_of E []"
  by (auto simp: components_add_def components_has_def newComponents_def registry_of_def
      containerComponent_def NewComponent_def intro!: ext)

lemma registry_of_wf: "wf_components (registry_of E [])"
  unfolding registry_start [symmetric]
  by (rule wf_components_add) (simp add: wf_components_def newComponents_def)

definition registry_http :: "app_env \<Rightarrow> string list \<Rightarrow> app_components" where
  "registry_http E ns =
     (registry_of E ns)\<lparr>cs_order := ''di'' # ns @ [''http''],
        cs_list := (cs_list (registry_of E ns))(''http'' \<mapsto> httpServer)\<rparr>"

lemma registry_http_add:
  "''http'' \<notin> set ns \<Longrightarrow> fst (components_add httpServer (registry_of E ns)) = registry_http E ns"
  by (simp add: components_add_def components_has_def httpServer_def NewComponent_def registry_of_def
      registry_http_def)

lemma registry_http_wf:
  assumes "distinct ns" and "set ns \<subseteq> set optional_names"
  shows "wf_components (registry_http E ns)"
proof -
  have nd: "''di'' \<notin> set ns" "''http'' \<notin> set ns" using assms(2) optional_not_di by auto
  then show ?thesis using assms(1)
    by (auto simp: wf_components_def registry_http_def registry_of_def containerComponent_def
        NewComponent_def httpServer_def split: if_splits)
qed

lemma registry_http_ordered:
  assumes "set ns \<subseteq> set optional_names"
  shows "ordered cm_init (registry_http E ns) =
    (''di'', initContainer E) # map (\<lambda>n. (n, init_of E n)) ns @ [(''http'', Noop)]"
proof -
  have nd: "\<forall>n \<in> set ns. n \<noteq> ''di'' \<and> n \<noteq> ''http''" using assms optional_not_di by blast
  then have "map (\<lambda>k. (k, cm_init (the (cs_list (registry_http E ns) k)))) ns =
      map (\<lambda>n. (n, init_of E n)) ns"
    by (auto simp: registry_http_def registry_of_def NewComponent_def)
  then show ?thesis
    by (simp add: ordered_def registry_http_def registry_of_def containerComponent_def httpServer_def
        NewComponent_def)
qed

subsection \<open>Initialisation succeeds\<close>

lemma initContainer_Ok:
  assumes "plain_services E"
  shows "\<exists>a'. initContainer E a = (a', Ok ()) \<and>
    bindings_of a' = Some (binds (Some SvcConfigurer) Map.empty)"
proof -
  let ?w = "SetGlobal (ap_next a) ((ap_di a)\<lparr>dw_heap := (dw_heap (ap_di a))(ap_next a := di_New)\<rparr>)"
  let ?b = "a\<lparr>ap_di := ?w, ap_next := Suc (ap_next a), ap_container := Some (ap_next a)\<rparr>"
  have "bindings_of ?b = Some Map.empty" by (simp add: bindings_of_def SetGlobal_def di_New_def)
  moreover have "SvcConfigurer \<in> platform" by (simp add: platform_def)
  ultimately obtain a' where "app_register E SvcConfigurer ?b = (a', Ok ())"
      "bindings_of a' = Some (Map.empty(service_key SvcConfigurer \<mapsto> \<lparr>dep_service = SvcConfigurer, dep_injected = True\<rparr>))"
    using app_register_new [OF assms] by fastforce
  then show ?thesis by (simp add: initContainer_def Let_def binds_def)
qed

fun binds_all :: "string list \<Rightarrow> (string \<rightharpoonup> app_service dependency) \<Rightarrow> (string \<rightharpoonup> app_service dependency)" where
  "binds_all [] d = d"
| "binds_all (n # ns) d = binds_all ns (binds (service_of n) d)"

lemma service_of_platform: "service_of n = Some s \<Longrightarrow> s \<in> platform \<and> s \<noteq> SvcConfigurer \<and> s \<noteq> SvcDB"
  by (auto simp: platform_def split: if_splits)

lemma service_of_inj: "service_of n = Some s \<Longrightarrow> service_of m = Some s \<Longrightarrow> n = m"
  by (auto split: if_splits)

lemma binds_other:
  "s \<in> platform \<Longrightarrow> service_of n \<noteq> Some s \<Longrightarrow> binds (service_of n) d (service_key s) = d (service_key s)"
  using service_of_platform [of n] service_key_inj
  by (cases "service_of n") (auto simp: binds_def simp del: service_of.simps)

lemma run_optional:
  assumes "healthy_env E" and "distinct ns" and "set ns \<subseteq> set optional_names"
    and "bindings_of a = Some d"
    and "\<forall>n \<in> set ns. \<forall>s. service_of n = Some s \<longrightarrow> d (service_key s) = None"
  shows "\<exists>a'. run_seq (map (\<lambda>n. (n, init_of E n)) ns) what a = (a', Ok ()) \<and>
    bindings_of a' = Some (binds_all ns d)"
  using assms(2-)
proof (induction ns arbitrary: a d)
  case Nil
  then show ?case by simp
next
  case (Cons n ns)
  obtain a1 where a1: "init_of E n a = (a1, Ok ())" "bindings_of a1 = Some (binds (service_of n) d)"
    using init_of_Ok [OF assms(1), of n a d] Cons.prems(2-4) by (auto simp del: service_of.simps)
  have "\<forall>m \<in> set ns. \<forall>s. service_of m = Some s \<longrightarrow> binds (service_of n) d (service_key s) = None"
  proof (intro ballI allI impI)
    fix m s assume m: "m \<in> set ns" and s: "service_of m = Some s"
    have "service_of n \<noteq> Some s"
      using service_of_inj [OF _ s, of n] m Cons.prems(1) by (auto simp del: service_of.simps)
    then show "binds (service_of n) d (service_key s) = None"
      using binds_other service_of_platform [OF s] Cons.prems(4) m s by (simp del: service_of.simps)
  qed
  moreover have "distinct ns" "set ns \<subseteq> set optional_names" using Cons.prems by simp_all
  ultimately obtain a2 where "run_seq (map (\<lambda>n. (n, init_of E n)) ns) what a1 = (a2, Ok ())"
      "bindings_of a2 = Some (binds_all ns (binds (service_of n) d))"
    using Cons.IH [of a1 "binds (service_of n) d"] a1(2) by blast
  then show ?case using a1(1) by (simp del: service_of.simps)
qed

lemma binds_all_lookup:
  assumes "s \<in> platform"
  shows "binds_all ns d (service_key s) =
    (if \<exists>n \<in> set ns. service_of n = Some s then Some \<lparr>dep_service = s, dep_injected = True\<rparr>
     else d (service_key s))"
proof (induction ns arbitrary: d)
  case Nil
  show ?case by simp
next
  case (Cons n ns)
  show ?case
  proof (cases "service_of n = Some s")
    case True
    then have "binds (service_of n) d (service_key s) = Some \<lparr>dep_service = s, dep_injected = True\<rparr>"
      by (simp only: binds_def option.case fun_upd_same)
    with Cons.IH [of "binds (service_of n) d"] True show ?thesis
      by (simp del: service_of.simps)
  next
    case False
    with Cons.IH [of "binds (service_of n) d"] binds_other [OF assms False] show ?thesis
      by (simp del: service_of.simps)
  qed
qed

text \<open>The keys bound are those of the configurer and of the selected clients.\<close>

lemma dom_binds: "dom (binds so d) = service_key ` set_option so \<union> dom d"
  by (auto simp: binds_def split: option.splits)

lemma dom_binds_all: "dom (binds_all ns d) = service_key ` {s. \<exists>n \<in> set ns. service_of n = Some s} \<union> dom d"
proof (induction ns arbitrary: d)
  case (Cons n ns)
  have "{s. \<exists>m \<in> set (n # ns). service_of m = Some s} = set_option (service_of n) \<union> {s. \<exists>m \<in> set ns. service_of m = Some s}"
    by (auto simp del: service_of.simps simp: elem_set)
  with Cons.IH [of "binds (service_of n) d"] show ?case
    by (auto simp del: service_of.simps simp: dom_binds image_Un)
qed simp

lemma app_new_optional:
  assumes "healthy_env E" and "distinct ns" and "set ns \<subseteq> set optional_names"
  shows "\<exists>a. app_new E (map (with_option E) ns) w p = ((a, registry_http E ns), Ok ()) \<and>
    bindings_of a = Some (binds_all ns (binds (Some SvcConfigurer) Map.empty))"
proof -
  have plain: "plain_services E" using assms(1) by (simp add: healthy_env_def)
  have opts: "apply_app_options (map (with_option E) ns) b (registry_of E []) = Ok (b, registry_of E ns, None)" for b
    using apply_optional [of "[]" ns E b] assms(2,3) by simp
  have nh: "''http'' \<notin> set ns" using assms(3) optional_not_di by blast
  let ?a = "initConfig (add_middleware ''readiness'' (add_middleware ''liveness'' (empty_app w p)))"
  obtain a1 where a1: "initContainer E ?a = (a1, Ok ())"
      "bindings_of a1 = Some (binds (Some SvcConfigurer) Map.empty)"
    using initContainer_Ok [OF plain] by blast
  have fresh: "\<forall>n \<in> set ns. \<forall>s. service_of n = Some s \<longrightarrow>
      binds (Some SvcConfigurer) Map.empty (service_key s) = None"
  proof (intro ballI allI impI)
    fix n s assume "service_of n = Some s"
    then have "s \<in> platform" "s \<noteq> SvcConfigurer" using service_of_platform by blast+
    moreover have "SvcConfigurer \<in> platform" by (simp add: platform_def)
    ultimately show "binds (Some SvcConfigurer) Map.empty (service_key s) = None"
      using service_key_inj by (simp add: binds_def)
  qed
  obtain a2 where a2: "run_seq (map (\<lambda>n. (n, init_of E n)) ns) ''failed init '' a1 = (a2, Ok ())"
      "bindings_of a2 = Some (binds_all ns (binds (Some SvcConfigurer) Map.empty))"
    using run_optional [OF assms a1(2) fresh] by blast
  have "components_init (registry_http E ns) ?a = (a2, Ok ())"
    using registry_http_wf [OF assms(2,3), of E] a1(1) a2(1)
    by (simp add: components_init_seq registry_http_ordered [OF assms(3)] run_seq_append Noop_def)
  then show ?thesis
    using a2(2)
    by (simp add: app_new_def registry_start opts addProbes_def registry_http_add [OF nh] Let_def)
qed

subsection \<open>The database comes before the container\<close>

lemma WithDB_order:
  "fst (components_addFirst (dbComponent E) (registry_of E [])) =
     \<lparr>cs_order = [''postgres'', ''di''], cs_list = (cs_list (registry_of E []))(''postgres'' \<mapsto> dbComponent E)\<rparr>"
  by (simp add: components_addFirst_def components_has_def registry_of_def dbComponent_def NewComponent_def)

lemma initPostgres_fresh:
  assumes "dw_global (ap_di a) = None" and "ae_NewPostgresManager E = None"
  shows "initPostgresClient E a = (a\<lparr>ap_DB := True\<rparr>, Panic ''container not found'')"
  using assms by (simp add: initPostgresClient_def app_register_no_container)

text \<open>Once the database component is first, no later option moves it.\<close>

definition postgres_first :: "app_env \<Rightarrow> app_components \<Rightarrow> bool" where
  "postgres_first E cs \<longleftrightarrow> wf_components cs \<and> (\<exists>ks. cs_order cs = ''postgres'' # ks) \<and>
     cs_list cs ''postgres'' = Some (dbComponent E)"

lemma postgres_first_add: "postgres_first E cs \<Longrightarrow> postgres_first E (fst (components_add ent cs))"
  using wf_components_add [of cs ent]
  by (auto simp: postgres_first_def components_add_def components_has_def)

lemma postgres_first_init:
  assumes "postgres_first E cs" and "dw_global (ap_di a) = None" and "ae_NewPostgresManager E = None"
  shows "snd (components_init cs a) = Panic ''container not found''"
  using assms initPostgres_fresh [OF assms(2,3)]
  by (auto simp: postgres_first_def components_init_def dbComponent_def NewComponent_def)

lemma app_new_WithDB:
  assumes "dw_global w = None" and "ae_NewPostgresManager E = None"
    and "set ns \<subseteq> set optional_names"
  shows "snd (app_new E (WithDB E # map (with_option E) ns) w p) = Panic ''container not found''"
proof -
  let ?cs = "fst (components_addFirst (dbComponent E) (registry_of E []))"
  have first: "postgres_first E ?cs"
    using wf_components_addFirst [of "registry_of E []" "dbComponent E"] registry_of_wf
    unfolding WithDB_order postgres_first_def by simp
  have opts: "\<exists>cs'. apply_app_options (map (with_option E) ns) a cs = Ok (a, cs', None) \<and> postgres_first E cs'"
    if "postgres_first E cs" for a cs
    using assms(3) that
  proof (induction ns arbitrary: cs)
    case Nil
    then show ?case by simp
  next
    case (Cons n ns)
    then show ?case using postgres_first_add by (simp add: with_option_add)
  qed
  from opts [OF first] obtain cs' where
    cs': "apply_app_options (map (with_option E) ns) (empty_app w p) ?cs = Ok (empty_app w p, cs', None)"
      "postgres_first E cs'" by blast
  let ?a = "initConfig (add_middleware ''readiness'' (add_middleware ''liveness'' (empty_app w p)))"
  have "dw_global (ap_di ?a) = None"
    using assms(1) by (simp add: initConfig_def frame_simps empty_app_def)
  from postgres_first_init [OF postgres_first_add [OF cs'(2), of httpServer] this assms(2)]
  have "snd (components_init (fst (components_add httpServer cs')) ?a) = Panic ''container not found''" .
  then show ?thesis
    by (cases "components_init (fst (components_add httpServer cs')) ?a")
      (simp add: app_new_def registry_start WithDB_def cs'(1) addProbes_def Let_def)
qed

subsection \<open>Servers that share an address\<close>

lemma shared_address:
  assumes "ap_PrivateGrpc a = Some m" and "ap_PublicGrpc a = Some m'" and "sm_addr m = sm_addr m'"
  shows "\<exists>e. initPrivateGrpcServer a = (a, Err e) \<and> initPublicGrpcServer a = (a, Err e)"
  using assms by (simp add: initPrivateGrpcServer_def initPublicGrpcServer_def app_fail_def)

subsection \<open>New\<close>

text \<open>
  \<^verbatim>\<open>NewWithConfig\<close> and \<^verbatim>\<open>New\<close>; an option is a function of the environment in which its component is initialised,
  since the component functions read \<^verbatim>\<open>app.Env\<close>.  \<^verbatim>\<open>New\<close> loads the configuration at its first call.
\<close>

definition application_NewWithConfig ::
    "app_env \<Rightarrow> configurer \<Rightarrow> (app_env \<Rightarrow> app_option) list \<Rightarrow> app_service di_world \<Rightarrow> nat \<Rightarrow> (app \<times> app_components) \<times> unit go" where
  "application_NewWithConfig E env options w p =
     (let E = E\<lparr>ae_conf := env\<rparr> in app_new E (map (\<lambda>opt. opt E) options) w p)"

definition application_New ::
    "('v, 'f) viper_ops \<Rightarrow> ('r, 'f) remote_clients \<Rightarrow> environment \<Rightarrow> app_env \<Rightarrow> (app_env \<Rightarrow> app_option) list \<Rightarrow>
     ('v, 'r, 'f) cfg_store option \<times> 'r \<Rightarrow> app_service di_world \<Rightarrow> nat \<Rightarrow>
     ((('v, 'r, 'f) cfg_store option \<times> 'r) \<times> (app \<times> app_components) \<times> unit go) go" where
  "application_New V R osenv E options st w p =
     go_bind (Init V R osenv [] st) (\<lambda>(inst, rw).
     go_bind (GetConfig inst) (\<lambda>env.
       Ok ((inst, rw), application_NewWithConfig E (configurer_of V env) options w p)))"

lemma application_New_Ok:
  "application_New V R osenv E options (None, rw) w p = Ok ((inst, rw'), r) \<longleftrightarrow>
     (\<exists>cfg. init_config V R osenv [] rw = Ok (cfg, rw') \<and> inst = Some cfg \<and>
        r = application_NewWithConfig E (configurer_of V cfg) options w p)"
  by (auto simp: application_New_def Init_def GetConfig_def go_bind_Ok_iff)

text \<open>A second application of the process is built on the configuration of the first one, whatever it finds now.\<close>

lemma application_New_again:
  "application_New V R osenv E options (Some cfg, rw) w p =
     Ok ((Some cfg, rw), application_NewWithConfig E (configurer_of V cfg) options w p)"
  by (simp add: application_New_def Init_def GetConfig_def)

text \<open>A configuration that cannot be loaded ends the process: \<^verbatim>\<open>New\<close> never gets an error from \<^verbatim>\<open>Init\<close>.\<close>

lemma viper_not_Err: "with_viper V key f c \<noteq> Err e"
  by (simp add: with_viper_def split: option.splits)

lemma fatal_not_Err: "fatal r \<noteq> Err e"
  by (simp add: fatal_def split: go.splits)

lemma init_config_not_Err: "init_config V R osenv opts w \<noteq> Err e"
  by (auto simp: init_config_def load_consul_def load_vault_def mustLoadProvider_def GetStringOrDefault_def GetString_def
      Let_def go_bind_Err_iff viper_not_Err fatal_not_Err split: prod.splits option.splits)

lemma application_New_not_Err: "application_New V R osenv E options st w p \<noteq> Err e"
  by (cases "fst st"; cases st) (auto simp: application_New_def Init_def GetConfig_def go_bind_Err_iff init_config_not_Err split: option.splits)

end
