(* ===== verification/Config_Sources.thy ===== *)
theory Config_Sources
  imports Config_Store
begin

section \<open>Consul and Vault as sources of the configuration\<close>

text \<open>
  The watches of the Consul client (internal/pkg/consul/consul.go), the two providers as the configuration
  store sees them (config_provider/consul/consul.go, config_provider/vault/vault.go), the Vault client
  (internal/pkg/vault/vault.go), the metrics of Vault calls (pkg/config/vault_metrics.go) and the global
  getters (pkg/config/methods.go).  The lemmas show which updates of a prefix reach the configuration, and
  that a provider without \<^verbatim>\<open>Set\<close> and \<^verbatim>\<open>Watch\<close> is no error for the store.
\<close>

subsection \<open>Watches of the Consul client\<close>

text \<open>A plan of the client: its prefix and whether it was stopped; its handler is \<open>plan_handler\<close>.\<close>

record watch_plan =
  wp_Prefix :: string
  wp_Stopped :: bool

record consul_client =
  cc_plans :: "watch_plan list"

text \<open>\<open>api\<close> is the result of \<^verbatim>\<open>api.NewClient\<close> for the address of the configuration.\<close>

definition NewClientWithConfig :: "('c \<Rightarrow> gerror) \<Rightarrow> 'c \<Rightarrow> gerr + consul_client" where
  "NewClientWithConfig api cfg =
     (case api cfg of
        Some err \<Rightarrow> Inl (Wrapped ''failed to create consul client'' err)
      | None \<Rightarrow> Inr \<lparr>cc_plans = []\<rparr>)"

definition consul_NewClient :: "('c \<Rightarrow> gerror) \<Rightarrow> (string \<Rightarrow> 'c) \<Rightarrow> string \<Rightarrow> gerr + consul_client" where
  "consul_NewClient api default_with_address address = NewClientWithConfig api (default_with_address address)"

text \<open>What a plan delivers: nil, the pairs under the prefix, or a value of another type.\<close>

datatype watch_data = WNil | WPairs "(string \<times> string) list" | WOther

definition plan_handler :: "((string \<times> string) list \<Rightarrow> 's \<Rightarrow> 's) \<Rightarrow> watch_data \<Rightarrow> 's \<Rightarrow> 's" where
  "plan_handler callback d s = (case d of WNil \<Rightarrow> s | WPairs pairs \<Rightarrow> callback pairs s | WOther \<Rightarrow> s)"

definition WatchPrefix ::
    "(string \<Rightarrow> gerror) \<Rightarrow> string \<Rightarrow> consul_client \<Rightarrow> consul_client \<times> gerror" where
  "WatchPrefix parse_plan pfx c =
     (case parse_plan pfx of
        Some err \<Rightarrow> (c, Some (Wrapped ''failed to parse watch plan'' err))
      | None \<Rightarrow> (c\<lparr>cc_plans := cc_plans c @ [\<lparr>wp_Prefix = pfx, wp_Stopped = False\<rparr>]\<rparr>, None))"

definition consul_Close :: "consul_client \<Rightarrow> consul_client \<times> gerror" where
  "consul_Close c = (c\<lparr>cc_plans := map (\<lambda>p. p\<lparr>wp_Stopped := True\<rparr>) (cc_plans c)\<rparr>, None)"

text \<open>The callback that the provider gives to \<open>WatchPrefix\<close>.\<close>

definition consulProvider_Watch ::
    "string \<Rightarrow> ('f config_data \<Rightarrow> 's \<Rightarrow> 's) \<Rightarrow> watch_data \<Rightarrow> 's \<Rightarrow> 's" where
  "consulProvider_Watch pfx onChange = plan_handler (\<lambda>pairs. onChange (convertPairsToObject pfx pairs))"

text \<open>The provider as the store uses it; the store's watch is \<open>parse_plan\<close> of the prefix.\<close>

definition consul_provider ::
    "'kv consul_kv \<Rightarrow> ('f \<Rightarrow> string) \<Rightarrow> ((string \<times> string) list \<Rightarrow> (string \<times> string) list) \<Rightarrow>
     (string \<Rightarrow> gerror) \<Rightarrow> string \<Rightarrow> ('kv \<times> consul_client, 'f) cfg_provider" where
  "consul_provider K fmt schedule parse_plan pfx =
     \<lparr>pr_Get = (\<lambda>(kv, c). case consulProvider_Get K pfx kv of Inl err \<Rightarrow> Inl err | Inr d \<Rightarrow> Inr (Some d)),
      pr_Set = (\<lambda>d (kv, c). case consulProvider_Set K fmt schedule pfx (Some d) kv of (kv, err) \<Rightarrow> ((kv, c), err)),
      pr_Watch = snd (WatchPrefix parse_plan pfx \<lparr>cc_plans = []\<rparr>),
      pr_Close = (\<lambda>(kv, c). case consul_Close c of (c, err) \<Rightarrow> ((kv, c), err))\<rparr>"

subsection \<open>Vault\<close>

record vault_secret =
  vs_Data :: "(string \<times> nat) list option"     \<comment> \<open>nil, or values of any type\<close>

record ('w, 'f) vault_ops =
  vo_KVGet :: "string \<Rightarrow> string \<Rightarrow> 'w \<Rightarrow> gerr + 'f config_data option"
  vo_Read :: "string \<Rightarrow> 'w \<Rightarrow> gerr + vault_secret option"
  vo_NewClient :: "string \<Rightarrow> gerror"

definition vault_NewClient :: "('w, 'f) vault_ops \<Rightarrow> vault_config \<Rightarrow> gerr + vault_config" where
  "vault_NewClient V cfg =
     (case vo_NewClient V (vc_Address cfg) of
        Some err \<Rightarrow> Inl (Wrapped ''failed to create vault client'' err)
      | None \<Rightarrow> Inr cfg)"

definition LoadKV :: "('w, 'f) vault_ops \<Rightarrow> string \<Rightarrow> string \<Rightarrow> 'w \<Rightarrow> gerr + 'f config_data option" where
  "LoadKV V mount path w =
     (case vo_KVGet V mount path w of
        Inl err \<Rightarrow>
          Inl (Wrapped (''failed to read KV secrets for path:'' @ path @ '' and mount: '' @ mount) err)
      | Inr None \<Rightarrow> Inl (Sentinel (''empty KV secrets for '' @ path))
      | Inr (Some d) \<Rightarrow> Inr (Some d))"

definition LoadPKI :: "('w, 'f) vault_ops \<Rightarrow> string \<Rightarrow> 'w \<Rightarrow> gerr + nat" where
  "LoadPKI V path w =
     (if path = [] then Inl (Sentinel ''pki path is required for read-only mode'')
      else case vo_Read V path w of
        Inl err \<Rightarrow> Inl (Wrapped ''failed to read PKI secret'' err)
      | Inr secret \<Rightarrow>
          (case (case secret of None \<Rightarrow> None | Some s \<Rightarrow> vs_Data s) of
             None \<Rightarrow> Inl (Sentinel (''empty response from PKI at path '' @ path))
           | Some d \<Rightarrow>
               (case map_of d ''certificate'' of
                  None \<Rightarrow> Inl (Sentinel (''key certificate not found in PKI secret at '' @ path))
                | Some v \<Rightarrow> Inr v)))"

definition vault_provider :: "('w, 'f) vault_ops \<Rightarrow> string \<Rightarrow> string \<Rightarrow> ('w, 'f) cfg_provider" where
  "vault_provider V path mount =
     \<lparr>pr_Get = LoadKV V mount path, pr_Set = (\<lambda>d w. (w, Some cp_ErrUnsupported)),
      pr_Watch = Some cp_ErrUnsupported, pr_Close = (\<lambda>w. (w, None))\<rparr>"

subsection \<open>Metrics of Vault calls\<close>

record vault_counts =
  vn_access :: "(string \<times> string \<times> string) list"
  vn_duration :: "(string \<times> string \<times> string) list"
  vn_errors :: "(string \<times> string \<times> string) list"

definition withMetrics ::
    "string \<Rightarrow> string \<Rightarrow> string \<Rightarrow> ('w \<Rightarrow> 'w \<times> 'a \<times> gerror) \<Rightarrow> vault_counts \<times> 'w \<Rightarrow>
     (vault_counts \<times> 'w) \<times> 'a \<times> gerror" where
  "withMetrics typ mount path f = (\<lambda>(n, w).
     (case f w of
        (w, val, err) \<Rightarrow>
          let n = n\<lparr>vn_duration := vn_duration n @ [(typ, mount, path)], vn_access := vn_access n @ [(typ, mount, path)]\<rparr>;
              n = (if err \<noteq> None then n\<lparr>vn_errors := vn_errors n @ [(typ, mount, path)]\<rparr> else n)
          in ((n, w), val, err)))"

definition withMetrics1 ::
    "string \<Rightarrow> string \<Rightarrow> string \<Rightarrow> ('w \<Rightarrow> 'w \<times> gerror) \<Rightarrow> vault_counts \<times> 'w \<Rightarrow> (vault_counts \<times> 'w) \<times> gerror" where
  "withMetrics1 typ mount path f = (\<lambda>(n, w).
     (case f w of
        (w, err) \<Rightarrow>
          let n = n\<lparr>vn_duration := vn_duration n @ [(typ, mount, path)], vn_access := vn_access n @ [(typ, mount, path)]\<rparr>;
              n = (if err \<noteq> None then n\<lparr>vn_errors := vn_errors n @ [(typ, mount, path)]\<rparr> else n)
          in ((n, w), err)))"

definition mountFromPath :: "string \<Rightarrow> string" where
  "mountFromPath path =
     (let p = trim_prefix path ''/'' in
      if p = [] then ''-'' else takeWhile (\<lambda>c. c \<noteq> CHR ''/'') p)"

lemma withMetrics_counts:
  "\<exists>n'. withMetrics typ mount path f (n, w) = ((n', fst (f w)), snd (f w)) \<and>
     length (vn_access n') = Suc (length (vn_access n)) \<and>
     length (vn_errors n') = length (vn_errors n) + (if snd (snd (f w)) = None then 0 else 1)"
  by (simp add: withMetrics_def Let_def split: prod.splits)

lemma mountFromPath_segment: "CHR ''/'' \<notin> set (mountFromPath path)"
  by (auto simp: mountFromPath_def Let_def dest: set_takeWhileD)

subsection \<open>The global getters (methods.go)\<close>

text \<open>The global configuration is \<open>None\<close> before \<open>Init\<close>; a method of the nil pointer reads its lock and panics.\<close>

definition global_get :: "(('v, 'w, 'f) cfg_store \<Rightarrow> 'a go) \<Rightarrow> ('v, 'w, 'f) cfg_store option \<Rightarrow> 'a go" where
  "global_get f inst = (case inst of None \<Rightarrow> Panic ''nil pointer dereference'' | Some c \<Rightarrow> f c)"

definition global_GetString where "global_GetString V key = global_get (GetString V key)"
definition global_GetInt where "global_GetInt V key = global_get (GetInt V key)"
definition global_GetBool where "global_GetBool V key = global_get (GetBool V key)"
definition global_GetStringSlice where "global_GetStringSlice V key = global_get (GetStringSlice V key)"
definition global_GetIntSlice where "global_GetIntSlice V key = global_get (GetIntSlice V key)"
definition global_GetDuration where "global_GetDuration V key = global_get (GetDuration V key)"
definition global_GetFloat64 where "global_GetFloat64 V key = global_get (GetFloat64 V key)"

subsection \<open>Providers and the store\<close>

text \<open>A bootstrap to Vault changes nothing and is no error once the secrets are there.\<close>

lemma Bootstrap_vault:
  assumes "vp_ReadInConfig S [cfg_path c, ''.''] (cfg_file c) False = Inr v" and "vo_KVGet V mount path w = Inr (Some d)"
    and "snd (vp_MergeConfigMap S d v) = None"
  shows "Bootstrap S (vault_provider V path mount) c w = (w, None)"
  using assms by (cases "vp_MergeConfigMap S d v") (simp add: Bootstrap_def vault_provider_def LoadKV_def cp_ErrUnsupported_def)

text \<open>What a plan of Consul delivers reaches storage \<open>i\<close> of the configuration.\<close>

definition watch_event ::
    "('v, 'f) viper_ops \<Rightarrow> string \<Rightarrow> nat \<Rightarrow> watch_data \<Rightarrow> ('v, 'w, 'f) cfg_store \<Rightarrow> ('v, 'w, 'f) cfg_store" where
  "watch_event S pfx i = consulProvider_Watch pfx (on_change S i)"

lemma watch_event_other: "d = WNil \<or> d = WOther \<Longrightarrow> watch_event S pfx i d c = c"
  by (auto simp: watch_event_def consulProvider_Watch_def plan_handler_def)

lemma watch_event_pairs: "watch_event S pfx i (WPairs pairs) c = on_change S i (convertPairsToObject pfx pairs) c"
  by (simp add: watch_event_def consulProvider_Watch_def plan_handler_def)

lemma wf_watch_event [wf_intros]: "wf_cfg c \<Longrightarrow> wf_cfg (watch_event S pfx i d c)"
  by (cases d) (simp_all add: watch_event_other watch_event_pairs wf_on_change)

end
