(* ===== verification/Config_Watch.thy ===== *)
theory Config_Watch
  imports Config_Sources
begin

section \<open>Watching the configuration (internal/pkg/config/watch.go)\<close>

text \<open>
  The goroutines around a watched configuration: the callbacks of the providers and \<^verbatim>\<open>Close\<close>, which write under
  the lock, and the goroutine that receives from \<^verbatim>\<open>watchChan\<close> (capacity 1, a send that would block is dropped) and
  lets the subscribers read the configuration while it holds the read lock itself.  The lock is Go's
  \<^verbatim>\<open>RWMutex\<close>: a waiting writer holds up new readers.  A step is one critical section or one channel
  operation.  The lemmas show that no update is lost although sends are dropped, that the subscribers can
  always catch up when no writer waits, and that a writer that comes while the subscribers read stops
  everything for good.
\<close>

datatype 'f writer = Deliver nat "'f config_data" | CloseStore

text \<open>The receiving goroutine: waiting, with an update in hand, or holding the lock while \<open>k\<close> subscribers have yet to read.\<close>

datatype receiver = Waiting | Received | Reading nat | Ended

record ('v, 'w, 'f) watch_state =
  ws_cfg :: "('v, 'w, 'f) cfg_store"
  ws_receiver :: receiver
  ws_writers :: "'f writer list"                 \<comment> \<open>those that wait for the lock\<close>
  ws_seen :: "('v, 'w, 'f) storage list"         \<comment> \<open>what the subscribers read last\<close>

definition write_section ::
    "('v, 'f) viper_ops \<Rightarrow> 'f writer \<Rightarrow> ('v, 'w, 'f) cfg_store \<Rightarrow> ('v, 'w, 'f) cfg_store" where
  "write_section V wr c = (case wr of Deliver i d \<Rightarrow> on_change V i d c | CloseStore \<Rightarrow> c\<lparr>cfg_closed := True\<rparr>)"

inductive watch_step ::
    "('v, 'f) viper_ops \<Rightarrow> ('v, 'w, 'f) watch_state \<Rightarrow> ('v, 'w, 'f) watch_state \<Rightarrow> bool" for V where
  arrive: "(\<And>i d. wr = Deliver i d \<Longrightarrow> i < length (cfg_storages (ws_cfg s))) \<Longrightarrow>
    watch_step V s (s\<lparr>ws_writers := ws_writers s @ [wr]\<rparr>)"
| commit: "\<lbrakk>ws_writers s = wr # rest; \<And>k. ws_receiver s \<noteq> Reading k\<rbrakk> \<Longrightarrow>
    watch_step V s (s\<lparr>ws_cfg := write_section V wr (ws_cfg s), ws_writers := rest\<rparr>)"
| receive: "\<lbrakk>ws_receiver s = Waiting; cfg_watchChan (ws_cfg s) = Some (Suc n)\<rbrakk> \<Longrightarrow>
    watch_step V s (s\<lparr>ws_cfg := (ws_cfg s)\<lparr>cfg_watchChan := Some n\<rparr>, ws_receiver := Received\<rparr>)"
| finished: "\<lbrakk>ws_receiver s = Waiting; cfg_watchChan (ws_cfg s) = Some 0; cfg_closed (ws_cfg s)\<rbrakk> \<Longrightarrow>
    watch_step V s (s\<lparr>ws_receiver := Ended\<rparr>)"
| lock: "\<lbrakk>ws_receiver s = Received; ws_writers s = []\<rbrakk> \<Longrightarrow>
    watch_step V s (s\<lparr>ws_receiver := Reading (length (cfg_subscribes (ws_cfg s)))\<rparr>)"
| read: "\<lbrakk>ws_receiver s = Reading (Suc k); ws_writers s = []\<rbrakk> \<Longrightarrow>
    watch_step V s (s\<lparr>ws_receiver := Reading k\<rparr>)"
| unlock: "ws_receiver s = Reading 0 \<Longrightarrow>
    watch_step V s (s\<lparr>ws_receiver := Waiting, ws_seen := cfg_storages (ws_cfg s)\<rparr>)"

inductive_cases watch_step_cases: "watch_step V s t"

text \<open>The state after \<^verbatim>\<open>Watch\<close>: the components were created from the configuration as it is.\<close>

definition watch_init :: "('v, 'w, 'f) cfg_store \<Rightarrow> ('v, 'w, 'f) watch_state" where
  "watch_init c = \<lparr>ws_cfg = c\<lparr>cfg_watchChan := Some 0\<rparr>, ws_receiver = Waiting, ws_writers = [],
     ws_seen = cfg_storages c\<rparr>"

inductive watch_reachable ::
    "('v, 'f) viper_ops \<Rightarrow> ('v, 'w, 'f) cfg_store \<Rightarrow> ('v, 'w, 'f) watch_state \<Rightarrow> bool" for V c where
  watch_reachable_init: "watch_reachable V c (watch_init c)"
| watch_reachable_step: "watch_reachable V c s \<Longrightarrow> watch_step V s t \<Longrightarrow> watch_reachable V c t"

subsection \<open>No update is lost\<close>

text \<open>What is assumed of viper: a merge that fails has changed nothing.\<close>

definition merge_atomic :: "('v, 'f) viper_ops \<Rightarrow> bool" where
  "merge_atomic V = (\<forall>d v. snd (vp_MergeConfigMap V d v) = None \<or> fst (vp_MergeConfigMap V d v) = v)"

definition update_pending :: "('v, 'w, 'f) watch_state \<Rightarrow> bool" where
  "update_pending s =
     (cfg_watchChan (ws_cfg s) = Some 1 \<or> ws_receiver s = Received \<or> (\<exists>k. ws_receiver s = Reading k))"

definition watch_inv :: "('v, 'w, 'f) watch_state \<Rightarrow> bool" where
  "watch_inv s \<longleftrightarrow>
     (cfg_watchChan (ws_cfg s) = Some 0 \<or> cfg_watchChan (ws_cfg s) = Some 1) \<and>
     (ws_receiver s = Ended \<longrightarrow> cfg_closed (ws_cfg s) \<and> cfg_watchChan (ws_cfg s) = Some 0) \<and>
     (ws_seen s \<noteq> cfg_storages (ws_cfg s) \<longrightarrow> update_pending s)"

lemma watch_inv_init: "watch_inv (watch_init c)"
  by (simp add: watch_inv_def watch_init_def)

lemma on_change_cases:
  assumes "merge_atomic V" and "cfg_watchChan c = Some n" and "n = 0 \<or> n = 1"
  shows "(cfg_storages (on_change V i d c) = cfg_storages c \<and> cfg_watchChan (on_change V i d c) = Some n) \<or>
    (\<not> cfg_closed c \<and> cfg_watchChan (on_change V i d c) = Some 1)"
    and "cfg_closed (on_change V i d c) = cfg_closed c"
proof -
  let ?s = "cfg_storages c ! i"
  obtain v' err where m: "vp_MergeConfigMap V d (st_viper ?s) = (v', err)" by (metis surj_pair)
  have same: "v' = st_viper ?s" if "err \<noteq> None"
    using assms(1) m that unfolding merge_atomic_def by (metis fst_conv snd_conv)
  show "(cfg_storages (on_change V i d c) = cfg_storages c \<and> cfg_watchChan (on_change V i d c) = Some n) \<or>
    (\<not> cfg_closed c \<and> cfg_watchChan (on_change V i d c) = Some 1)"
    using assms(2,3) same by (auto simp: on_change_def m Let_def)
  show "cfg_closed (on_change V i d c) = cfg_closed c"
    using assms(2) by (auto simp: on_change_def m Let_def)
qed

lemma watch_inv_step:
  assumes "merge_atomic V" and "watch_step V s t" and "watch_inv s"
  shows "watch_inv t"
  using assms(2,3)
proof (induction rule: watch_step.induct)
  case (commit s wr rest)
  let ?c = "ws_cfg s"
  from commit.prems obtain n where n: "cfg_watchChan ?c = Some n" "n = 0 \<or> n = 1" by (auto simp: watch_inv_def)
  show ?case
  proof (cases wr)
    case (Deliver i d)
    then show ?thesis
      using commit on_change_cases [OF assms(1) n, of i d] n
      by (auto simp: watch_inv_def update_pending_def write_section_def)
  next
    case CloseStore
    then show ?thesis using commit by (auto simp: watch_inv_def update_pending_def write_section_def)
  qed
qed (auto simp: watch_inv_def update_pending_def)

lemma watch_inv_reachable: "watch_reachable V c s \<Longrightarrow> merge_atomic V \<Longrightarrow> watch_inv s"
  by (induction rule: watch_reachable.induct) (auto intro: watch_inv_init watch_inv_step)

subsection \<open>The subscribers catch up\<close>

text \<open>From a state in which no writer waits the receiver alone brings the subscribers up to date.\<close>

lemma reading_ends:
  assumes "ws_receiver s = Reading k" and "ws_writers s = []"
  shows "(watch_step V)\<^sup>*\<^sup>* s (s\<lparr>ws_receiver := Waiting, ws_seen := cfg_storages (ws_cfg s)\<rparr>)"
  using assms
proof (induction k arbitrary: s)
  case 0
  then show ?case by (intro r_into_rtranclp unlock)
next
  case (Suc k)
  let ?t = "s\<lparr>ws_receiver := Reading k\<rparr>"
  have "(watch_step V)\<^sup>*\<^sup>* ?t (?t\<lparr>ws_receiver := Waiting, ws_seen := cfg_storages (ws_cfg ?t)\<rparr>)"
    by (rule Suc.IH) (simp_all add: Suc.prems)
  with read [OF Suc.prems, of V] show ?case by (simp add: converse_rtranclp_into_rtranclp)
qed

lemma received_ends:
  assumes "ws_receiver s = Received" and "ws_writers s = []"
  shows "(watch_step V)\<^sup>*\<^sup>* s (s\<lparr>ws_receiver := Waiting, ws_seen := cfg_storages (ws_cfg s)\<rparr>)"
proof -
  let ?k = "length (cfg_subscribes (ws_cfg s))" and ?t = "s\<lparr>ws_receiver := Reading (length (cfg_subscribes (ws_cfg s)))\<rparr>"
  have "(watch_step V)\<^sup>*\<^sup>* ?t (?t\<lparr>ws_receiver := Waiting, ws_seen := cfg_storages (ws_cfg ?t)\<rparr>)"
    by (rule reading_ends) (simp_all add: assms(2))
  with lock [OF assms, of V] show ?thesis by (simp add: converse_rtranclp_into_rtranclp)
qed

lemma subscribers_catch_up:
  assumes "watch_inv s" and "ws_writers s = []"
  shows "\<exists>t. (watch_step V)\<^sup>*\<^sup>* s t \<and> ws_seen t = cfg_storages (ws_cfg t) \<and>
    cfg_storages (ws_cfg t) = cfg_storages (ws_cfg s)"
proof -
  have ends: "\<exists>t. (watch_step V)\<^sup>*\<^sup>* u t \<and> ws_seen t = cfg_storages (ws_cfg t) \<and>
      cfg_storages (ws_cfg t) = cfg_storages (ws_cfg u)"
    if "ws_receiver u = Received \<or> (\<exists>k. ws_receiver u = Reading k)" "ws_writers u = []" for u
    using received_ends [of u V] reading_ends [of u _ V] that
    by (intro exI [of _ "u\<lparr>ws_receiver := Waiting, ws_seen := cfg_storages (ws_cfg u)\<rparr>"]) auto
  show ?thesis
  proof (cases "ws_seen s = cfg_storages (ws_cfg s)")
    case True
    then show ?thesis by blast
  next
    case False
    with assms(1) have pending: "update_pending s" by (simp add: watch_inv_def)
    show ?thesis
    proof (cases "ws_receiver s")
      case Waiting
      with pending have "cfg_watchChan (ws_cfg s) = Some (Suc 0)" by (simp add: update_pending_def)
      from receive [OF Waiting this, of V] obtain u where u: "watch_step V s u" "ws_receiver u = Received"
        "ws_writers u = []" "cfg_storages (ws_cfg u) = cfg_storages (ws_cfg s)"
        by (fastforce simp: assms(2))
      from ends [of u] u show ?thesis by (metis converse_rtranclp_into_rtranclp)
    next
      case Ended
      with pending assms(1) show ?thesis by (simp add: update_pending_def watch_inv_def)
    qed (use ends [of s] assms(2) in auto)
  qed
qed

subsection \<open>A writer during the reads\<close>

text \<open>A subscriber that has yet to read, and a writer that waits: neither will ever go on.\<close>

definition watch_stuck :: "('v, 'w, 'f) watch_state \<Rightarrow> bool" where
  "watch_stuck s \<longleftrightarrow> (\<exists>k. ws_receiver s = Reading (Suc k)) \<and> ws_writers s \<noteq> []"

lemma stuck_step:
  assumes "watch_step V s t" and "watch_stuck s"
  shows "watch_stuck t \<and> ws_receiver t = ws_receiver s \<and> ws_cfg t = ws_cfg s \<and> ws_seen t = ws_seen s"
  using assms by (induction rule: watch_step.induct) (auto simp: watch_stuck_def)

lemma stuck_forever:
  assumes "(watch_step V)\<^sup>*\<^sup>* s t" and "watch_stuck s"
  shows "watch_stuck t \<and> ws_receiver t = ws_receiver s \<and> ws_cfg t = ws_cfg s \<and> ws_seen t = ws_seen s"
  using assms by (induction rule: rtranclp_induct) (auto dest: stuck_step)

end
