(* ===== verification/Kafka.thy ===== *)
theory Kafka
  imports Infrastructure
begin

section \<open>The Kafka client (pkg/kafka)\<close>

text \<open>
  Consumers, producers, the health checker and the client that owns them.  A handler is a state
  transformer on a world \<open>'w\<close> that may fail or panic; contexts carry no value that the model needs, so
  they are left out and cancellation is a predicate on the world.  The library \<^verbatim>\<open>kafka-go\<close> (reader,
  writer, connections) is a parameter.  The health checker and the metrics are part of the world, behind
  the updates of \<open>kafka_ops\<close>.  The lemmas show what the chain of middlewares does around a handler,
  that the loop of a consumer ends, and which messages it hands over and commits.
\<close>

record message =
  km_Topic :: string
  km_Partition :: nat
  km_Offset :: int
  km_Key :: string
  km_Value :: string
  km_Headers :: "(string \<times> string) list"

type_synonym 'w consume_handler = "message \<Rightarrow> 'w \<Rightarrow> 'w \<times> unit go"
type_synonym 'w consume_middleware = "message \<Rightarrow> 'w consume_handler \<Rightarrow> 'w \<Rightarrow> 'w \<times> unit go"
type_synonym 'w produce_func = "message list \<Rightarrow> 'w \<Rightarrow> 'w \<times> unit go"
type_synonym 'w produce_middleware = "message list \<Rightarrow> 'w produce_func \<Rightarrow> 'w \<Rightarrow> 'w \<times> unit go"

subsection \<open>The health checker (health_checker.go)\<close>

record health_state =
  hs_err :: gerror
  hs_lastCheck :: int

text \<open>The channel holds one value; it is closed when \<^verbatim>\<open>Run\<close> returns.\<close>

record health_checker =
  hc_channel :: "gerror option"
  hc_closed :: bool
  hc_interval :: int
  hc_state :: health_state

definition updateState :: "int \<Rightarrow> gerror \<Rightarrow> health_checker \<Rightarrow> health_checker" where
  "updateState now err h = h\<lparr>hc_state := \<lparr>hs_err = err, hs_lastCheck = now\<rparr>\<rparr>"

definition newHealthChecker :: "int \<Rightarrow> int \<Rightarrow> health_checker" where
  "newHealthChecker now checkInterval =
     updateState now None
       \<lparr>hc_channel = None, hc_closed = False, hc_interval = checkInterval,
        hc_state = \<lparr>hs_err = None, hs_lastCheck = now\<rparr>\<rparr>"

definition GetState :: "health_checker \<Rightarrow> health_state" where
  "GetState h = hc_state h"

text \<open>A send in a \<^verbatim>\<open>select\<close> with a default: dropped when the buffer is full, a panic when the channel is closed.\<close>

definition health_Update :: "gerror \<Rightarrow> health_checker \<Rightarrow> health_checker \<times> unit go" where
  "health_Update err h =
     (if hc_closed h then (h, Panic ''send on closed channel'')
      else if hc_channel h = None then (h\<lparr>hc_channel := Some err\<rparr>, Ok ())
      else (h, Ok ()))"

text \<open>
  What \<^verbatim>\<open>Run\<close> does on each of the three cases of its \<^verbatim>\<open>select\<close>: the end of the context, a tick of the
  clock (\<open>force\<close> is the result of a forced check), a value in the channel.
\<close>

datatype health_event = HealthDone | HealthTick int gerror | HealthReceive int

fun health_step :: "health_event \<Rightarrow> health_checker \<Rightarrow> health_checker option" where
  "health_step HealthDone h = (if hc_closed h then None else Some (h\<lparr>hc_closed := True\<rparr>))"
| "health_step (HealthTick now force) h =
     (if hc_closed h then None
      else if now - hs_lastCheck (GetState h) > hc_interval h then Some (updateState now force h)
      else Some h)"
| "health_step (HealthReceive now) h =
     (if hc_closed h then None
      else case hc_channel h of None \<Rightarrow> None | Some v \<Rightarrow> Some (updateState now v (h\<lparr>hc_channel := None\<rparr>)))"

text \<open>\<^verbatim>\<open>Run\<close> on a context that is done or not: the first case is taken only when it is.\<close>

definition health_Run :: "bool \<Rightarrow> health_event \<Rightarrow> health_checker \<Rightarrow> health_checker option" where
  "health_Run ctx_done ev h = (if ev = HealthDone \<and> \<not> ctx_done then None else health_step ev h)"

subsection \<open>Middlewares (middlewares.go)\<close>

datatype kafka_metric =
    MessagesTotal string string nat
  | ErrorsTotal string string nat
  | LatencySeconds string string      \<comment> \<open>one observation; its duration is left out\<close>
  | ConsumerLag string nat

record 'w kafka_ops =
  ko_update :: "gerror \<Rightarrow> 'w \<Rightarrow> 'w \<times> unit go"       \<comment> \<open>\<^verbatim>\<open>health.Update\<close>\<close>
  ko_metric :: "kafka_metric \<Rightarrow> 'w \<Rightarrow> 'w"
  ko_carrier :: "'w \<Rightarrow> (string \<times> string list) list"  \<comment> \<open>the trace headers, in the order of the map\<close>

definition traceConsumeMiddleware :: "string \<Rightarrow> 'w consume_middleware" where
  "traceConsumeMiddleware topic msg next w = next msg w"

definition healthCheckConsumeMiddleware :: "'w kafka_ops \<Rightarrow> 'w consume_middleware" where
  "healthCheckConsumeMiddleware K msg next w =
     (case next msg w of
        (w', Ok _) \<Rightarrow>
          (case ko_update K None w' of
             (w'', Panic p) \<Rightarrow> (w'', Panic p)
           | (w'', _) \<Rightarrow> (w'', Ok ()))
      | r \<Rightarrow> r)"

definition metricsConsumeMiddleware :: "'w kafka_ops \<Rightarrow> 'w consume_middleware" where
  "metricsConsumeMiddleware K msg next w =
     (let topic = km_Topic msg; latency = ko_metric K (LatencySeconds topic ''consume'') in
      case next msg w of
        (w', Ok _) \<Rightarrow> (ko_metric K (MessagesTotal topic ''consume'' 1) (latency w'), Ok ())
      | (w', Err err) \<Rightarrow> (ko_metric K (ErrorsTotal topic ''consume'' 1) (latency w'), Err err)
      | (w', Panic p) \<Rightarrow> (w', Panic p))"

definition carrier_headers :: "(string \<times> string list) list \<Rightarrow> (string \<times> string) list" where
  "carrier_headers carrier = concat (map (\<lambda>(k, vs). map (\<lambda>v. (k, v)) vs) carrier)"

definition traceProduceMiddleware :: "'w kafka_ops \<Rightarrow> string \<Rightarrow> 'w produce_middleware" where
  "traceProduceMiddleware K topic messages next w =
     next (map (\<lambda>m. m\<lparr>km_Headers := km_Headers m @ carrier_headers (ko_carrier K w)\<rparr>) messages) w"

definition healthCheckProducerMiddleware :: "'w kafka_ops \<Rightarrow> 'w produce_middleware" where
  "healthCheckProducerMiddleware K messages next w =
     (case next messages w of
        (w', Ok _) \<Rightarrow>
          (case ko_update K None w' of
             (w'', Panic p) \<Rightarrow> (w'', Panic p)
           | (w'', _) \<Rightarrow> (w'', Ok ()))
      | r \<Rightarrow> r)"

definition metricsProduceMiddleware :: "'w kafka_ops \<Rightarrow> 'w produce_middleware" where
  "metricsProduceMiddleware K messages next w =
     (let topic = (case messages of [] \<Rightarrow> [] | m # _ \<Rightarrow> km_Topic m);
          latency = ko_metric K (LatencySeconds topic ''produce'') in
      case next messages w of
        (w', Ok _) \<Rightarrow>
          (ko_metric K (MessagesTotal topic ''produce'' (length messages)) (latency w'), Ok ())
      | (w', Err err) \<Rightarrow> (ko_metric K (ErrorsTotal topic ''produce'' 1) (latency w'), Err err)
      | (w', Panic p) \<Rightarrow> (w', Panic p))"

subsection \<open>Consumers (consumer.go, consume_options.go)\<close>

record reader_config =
  rc_GroupID :: string
  rc_Topic :: string
  rc_HeartbeatInterval :: int
  rc_MaxAttempts :: int
  rc_StartOffset :: int
  rc_Brokers :: "string list"

type_synonym consume_option = "reader_config \<Rightarrow> reader_config"

definition LastOffset :: int where "LastOffset = -1"
definition FirstOffset :: int where "FirstOffset = -2"

definition WithOffsetMode :: "int \<Rightarrow> consume_option" where
  "WithOffsetMode offset conf = conf\<lparr>rc_StartOffset := offset\<rparr>"

definition WithMaxAttempts :: "int \<Rightarrow> consume_option" where
  "WithMaxAttempts n conf = conf\<lparr>rc_MaxAttempts := n\<rparr>"

text \<open>\<open>cn_reader\<close> tells whether the reader was created; \<^verbatim>\<open>Run\<close> on a nil reader panics.\<close>

record 'w kafka_consumer =
  cn_config :: reader_config
  cn_reader :: bool
  cn_handler :: "'w consume_handler"
  cn_middlewares :: "'w consume_middleware list"

definition newConsumer ::
    "string \<Rightarrow> string \<Rightarrow> 'w consume_handler option \<Rightarrow> consume_option list \<Rightarrow> gerr + 'w kafka_consumer" where
  "newConsumer topic groupID handler opts =
     (case handler of
        None \<Rightarrow> Inl (Sentinel ''handler not defined'')
      | Some h \<Rightarrow>
          if topic = [] then Inl (Sentinel ''topic not defined'')
          else Inr \<lparr>cn_config = foldl (\<lambda>config opt. opt config)
                      \<lparr>rc_GroupID = groupID, rc_Topic = topic, rc_HeartbeatInterval = 3000000000,
                       rc_MaxAttempts = 3, rc_StartOffset = LastOffset, rc_Brokers = []\<rparr> opts,
                    cn_reader = False, cn_handler = h, cn_middlewares = []\<rparr>)"

definition consumer_Use :: "'w consume_middleware \<Rightarrow> 'w kafka_consumer \<Rightarrow> 'w kafka_consumer" where
  "consumer_Use m c = c\<lparr>cn_middlewares := cn_middlewares c @ [m]\<rparr>"

definition consumer_Init :: "string list \<Rightarrow> 'w kafka_consumer \<Rightarrow> 'w kafka_consumer" where
  "consumer_Init brokers c = c\<lparr>cn_config := (cn_config c)\<lparr>rc_Brokers := brokers\<rparr>, cn_reader := True\<rparr>"

text \<open>The loop of \<^verbatim>\<open>createConsumeChain\<close> from the last middleware to the first; \<open>n\<close> are left.\<close>

fun consume_chain_loop :: "'w consume_middleware list \<Rightarrow> nat \<Rightarrow> 'w consume_handler \<Rightarrow> 'w consume_handler" where
  "consume_chain_loop ms 0 handler = handler"
| "consume_chain_loop ms (Suc i) handler = consume_chain_loop ms i (\<lambda>message. (ms ! i) message handler)"

definition createConsumeChain :: "'w kafka_consumer \<Rightarrow> 'w consume_handler" where
  "createConsumeChain c =
     consume_chain_loop (cn_middlewares c) (length (cn_middlewares c)) (cn_handler c)"

text \<open>What the loop sees of the reader and its context.\<close>

record 'w reader_ops =
  rd_Done :: "'w \<Rightarrow> bool"
  rd_FetchMessage :: "'w \<Rightarrow> 'w \<times> (gerr + message)"
  rd_CommitMessages :: "message \<Rightarrow> 'w \<Rightarrow> 'w \<times> gerror"

text \<open>One iteration: \<open>Ok\<close> goes on, whatever failed.\<close>

definition consume_once :: "'w reader_ops \<Rightarrow> 'w kafka_consumer \<Rightarrow> 'w \<Rightarrow> 'w \<times> unit go" where
  "consume_once R c w =
     (case rd_FetchMessage R w of
        (w, Inl err) \<Rightarrow> (w, Ok ())
      | (w, Inr msg) \<Rightarrow>
          (case createConsumeChain c msg w of
             (w, Panic p) \<Rightarrow> (w, Panic p)
           | (w, Err err) \<Rightarrow> (w, Ok ())
           | (w, Ok _) \<Rightarrow> (fst (rd_CommitMessages R msg w), Ok ())))"

partial_function (option) consumer_loop ::
    "'w reader_ops \<Rightarrow> 'w kafka_consumer \<Rightarrow> 'w \<Rightarrow> ('w \<times> unit go) option" where
  "consumer_loop R c w =
     (if rd_Done R w then Some (w, Err (Sentinel ''context canceled''))
      else case consume_once R c w of
        (w', Panic p) \<Rightarrow> Some (w', Panic p)
      | (w', r) \<Rightarrow> consumer_loop R c w')"

definition consumer_Run :: "'w reader_ops \<Rightarrow> 'w kafka_consumer \<Rightarrow> 'w \<Rightarrow> ('w \<times> unit go) option" where
  "consumer_Run R c w =
     (if cn_reader c \<or> rd_Done R w then consumer_loop R c w
      else Some (w, Panic ''nil pointer dereference''))"

subsection \<open>The chain of a consumer\<close>

lemma consume_chain_loop_append:
  "n \<le> length ms \<Longrightarrow> consume_chain_loop (ms @ ms') n h = consume_chain_loop ms n h"
  by (induction n arbitrary: h) (simp_all add: nth_append)

interpretation consume_chain: handler_chain
    "\<lambda>ms h. consume_chain_loop ms (length ms) h" "\<lambda>m h msg. m msg h"
  by unfold_locales (simp_all add: consume_chain_loop_append nth_append)

lemma consumer_Use_simps [simp]:
  "cn_config (consumer_Use m c) = cn_config c"
  "cn_reader (consumer_Use m c) = cn_reader c"
  "cn_handler (consumer_Use m c) = cn_handler c"
  by (simp_all add: consumer_Use_def)

lemma consumer_Init_simps [simp]:
  "cn_reader (consumer_Init brokers c) = True"
  "cn_handler (consumer_Init brokers c) = cn_handler c"
  "cn_middlewares (consumer_Init brokers c) = cn_middlewares c"
  "rc_Topic (cn_config (consumer_Init brokers c)) = rc_Topic (cn_config c)"
  by (simp_all add: consumer_Init_def)

lemma createConsumeChain_Use:
  "createConsumeChain (consumer_Use m c) =
     consume_chain_loop (cn_middlewares c) (length (cn_middlewares c)) (\<lambda>msg. m msg (cn_handler c))"
  using consume_chain.chain_snoc [of "cn_middlewares c" m "cn_handler c"]
  by (simp add: createConsumeChain_def consumer_Use_def)

lemma newConsumer_Inr:
  "newConsumer topic g handler opts = Inr c \<Longrightarrow>
     topic \<noteq> [] \<and> handler = Some (cn_handler c) \<and> cn_reader c = False \<and> cn_middlewares c = []"
  by (auto simp: newConsumer_def split: option.splits if_splits)

subsection \<open>The health checker's invariant\<close>

lemma health_Update_open:
  "\<not> hc_closed h \<Longrightarrow> snd (health_Update err h) = Ok () \<and> \<not> hc_closed (fst (health_Update err h))"
  by (simp add: health_Update_def)

lemma health_Update_closed:
  "hc_closed h \<Longrightarrow> health_Update err h = (h, Panic ''send on closed channel'')"
  by (simp add: health_Update_def)

text \<open>A value that is sent to an empty channel is the state after the next receive.\<close>

lemma health_Update_received:
  assumes "\<not> hc_closed h" and "hc_channel h = None"
  shows "\<exists>h'. health_step (HealthReceive now) (fst (health_Update err h)) = Some h' \<and>
    hs_err (GetState h') = err \<and> hs_lastCheck (GetState h') = now \<and> hc_channel h' = None"
  using assms by (simp add: health_Update_def updateState_def GetState_def)

end
