(* ===== verification/Kafka_Client.thy ===== *)
theory Kafka_Client
  imports Kafka
begin

section \<open>Producers and the Kafka client (pkg/kafka/producer*.go, kafka_client.go)\<close>

text \<open>
  The producer with its options and its writer, and the client that registers consumers and producers,
  creates topics and checks the brokers.  The network (dialling, the controller, creating a topic,
  writing) is the record \<open>kafka_net\<close>.  The lemmas show that the first producer of a topic stays, which
  messages a registered producer writes, when the forced health check succeeds, and what one run of a
  registered consumer does over a scripted reader.
\<close>

subsection \<open>The dialer (kafka_dialer.go)\<close>

text \<open>Pointers to the configuration of TLS and to the SASL mechanism are addresses; \<open>None\<close> is nil.\<close>

record dialer =
  dl_ClientID :: string
  dl_TLS :: "nat option"
  dl_SASLMechanism :: "nat option"
  dl_Timeout :: int

definition newDialer :: "nat option \<Rightarrow> nat option \<Rightarrow> dialer" where
  "newDialer TLS SASLMechanism =
     \<lparr>dl_ClientID = ''kafka_client_id'', dl_TLS = TLS, dl_SASLMechanism = SASLMechanism,
      dl_Timeout = 30000000000\<rparr>"

record topic_config =
  tc_Topic :: string
  tc_NumPartitions :: int
  tc_ReplicationFactor :: int
  tc_ConfigEntries :: "(string \<times> string) list"

record 'w kafka_net =
  kn_dial :: "dialer \<Rightarrow> string \<Rightarrow> gerror"
  kn_Controller :: "string \<Rightarrow> gerr + (string \<times> int)"   \<comment> \<open>asked at a broker: host and port\<close>
  kn_CreateTopics :: "string \<Rightarrow> topic_config \<Rightarrow> 'w \<Rightarrow> 'w \<times> gerror"
  kn_WriteMessages :: "message list \<Rightarrow> 'w \<Rightarrow> 'w \<times> gerror"

subsection \<open>Producers (producer.go, producer_writer.go, producer_options.go, utils.go)\<close>

datatype required_acks = RequireNone | RequireOne | RequireAll

definition acks_value :: "required_acks \<Rightarrow> int" where
  "acks_value a = (case a of RequireNone \<Rightarrow> 0 | RequireOne \<Rightarrow> 1 | RequireAll \<Rightarrow> -1)"

definition CleanupPolicyCompact :: string where "CleanupPolicyCompact = ''compact''"
definition CleanupPolicyDelete :: string where "CleanupPolicyDelete = ''delete''"
definition CleanupPolicyCombined :: string where "CleanupPolicyCombined = ''compact,delete''"

definition isValidCleanupPolicy :: "string \<Rightarrow> bool" where
  "isValidCleanupPolicy policy =
     (policy = [] \<or> policy = CleanupPolicyCompact \<or> policy = CleanupPolicyDelete \<or>
      policy = CleanupPolicyCombined)"

record create_topic_config =
  ct_AllowCreate :: bool
  ct_CleanupPolicy :: string
  ct_ReplicationFactor :: int
  ct_NumPartitions :: int

record producer_config =
  pc_BatchTimeout :: int
  pc_CreatingConfig :: create_topic_config

type_synonym producer_option = "producer_config \<Rightarrow> producer_config"

definition zero_producer_config :: producer_config where
  "zero_producer_config =
     \<lparr>pc_BatchTimeout = 0,
      pc_CreatingConfig = \<lparr>ct_AllowCreate = False, ct_CleanupPolicy = [], ct_ReplicationFactor = 0,
        ct_NumPartitions = 0\<rparr>\<rparr>"

definition WithTopicCreate :: "create_topic_config \<Rightarrow> producer_option" where
  "WithTopicCreate cfg conf = conf\<lparr>pc_CreatingConfig := cfg\<lparr>ct_AllowCreate := True\<rparr>\<rparr>"

definition WithBatchTimeout :: "int \<Rightarrow> producer_option" where
  "WithBatchTimeout batchTimeout conf = conf\<lparr>pc_BatchTimeout := batchTimeout\<rparr>"

record writer =
  wr_Addr :: "string list"
  wr_MaxAttempts :: nat
  wr_BatchSize :: nat
  wr_BatchTimeout :: int
  wr_RequiredAcks :: int
  wr_ClientID :: string
  wr_TLS :: "nat option"
  wr_SASL :: "nat option"
  wr_AllowAutoTopicCreation :: bool

definition createWriter :: "string list \<Rightarrow> dialer \<Rightarrow> producer_config \<Rightarrow> gerr + writer" where
  "createWriter brokers d config =
     (if brokers = [] then Inl (Sentinel ''brokers not specified'')
      else Inr \<lparr>wr_Addr = brokers, wr_MaxAttempts = 10, wr_BatchSize = 100,
        wr_BatchTimeout = (if pc_BatchTimeout config \<noteq> 0 then pc_BatchTimeout config else 5000000),
        wr_RequiredAcks = acks_value RequireOne, wr_ClientID = dl_ClientID d, wr_TLS = dl_TLS d,
        wr_SASL = dl_SASLMechanism d, wr_AllowAutoTopicCreation = False\<rparr>)"

record 'w producer =
  pr_writer :: writer
  pr_topic :: string
  pr_middlewares :: "'w produce_middleware list"

definition newProducer ::
    "string list \<Rightarrow> dialer \<Rightarrow> string \<Rightarrow> producer_config \<Rightarrow> gerr + 'w producer" where
  "newProducer brokers d topic config =
     (case createWriter brokers d config of
        Inl err \<Rightarrow> Inl err
      | Inr w \<Rightarrow>
          Inr \<lparr>pr_writer = w\<lparr>wr_AllowAutoTopicCreation := False\<rparr>, pr_topic = topic,
               pr_middlewares = []\<rparr>)"

definition producer_Use :: "'w produce_middleware \<Rightarrow> 'w producer \<Rightarrow> 'w producer" where
  "producer_Use m p = p\<lparr>pr_middlewares := pr_middlewares p @ [m]\<rparr>"

fun produce_chain_loop :: "'w produce_middleware list \<Rightarrow> nat \<Rightarrow> 'w produce_func \<Rightarrow> 'w produce_func" where
  "produce_chain_loop ms 0 handler = handler"
| "produce_chain_loop ms (Suc i) handler = produce_chain_loop ms i (\<lambda>messages. (ms ! i) messages handler)"

definition write_messages :: "'w kafka_net \<Rightarrow> 'w produce_func" where
  "write_messages N messages w =
     (case kn_WriteMessages N messages w of (w', err) \<Rightarrow> (w', go_of_error err))"

definition createProduceChain :: "'w kafka_net \<Rightarrow> 'w producer \<Rightarrow> 'w produce_func" where
  "createProduceChain N p =
     produce_chain_loop (pr_middlewares p) (length (pr_middlewares p)) (write_messages N)"

text \<open>A message as the caller gives it: key and value.\<close>

record produce_message =
  pm_Key :: string
  pm_Value :: string

definition convertSlice :: "'s list \<Rightarrow> ('s \<Rightarrow> 't) \<Rightarrow> 't list" where
  "convertSlice input convert = (if input = [] then [] else map convert input)"

definition message_of :: "string \<Rightarrow> produce_message \<Rightarrow> message" where
  "message_of topic m =
     \<lparr>km_Topic = topic, km_Partition = 0, km_Offset = 0, km_Key = pm_Key m, km_Value = pm_Value m,
      km_Headers = []\<rparr>"

definition Produce :: "'w kafka_net \<Rightarrow> 'w producer \<Rightarrow> produce_message list \<Rightarrow> 'w \<Rightarrow> 'w \<times> unit go" where
  "Produce N p messages w = createProduceChain N p (convertSlice messages (message_of (pr_topic p))) w"

subsection \<open>The client (kafka_client.go)\<close>

record 'w kafka_client =
  kc_dialer :: dialer
  kc_brokers :: "string list"
  kc_consumers :: "'w kafka_consumer list"
  kc_producers :: "string \<rightharpoonup> 'w producer"
  kc_consumerGroup :: string

type_synonym 'w client_option = "'w kafka_client \<Rightarrow> 'w kafka_client"

definition ErrBrokersNotFound :: gerr where
  "ErrBrokersNotFound = Sentinel ''brokers not found''"
definition ErrInvalidCleanupPolicy :: gerr where
  "ErrInvalidCleanupPolicy = Sentinel ''invalid cleanup policy''"

definition WithTLS :: "nat option \<Rightarrow> 'w client_option" where
  "WithTLS TLS client = client\<lparr>kc_dialer := (kc_dialer client)\<lparr>dl_TLS := TLS\<rparr>\<rparr>"

definition WithSASL :: "nat option \<Rightarrow> 'w client_option" where
  "WithSASL mechanism client =
     client\<lparr>kc_dialer := (kc_dialer client)\<lparr>dl_SASLMechanism := mechanism\<rparr>\<rparr>"

text \<open>The health checker that the constructor starts with is part of the world (\<open>ko_update\<close>).\<close>

definition NewKafkaClient ::
    "string list \<Rightarrow> string \<Rightarrow> 'w client_option list \<Rightarrow> gerr + 'w kafka_client" where
  "NewKafkaClient brokers consumerGroup opts =
     (if brokers = [] then Inl ErrBrokersNotFound
      else Inr (foldl (\<lambda>client opt. opt client)
        \<lparr>kc_dialer = newDialer None None, kc_brokers = brokers, kc_consumers = [],
         kc_producers = Map.empty, kc_consumerGroup = consumerGroup\<rparr> opts))"

text \<open>The loop of \<^verbatim>\<open>forceHealthCheck\<close> with the error so far.\<close>

fun force_loop :: "'w kafka_net \<Rightarrow> dialer \<Rightarrow> gerror \<Rightarrow> string list \<Rightarrow> gerror" where
  "force_loop N d err [] = (case err of None \<Rightarrow> Some ErrBrokersNotFound | Some e \<Rightarrow> Some e)"
| "force_loop N d err (broker # brokers) =
     (case kn_dial N d broker of
        Some e \<Rightarrow> force_loop N d (errors_Join [err, Some e]) brokers
      | None \<Rightarrow>
          (case kn_Controller N broker of
             Inl e2 \<Rightarrow> force_loop N d (errors_Join [err, Some e2]) brokers
           | Inr _ \<Rightarrow> None))"

definition forceHealthCheck :: "'w kafka_net \<Rightarrow> 'w kafka_client \<Rightarrow> gerror" where
  "forceHealthCheck N k = force_loop N (kc_dialer k) None (kc_brokers k)"

definition kafka_HealthCheck :: "health_checker \<Rightarrow> gerror" where
  "kafka_HealthCheck h = hs_err (GetState h)"

definition RegisterConsumer ::
    "'w kafka_ops \<Rightarrow> string \<Rightarrow> 'w consume_handler option \<Rightarrow> consume_option list \<Rightarrow> 'w kafka_client \<Rightarrow> 'w \<Rightarrow>
     ('w kafka_client \<times> 'w) \<times> gerror" where
  "RegisterConsumer K topic handler opts k w =
     (case newConsumer topic (kc_consumerGroup k) handler opts of
        Inl err \<Rightarrow> ((k, w), Some err)
      | Inr c \<Rightarrow>
          let c = consumer_Init (kc_brokers k) c;
              c = consumer_Use (traceConsumeMiddleware topic) c;
              c = consumer_Use (healthCheckConsumeMiddleware K) c;
              w = ko_metric K (MessagesTotal topic ''consume'' 0) w;
              w = ko_metric K (ErrorsTotal topic ''consume'' 0) w;
              w = ko_metric K (LatencySeconds topic ''consume'') w;
              w = ko_metric K (ConsumerLag topic 0) w;
              c = consumer_Use (metricsConsumeMiddleware K) c
          in ((k\<lparr>kc_consumers := kc_consumers k @ [c]\<rparr>, w), None))"

text \<open>The first broker that can be dialled, or the errors of all of them.\<close>

fun dial_first :: "'w kafka_net \<Rightarrow> dialer \<Rightarrow> gerror \<Rightarrow> string list \<Rightarrow> gerror + string" where
  "dial_first N d err [] = Inl err"
| "dial_first N d err (broker # brokers) =
     (case kn_dial N d broker of
        None \<Rightarrow> Inr broker
      | Some e \<Rightarrow> dial_first N d (errors_Join [err, Some e]) brokers)"

text \<open>\<^verbatim>\<open>net.JoinHostPort\<close>: a host with a colon is put in brackets.\<close>

definition JoinHostPort :: "string \<Rightarrow> string \<Rightarrow> string" where
  "JoinHostPort host port =
     (if CHR '':'' \<in> set host then ''['' @ host @ '']:'' @ port else host @ '':'' @ port)"

definition topic_config_of :: "string \<Rightarrow> create_topic_config \<Rightarrow> topic_config" where
  "topic_config_of topic config =
     \<lparr>tc_Topic = topic,
      tc_NumPartitions = (if ct_NumPartitions config = 0 then -1 else ct_NumPartitions config),
      tc_ReplicationFactor = (if ct_ReplicationFactor config = 0 then -1 else ct_ReplicationFactor config),
      tc_ConfigEntries = (if 0 < length (ct_CleanupPolicy config)
        then [(''cleanup.policy'', ct_CleanupPolicy config)] else [])\<rparr>"

definition createTopic ::
    "'w kafka_net \<Rightarrow> string \<Rightarrow> create_topic_config \<Rightarrow> 'w kafka_client \<Rightarrow> 'w \<Rightarrow> 'w \<times> gerror" where
  "createTopic N topic config k w =
     (case dial_first N (kc_dialer k) None (kc_brokers k) of
        Inl err \<Rightarrow> (w, err)
      | Inr broker \<Rightarrow>
          (case kn_Controller N broker of
             Inl err \<Rightarrow> (w, Some err)
           | Inr (host, port) \<Rightarrow>
               let addr = JoinHostPort host (show_int port) in
               (case kn_dial N (kc_dialer k) addr of
                  Some err \<Rightarrow> (w, Some err)
                | None \<Rightarrow>
                    if \<not> isValidCleanupPolicy (ct_CleanupPolicy config)
                    then (w, Some (Wrapped (ct_CleanupPolicy config) ErrInvalidCleanupPolicy))
                    else kn_CreateTopics N addr (topic_config_of topic config) w)))"

text \<open>
  \<^verbatim>\<open>producer.Use\<close> is called before the error of \<^verbatim>\<open>newProducer\<close> is looked at; on a nil producer it
  panics.
\<close>

definition RegisterProducer ::
    "'w kafka_ops \<Rightarrow> 'w kafka_net \<Rightarrow> string \<Rightarrow> producer_option list \<Rightarrow> 'w kafka_client \<Rightarrow> 'w \<Rightarrow>
     ('w kafka_client \<times> 'w) \<times> 'w producer go" where
  "RegisterProducer K N topic opts k w =
     (if topic = [] then ((k, w), Err (Sentinel ''topic not specified''))
      else case kc_producers k topic of
        Some p \<Rightarrow> ((k, w), Ok p)
      | None \<Rightarrow>
          let config = foldl (\<lambda>conf opt. opt conf) zero_producer_config opts;
              (w, err) = (if ct_AllowCreate (pc_CreatingConfig config)
                then createTopic N topic (pc_CreatingConfig config) k w else (w, None))
          in case err of
            Some e \<Rightarrow> ((k, w), Err e)
          | None \<Rightarrow>
              (case newProducer (kc_brokers k) (kc_dialer k) topic config of
                 Inl _ \<Rightarrow> ((k, w), Panic ''nil pointer dereference'')
               | Inr p \<Rightarrow>
                   let p = producer_Use (traceProduceMiddleware K topic) p;
                       p = producer_Use (healthCheckProducerMiddleware K) p;
                       w = ko_metric K (MessagesTotal topic ''produce'' 0) w;
                       w = ko_metric K (ErrorsTotal topic ''produce'' 0) w;
                       w = ko_metric K (LatencySeconds topic ''produce'') w;
                       p = producer_Use (metricsProduceMiddleware K) p
                   in ((k\<lparr>kc_producers := (kc_producers k)(topic \<mapsto> p)\<rparr>, w), Ok p)))"

definition GetProducer :: "string \<Rightarrow> 'w kafka_client \<Rightarrow> 'w producer option" where
  "GetProducer topic k = kc_producers k topic"

text \<open>
  \<^verbatim>\<open>Close\<close>: every consumer in the order of registration (one without a reader closes to nil), then every
  producer in the order \<open>ps\<close> in which the map is walked; all errors are joined.
\<close>

definition consumer_Close :: "('w kafka_consumer \<Rightarrow> 'w closer_func) \<Rightarrow> 'w kafka_consumer \<Rightarrow> 'w closer_func" where
  "consumer_Close close_reader c w = (if \<not> cn_reader c then (w, None) else close_reader c w)"

definition kafka_Close ::
    "('w kafka_consumer \<Rightarrow> 'w closer_func) \<Rightarrow> ('w producer \<Rightarrow> 'w closer_func) \<Rightarrow> 'w producer list \<Rightarrow>
     'w kafka_client \<Rightarrow> 'w \<Rightarrow> 'w \<times> gerror" where
  "kafka_Close close_reader close_writer ps k w =
     (case closeAll (map (consumer_Close close_reader) (kc_consumers k)) None w of
        (w', err) \<Rightarrow> closeAll (map close_writer ps) err w')"

text \<open>
  \<^verbatim>\<open>Run\<close> starts one goroutine for each consumer and one for the health checker, all on the same context
  (\<open>rd_Done R\<close>), and returns nil.
\<close>

definition kafka_Run ::
    "'w reader_ops \<Rightarrow> 'w kafka_client \<Rightarrow>
     (('w \<Rightarrow> ('w \<times> unit go) option) list \<times> ('w \<Rightarrow> health_event \<Rightarrow> health_checker \<Rightarrow> health_checker option)) \<times> gerror" where
  "kafka_Run R k = ((map (consumer_Run R) (kc_consumers k), \<lambda>w. health_Run (rd_Done R w)), None)"

definition collectLagMetrics_tick :: "'w kafka_ops \<Rightarrow> 'w kafka_consumer \<Rightarrow> nat \<Rightarrow> 'w \<Rightarrow> 'w" where
  "collectLagMetrics_tick K c lag w = ko_metric K (ConsumerLag (rc_Topic (cn_config c)) lag) w"

subsection \<open>Brokers\<close>

lemma errors_Join_second: "errors_Join [a, Some e] \<noteq> None"
  by simp

lemma force_loop_None_iff:
  "force_loop N d err brokers = None \<longleftrightarrow>
     (\<exists>b \<in> set brokers. kn_dial N d b = None \<and> (\<exists>c. kn_Controller N b = Inr c))"
  by (induction brokers arbitrary: err) (auto split: option.splits sum.splits)

text \<open>No failure of a broker is lost while the loop goes on.\<close>

lemma force_loop_Is:
  assumes "t = Sentinel n" and "errors_Is err t" and "force_loop N d err brokers \<noteq> None"
  shows "errors_Is (force_loop N d err brokers) t"
  using assms(2,3)
proof (induction brokers arbitrary: err)
  case Nil
  then show ?case by (auto split: option.splits)
next
  case (Cons b brokers)
  show ?case
  proof (cases "kn_dial N d b")
    case (Some e)
    have "errors_Is (errors_Join [err, Some e]) t"
      by (simp add: errors_Is_Join_pair [OF assms(1)] Cons.prems(1))
    with Cons.IH Cons.prems(2) show ?thesis by (simp add: Some)
  next
    case None
    with Cons.prems(2) obtain e where e: "kn_Controller N b = Inl e"
      by (auto split: sum.splits)
    have "errors_Is (errors_Join [err, Some e]) t"
      by (simp add: errors_Is_Join_pair [OF assms(1)] Cons.prems(1))
    with Cons.IH Cons.prems(2) show ?thesis by (simp add: None e)
  qed
qed

lemma force_loop_reports:
  assumes t: "t = Sentinel n" and b: "b \<in> set brokers"
    and e: "kn_dial N d b = Some t \<or> (kn_dial N d b = None \<and> kn_Controller N b = Inl t)"
    and "force_loop N d err brokers \<noteq> None"
  shows "errors_Is (force_loop N d err brokers) t"
  using b assms(4)
proof (induction brokers arbitrary: err)
  case Nil
  then show ?case by simp
next
  case (Cons a brokers)
  show ?case
  proof (cases "a = b")
    case True
    have "errors_Is (errors_Join [err, Some t]) t"
      unfolding errors_Is_Join_pair [OF t] by (simp add: t)
    moreover have "force_loop N d err (a # brokers) = force_loop N d (errors_Join [err, Some t]) brokers"
      using e True by auto
    ultimately show ?thesis using force_loop_Is [OF t] Cons.prems(2) by simp
  next
    case False
    then have b: "b \<in> set brokers" using Cons.prems(1) by simp
    show ?thesis
      using Cons.prems(2) Cons.IH [OF b] by (auto split: option.splits sum.splits)
  qed
qed

lemma dial_first_Inr:
  "dial_first N d err brokers = Inr b \<Longrightarrow> b \<in> set brokers \<and> kn_dial N d b = None"
  by (induction brokers arbitrary: err) (auto split: option.splits)

lemma dial_first_Inl_None: "dial_first N d err brokers = Inl None \<Longrightarrow> brokers = []"
proof (induction brokers arbitrary: err)
  case (Cons b brokers)
  then show ?case by (cases brokers) (auto split: option.splits)
qed simp

subsection \<open>Producers are registered once\<close>

definition store_producer :: "string \<Rightarrow> 'w producer \<Rightarrow> 'w kafka_client \<Rightarrow> 'w kafka_client" where
  "store_producer topic p k =
     (case kc_producers k topic of
        Some _ \<Rightarrow> k
      | None \<Rightarrow> k\<lparr>kc_producers := (kc_producers k)(topic \<mapsto> p)\<rparr>)"

interpretation producers: registry kc_producers store_producer
  by unfold_locales (simp_all add: store_producer_def split: option.splits)

text \<open>The producer that a registration builds.\<close>

definition built_producer ::
    "'w kafka_ops \<Rightarrow> string \<Rightarrow> producer_config \<Rightarrow> 'w kafka_client \<Rightarrow> 'w producer" where
  "built_producer K topic config k =
     \<lparr>pr_writer = \<lparr>wr_Addr = kc_brokers k, wr_MaxAttempts = 10, wr_BatchSize = 100,
        wr_BatchTimeout = (if pc_BatchTimeout config \<noteq> 0 then pc_BatchTimeout config else 5000000),
        wr_RequiredAcks = 1, wr_ClientID = dl_ClientID (kc_dialer k), wr_TLS = dl_TLS (kc_dialer k),
        wr_SASL = dl_SASLMechanism (kc_dialer k), wr_AllowAutoTopicCreation = False\<rparr>,
      pr_topic = topic,
      pr_middlewares = [traceProduceMiddleware K topic, healthCheckProducerMiddleware K,
        metricsProduceMiddleware K]\<rparr>"

lemma RegisterProducer_cases:
  assumes "kc_brokers k \<noteq> []"
  shows "\<exists>w'. RegisterProducer K N topic opts k w =
    (if topic = [] then ((k, w), Err (Sentinel ''topic not specified''))
     else case kc_producers k topic of
       Some p \<Rightarrow> ((k, w), Ok p)
     | None \<Rightarrow>
         let config = foldl (\<lambda>conf opt. opt conf) zero_producer_config opts;
             err = (if ct_AllowCreate (pc_CreatingConfig config)
               then snd (createTopic N topic (pc_CreatingConfig config) k w) else None)
         in case err of
           Some e \<Rightarrow> ((k, w'), Err e)
         | None \<Rightarrow>
             ((store_producer topic (built_producer K topic config k) k, w'),
              Ok (built_producer K topic config k)))"
proof -
  define config where "config = foldl (\<lambda>conf opt. opt conf) zero_producer_config opts"
  obtain w1 err where c: "(if ct_AllowCreate (pc_CreatingConfig config)
      then createTopic N topic (pc_CreatingConfig config) k w else (w, None)) = (w1, err)"
    by fastforce
  then have err: "err = (if ct_AllowCreate (pc_CreatingConfig config)
      then snd (createTopic N topic (pc_CreatingConfig config) k w) else None)"
    by (metis snd_conv)
  show ?thesis
    using assms
    by (cases err)
      (simp_all add: RegisterProducer_def config_def [symmetric] c err [symmetric] Let_def
        newProducer_def createWriter_def producer_Use_def built_producer_def store_producer_def
        acks_value_def split: option.splits)
qed

subsection \<open>The clients that the program can build\<close>

inductive client_reachable :: "'w kafka_ops \<Rightarrow> 'w kafka_net \<Rightarrow> 'w kafka_client \<Rightarrow> bool"
  for K :: "'w kafka_ops" and N :: "'w kafka_net" where
  cr_new: "set opts \<subseteq> range WithTLS \<union> range WithSASL \<Longrightarrow>
     NewKafkaClient brokers gid opts = Inr k \<Longrightarrow> client_reachable K N k"
| cr_consumer: "client_reachable K N k \<Longrightarrow>
     RegisterConsumer K topic handler copts k w = ((k', w'), e) \<Longrightarrow> client_reachable K N k'"
| cr_producer: "client_reachable K N k \<Longrightarrow>
     RegisterProducer K N topic popts k w = ((k', w'), r) \<Longrightarrow> client_reachable K N k'"

definition wf_client :: "'w kafka_client \<Rightarrow> bool" where
  "wf_client k \<longleftrightarrow>
     kc_brokers k \<noteq> [] \<and> kc_producers k [] = None \<and>
     (\<forall>topic p. kc_producers k topic = Some p \<longrightarrow>
        pr_topic p = topic \<and> wr_Addr (pr_writer p) = kc_brokers k \<and>
        \<not> wr_AllowAutoTopicCreation (pr_writer p)) \<and>
     (\<forall>c \<in> set (kc_consumers k). cn_reader c \<and> rc_Brokers (cn_config c) = kc_brokers k)"

lemma client_options_keep:
  assumes "set opts \<subseteq> range WithTLS \<union> range WithSASL"
  shows "kc_brokers (foldl (\<lambda>c opt. opt c) k opts) = kc_brokers k \<and>
    kc_producers (foldl (\<lambda>c opt. opt c) k opts) = kc_producers k \<and>
    kc_consumers (foldl (\<lambda>c opt. opt c) k opts) = kc_consumers k"
  using assms
proof (induction opts arbitrary: k)
  case Nil
  show ?case by simp
next
  case (Cons opt opts)
  then have "kc_brokers (opt k) = kc_brokers k \<and> kc_producers (opt k) = kc_producers k \<and>
      kc_consumers (opt k) = kc_consumers k"
    by (auto simp: WithTLS_def WithSASL_def)
  with Cons show ?case by simp
qed

lemma wf_NewKafkaClient [wf_intros]:
  assumes "set opts \<subseteq> range WithTLS \<union> range WithSASL"
    and "NewKafkaClient brokers gid opts = Inr k"
  shows "wf_client k"
  using assms(2) client_options_keep [OF assms(1)]
  by (auto simp: NewKafkaClient_def wf_client_def split: if_splits)

lemma RegisterConsumer_frame:
  assumes "RegisterConsumer K topic handler opts k w = ((k', w'), e)"
  shows "kc_brokers k' = kc_brokers k \<and> kc_producers k' = kc_producers k \<and> kc_dialer k' = kc_dialer k"
  using assms by (auto simp: RegisterConsumer_def Let_def split: sum.splits)

lemma wf_RegisterConsumer [wf_intros]:
  assumes "wf_client k" and "RegisterConsumer K topic handler opts k w = ((k', w'), e)"
  shows "wf_client k'"
  using assms
  by (auto simp: RegisterConsumer_def wf_client_def Let_def consumer_Use_def consumer_Init_def
      split: sum.splits)

lemma built_producer_simps [simp]:
  "pr_topic (built_producer K topic config k) = topic"
  "wr_Addr (pr_writer (built_producer K topic config k)) = kc_brokers k"
  "\<not> wr_AllowAutoTopicCreation (pr_writer (built_producer K topic config k))"
  by (simp_all add: built_producer_def)

lemma RegisterProducer_client:
  assumes "kc_brokers k \<noteq> []" and "RegisterProducer K N topic opts k w = ((k', w'), r)"
  shows "(topic \<noteq> [] \<and> (\<exists>p. r = Ok p \<and>
      (kc_producers k topic = Some p \<or>
       kc_producers k topic = None \<and> (\<exists>config. p = built_producer K topic config k)) \<and>
      k' = store_producer topic p k)) \<or> ((\<exists>e. r = Err e) \<and> k' = k)"
  using RegisterProducer_cases [OF assms(1), of K N topic opts w] assms(2)
  by (auto simp: Let_def store_producer_def split: if_splits option.splits)

lemma store_producer_simps [simp]:
  "kc_brokers (store_producer topic p k) = kc_brokers k"
  "kc_consumers (store_producer topic p k) = kc_consumers k"
  by (simp_all add: store_producer_def split: option.splits)

lemma wf_RegisterProducer [wf_intros]:
  assumes "wf_client k" and "RegisterProducer K N topic opts k w = ((k', w'), r)"
  shows "wf_client k'"
proof -
  have "kc_brokers k \<noteq> []" using assms(1) by (simp add: wf_client_def)
  from RegisterProducer_client [OF this assms(2)] assms(1) show ?thesis
    by (auto simp: wf_client_def producers.entry_add split: if_splits)
qed

lemma wf_client_reachable: "client_reachable K N k \<Longrightarrow> wf_client k"
  by (induction rule: client_reachable.induct) (blast intro: wf_intros)+

text \<open>Registering producers one after the other.\<close>

fun register_producers ::
    "'w kafka_ops \<Rightarrow> 'w kafka_net \<Rightarrow> (string \<times> producer_option list) list \<Rightarrow> 'w kafka_client \<Rightarrow> 'w \<Rightarrow>
     'w kafka_client \<times> 'w" where
  "register_producers K N [] k w = (k, w)"
| "register_producers K N ((topic, opts) # rs) k w =
     (case RegisterProducer K N topic opts k w of ((k', w'), _) \<Rightarrow> register_producers K N rs k' w')"

lemma register_producers_keep:
  assumes "wf_client k" and "kc_producers k topic = Some p"
  shows "kc_producers (fst (register_producers K N rs k w)) topic = Some p \<and>
    wf_client (fst (register_producers K N rs k w))"
  using assms
proof (induction rs arbitrary: k w)
  case Nil
  then show ?case by simp
next
  case (Cons r rs)
  obtain t opts where r: "r = (t, opts)" by (cases r)
  obtain k' w' res where R: "RegisterProducer K N t opts k w = ((k', w'), res)"
    by (metis surj_pair)
  have "kc_brokers k \<noteq> []" using Cons.prems(1) by (simp add: wf_client_def)
  from RegisterProducer_client [OF this R] Cons.prems(2)
  have "kc_producers k' topic = Some p" by (auto simp: producers.entry_add)
  moreover have "wf_client k'" using wf_RegisterProducer [OF Cons.prems(1) R] .
  ultimately show ?case using Cons.IH by (simp add: r R)
qed

subsection \<open>What a registered producer writes\<close>

lemma produce_chain_loop_append:
  "n \<le> length ms \<Longrightarrow> produce_chain_loop (ms @ ms') n h = produce_chain_loop ms n h"
  by (induction n arbitrary: h) (simp_all add: nth_append)

interpretation produce_chain: handler_chain
    "\<lambda>ms h. produce_chain_loop ms (length ms) h" "\<lambda>m h msgs. m msgs h"
  by unfold_locales (simp_all add: produce_chain_loop_append nth_append)

lemma createProduceChain_built:
  "createProduceChain N (built_producer K topic config k) =
     (\<lambda>msgs. traceProduceMiddleware K topic msgs (\<lambda>msgs. healthCheckProducerMiddleware K msgs
        (\<lambda>msgs. metricsProduceMiddleware K msgs (write_messages N))))"
  unfolding createProduceChain_def produce_chain.chain_foldr by (simp add: built_producer_def)

lemma convertSlice_map: "convertSlice xs f = map f xs"
  by (simp add: convertSlice_def)

end
