(* ===== verification/Kafka_Run.thy ===== *)
theory Kafka_Run
  imports Kafka_Client
begin

section \<open>A run of a registered consumer over a scripted reader\<close>

text \<open>
  The reader of \<^verbatim>\<open>kafka-go\<close> is a parameter of the consumer.  Here it is a script: the results of
  \<^verbatim>\<open>FetchMessage\<close>, one after the other, until the context is done.  The world also holds the health
  checker and records what the handler was given, what was committed and what was counted.  The context
  of \<^verbatim>\<open>Run\<close> is that of the consumers and of the health checker, so that it may end while the message
  fetched last is in flight, and the goroutine of the health checker may see the end before that message is
  reported (\<open>sw_first\<close>), or after.  The lemmas show that the loop ends, which messages it hands over and
  commits, and which failed messages the group gets again.
\<close>

record script_world =
  sw_script :: "(gerr + message) list"
  sw_handled :: "message list"
  sw_commits :: "message list"
  sw_metrics :: "kafka_metric list"
  sw_health :: health_checker
  sw_first :: bool

definition script_over :: "script_world \<Rightarrow> bool" where
  "script_over w = (sw_script w = [])"

text \<open>The health checker when a consumer or a producer reports to it.\<close>

definition checker_now :: "script_world \<Rightarrow> health_checker" where
  "checker_now w =
     (if sw_first w then (case health_Run (script_over w) HealthDone (sw_health w) of Some h \<Rightarrow> h | None \<Rightarrow> sw_health w)
      else sw_health w)"

definition script_ops :: "script_world kafka_ops" where
  "script_ops =
     \<lparr>ko_update = (\<lambda>e w. case health_Update e (checker_now w) of (h, r) \<Rightarrow> (w\<lparr>sw_health := h\<rparr>, r)),
      ko_metric = (\<lambda>m w. w\<lparr>sw_metrics := sw_metrics w @ [m]\<rparr>),
      ko_carrier = (\<lambda>w. [])\<rparr>"

text \<open>The channel of the checker is closed only after the end of the context.\<close>

definition shared_ctx :: "script_world \<Rightarrow> bool" where
  "shared_ctx w = (hc_closed (sw_health w) \<longrightarrow> script_over w)"

text \<open>\<open>refused m\<close> is the error with which the broker refuses to commit \<open>m\<close>.\<close>

definition script_reader :: "(message \<Rightarrow> gerror) \<Rightarrow> script_world reader_ops" where
  "script_reader refused =
     \<lparr>rd_Done = script_over,
      rd_FetchMessage = (\<lambda>w. (w\<lparr>sw_script := tl (sw_script w)\<rparr>, hd (sw_script w))),
      rd_CommitMessages = (\<lambda>m w. case refused m of
          None \<Rightarrow> (w\<lparr>sw_commits := sw_commits w @ [m]\<rparr>, None)
        | Some e \<Rightarrow> (w, Some e))\<rparr>"

definition script_handler :: "(message \<Rightarrow> gerror) \<Rightarrow> script_world consume_handler" where
  "script_handler outcome m w = (w\<lparr>sw_handled := sw_handled w @ [m]\<rparr>, go_of_error (outcome m))"

definition fetched :: "(gerr + message) list \<Rightarrow> message list" where
  "fetched script = concat (map (\<lambda>r. case r of Inl _ \<Rightarrow> [] | Inr m \<Rightarrow> [m]) script)"

definition committable :: "(message \<Rightarrow> gerror) \<Rightarrow> (message \<Rightarrow> gerror) \<Rightarrow> message \<Rightarrow> bool" where
  "committable outcome refused m = (outcome m = None \<and> refused m = None)"

text \<open>
  The run is interrupted when its context ends on a message in flight that is handled without an error and
  the health checker sees the end first; every message before it goes the whole way.
\<close>

definition interrupted :: "(message \<Rightarrow> gerror) \<Rightarrow> script_world \<Rightarrow> bool" where
  "interrupted outcome w \<longleftrightarrow>
     sw_first w \<and> sw_script w \<noteq> [] \<and> (case last (sw_script w) of Inl _ \<Rightarrow> False | Inr m \<Rightarrow> outcome m = None)"

definition reported :: "(message \<Rightarrow> gerror) \<Rightarrow> script_world \<Rightarrow> message list" where
  "reported outcome w = (if interrupted outcome w then butlast (fetched (sw_script w)) else fetched (sw_script w))"

text \<open>The offset after the last commit of a partition: from here on the group is given the messages.\<close>

definition next_offset :: "nat \<Rightarrow> message list \<Rightarrow> int option" where
  "next_offset p commits =
     map_option (\<lambda>m. km_Offset m + 1) (find (\<lambda>m. km_Partition m = p) (rev commits))"

text \<open>The metrics of one handled message.\<close>

definition consume_metrics :: "(message \<Rightarrow> gerror) \<Rightarrow> message \<Rightarrow> kafka_metric list" where
  "consume_metrics outcome m =
     [LatencySeconds (km_Topic m) ''consume'',
      if outcome m = None then MessagesTotal (km_Topic m) ''consume'' 1
      else ErrorsTotal (km_Topic m) ''consume'' 1]"

text \<open>A consumer as \<^verbatim>\<open>RegisterConsumer\<close> leaves it.\<close>

definition registered_consumer ::
    "'w kafka_ops \<Rightarrow> string \<Rightarrow> 'w consume_handler \<Rightarrow> 'w kafka_consumer \<Rightarrow> bool" where
  "registered_consumer K topic h c \<longleftrightarrow>
     cn_reader c \<and> cn_handler c = h \<and>
     cn_middlewares c = [traceConsumeMiddleware topic, healthCheckConsumeMiddleware K,
       metricsConsumeMiddleware K]"

lemma RegisterConsumer_registers:
  assumes "RegisterConsumer K topic (Some h) opts k w = ((k', w'), None)"
  shows "\<exists>c. kc_consumers k' = kc_consumers k @ [c] \<and> registered_consumer K topic h c"
  using assms newConsumer_Inr [of topic "kc_consumerGroup k" "Some h" opts]
  by (auto simp: RegisterConsumer_def registered_consumer_def Let_def consumer_Use_def consumer_Init_def
      split: sum.splits)

lemma registered_chain:
  assumes "registered_consumer K topic h c"
  shows "createConsumeChain c =
    (\<lambda>m. traceConsumeMiddleware topic m (\<lambda>m. healthCheckConsumeMiddleware K m
       (\<lambda>m. metricsConsumeMiddleware K m h)))"
  using assms unfolding createConsumeChain_def consume_chain.chain_foldr
  by (simp add: registered_consumer_def)

lemma script_ops_simps [simp]:
  "ko_metric script_ops m w = w\<lparr>sw_metrics := sw_metrics w @ [m]\<rparr>"
  "ko_update script_ops e w = (case health_Update e (checker_now w) of (h, r) \<Rightarrow> (w\<lparr>sw_health := h\<rparr>, r))"
  by (simp_all add: script_ops_def)

lemma script_reader_simps [simp]:
  "rd_Done (script_reader refused) w = (sw_script w = [])"
  "rd_FetchMessage (script_reader refused) w =
     (w\<lparr>sw_script := tl (sw_script w)\<rparr>, hd (sw_script w))"
  "rd_CommitMessages (script_reader refused) m w = (case refused m of
      None \<Rightarrow> (w\<lparr>sw_commits := sw_commits w @ [m]\<rparr>, None) | Some e \<Rightarrow> (w, Some e))"
  by (simp_all add: script_reader_def script_over_def)

lemma fetched_simps [simp]:
  "fetched [] = []"
  "fetched (Inl e # script) = fetched script"
  "fetched (Inr m # script) = m # fetched script"
  by (simp_all add: fetched_def)

lemma checker_now_open:
  "\<not> hc_closed (sw_health w) \<Longrightarrow> hc_closed (checker_now w) \<longleftrightarrow> sw_first w \<and> script_over w"
  by (simp add: checker_now_def health_Run_def)

lemma checker_now_frame [simp]:
  "checker_now (w\<lparr>sw_handled := a\<rparr>) = checker_now w"
  "checker_now (w\<lparr>sw_metrics := b\<rparr>) = checker_now w"
  by (simp_all add: checker_now_def script_over_def split: option.split)

lemma script_chain:
  assumes "registered_consumer script_ops topic (script_handler outcome) c"
    and "\<not> hc_closed (checker_now w) \<or> outcome m \<noteq> None" and "\<not> hc_closed (sw_health w)"
  shows "\<exists>h. \<not> hc_closed h \<and> createConsumeChain c m w =
    (w\<lparr>sw_handled := sw_handled w @ [m], sw_metrics := sw_metrics w @ consume_metrics outcome m,
       sw_health := h\<rparr>, go_of_error (outcome m))"
  using assms(2,3)
  by (intro exI [of _ "if outcome m = None then fst (health_Update None (checker_now w)) else sw_health w"],
      cases "outcome m")
    (auto simp: registered_chain [OF assms(1)] traceConsumeMiddleware_def metricsConsumeMiddleware_def
      healthCheckConsumeMiddleware_def script_handler_def go_of_error_def consume_metrics_def Let_def
      health_Update_def)

lemma script_chain_closed:
  assumes "registered_consumer script_ops topic (script_handler outcome) c"
    and "hc_closed (checker_now w)" and "outcome m = None"
  shows "createConsumeChain c m w =
    (w\<lparr>sw_handled := sw_handled w @ [m], sw_metrics := sw_metrics w @ consume_metrics outcome m,
       sw_health := checker_now w\<rparr>,
     Panic ''send on closed channel'')"
  using assms(2,3)
  by (simp add: registered_chain [OF assms(1)] traceConsumeMiddleware_def metricsConsumeMiddleware_def
      healthCheckConsumeMiddleware_def script_handler_def go_of_error_def consume_metrics_def Let_def
      health_Update_def)

text \<open>A report never closes the channel before the context is done.\<close>

lemma shared_ctx_update: "shared_ctx w \<Longrightarrow> shared_ctx (fst (ko_update script_ops e w))"
  by (auto simp: shared_ctx_def checker_now_def health_Run_def health_Update_def script_over_def
      split: if_splits option.splits)

lemma interrupted_Cons:
  "script \<noteq> [] \<Longrightarrow> sw_script w = r # script \<Longrightarrow> sw_script w' = script \<Longrightarrow> sw_first w' = sw_first w \<Longrightarrow>
     interrupted outcome w' = interrupted outcome w"
  by (simp add: interrupted_def)

lemma fetched_last: "script \<noteq> [] \<Longrightarrow> last script = Inr m \<Longrightarrow> fetched script = butlast (fetched script) @ [m]"
proof (induction script)
  case (Cons r script)
  then show ?case by (cases r; cases "script = []") auto
qed simp

lemma reported_nonempty: "interrupted outcome w \<Longrightarrow> fetched (sw_script w) \<noteq> []"
  using fetched_last by (fastforce simp: interrupted_def split: sum.splits)

lemma reported_Cons:
  assumes "script \<noteq> []" and "sw_script w = r # script" and "sw_script w' = script" and "sw_first w' = sw_first w"
  shows "reported outcome w = (case r of Inl _ \<Rightarrow> [] | Inr m \<Rightarrow> [m]) @ reported outcome w'"
  using interrupted_Cons [OF assms, of outcome] reported_nonempty [of outcome w'] assms
  by (auto simp: reported_def split: sum.splits)

definition run_result :: "(message \<Rightarrow> gerror) \<Rightarrow> script_world \<Rightarrow> unit go" where
  "run_result outcome w =
     (if interrupted outcome w then Panic ''send on closed channel'' else Err (Sentinel ''context canceled''))"

lemma consumer_loop_script:
  assumes "registered_consumer script_ops topic (script_handler outcome) c"
    and "shared_ctx w"
  shows "\<exists>h. consumer_loop (script_reader refused) c w =
    Some (w\<lparr>sw_script := [], sw_handled := sw_handled w @ fetched (sw_script w),
        sw_commits := sw_commits w @ filter (committable outcome refused) (reported outcome w),
        sw_metrics := sw_metrics w @ concat (map (consume_metrics outcome) (fetched (sw_script w))),
        sw_health := h\<rparr>, run_result outcome w)"
  using assms(2)
proof (induction "sw_script w" arbitrary: w)
  case Nil
  then show ?case
    by (subst consumer_loop.simps)
      (auto simp: run_result_def interrupted_def reported_def script_over_def intro: exI [of _ "sw_health w"])
next
  case (Cons r script)
  have s: "sw_script w = r # script" using Cons.hyps(2) by simp
  have opened: "\<not> hc_closed (sw_health w)" using Cons.prems by (simp add: shared_ctx_def script_over_def s)
  have going: "\<not> rd_Done (script_reader refused) w" by (simp add: s)
  note IH = Cons.hyps(1)
  show ?case
  proof (cases r)
    case (Inl e)
    let ?w = "w\<lparr>sw_script := script\<rparr>"
    have step: "consume_once (script_reader refused) c w = (?w, Ok ())"
      by (simp add: consume_once_def s Inl)
    have "run_result outcome ?w = run_result outcome w" "reported outcome w = reported outcome ?w"
      by (cases "script = []"; simp add: run_result_def reported_def interrupted_def s Inl)+
    with IH [of ?w] opened show ?thesis
      by (subst consumer_loop.simps) (simp add: going step shared_ctx_def s Inl)
  next
    case (Inr m)
    let ?w = "w\<lparr>sw_script := script\<rparr>"
    have first: "hc_closed (checker_now ?w) \<longleftrightarrow> sw_first w \<and> script = []"
      using checker_now_open [of ?w] opened by (simp add: script_over_def)
    show ?thesis
    proof (cases "sw_first w \<and> script = [] \<and> outcome m = None")
      case True
      then have i: "interrupted outcome w" by (simp add: interrupted_def s Inr)
      have step: "consume_once (script_reader refused) c w =
          (?w\<lparr>sw_handled := sw_handled w @ [m], sw_metrics := sw_metrics w @ consume_metrics outcome m,
             sw_health := checker_now ?w\<rparr>, Panic ''send on closed channel'')"
        using script_chain_closed [OF assms(1), of ?w m] first True by (simp add: consume_once_def s Inr)
      from i True show ?thesis
        by (subst consumer_loop.simps) (auto simp: going step s Inr run_result_def reported_def)
    next
      case False
      obtain h where h: "\<not> hc_closed h" and c: "createConsumeChain c m ?w =
          (?w\<lparr>sw_handled := sw_handled ?w @ [m], sw_metrics := sw_metrics ?w @ consume_metrics outcome m,
            sw_health := h\<rparr>, go_of_error (outcome m))"
        using script_chain [OF assms(1), of ?w m] opened first False by auto
      let ?w' = "?w\<lparr>sw_handled := sw_handled w @ [m],
        sw_metrics := sw_metrics w @ consume_metrics outcome m, sw_health := h,
        sw_commits := sw_commits w @ (if committable outcome refused m then [m] else [])\<rparr>"
      have step: "consume_once (script_reader refused) c w = (?w', Ok ())"
        by (cases "outcome m"; cases "refused m")
          (simp_all add: consume_once_def s Inr c go_of_error_def committable_def)
      have "run_result outcome ?w' = run_result outcome w" "reported outcome w = m # reported outcome ?w'"
      proof -
        have "interrupted outcome ?w' = interrupted outcome w"
          using False by (cases "script = []") (auto simp: interrupted_def s Inr)
        then show "run_result outcome ?w' = run_result outcome w" by (simp add: run_result_def)
        show "reported outcome w = m # reported outcome ?w'"
        proof (cases "script = []")
          case True
          with False show ?thesis by (auto simp: reported_def interrupted_def s Inr)
        next
          case False
          from reported_Cons [OF this s, of ?w' outcome] show ?thesis by (simp add: Inr)
        qed
      qed
      with IH [of ?w'] h show ?thesis
        by (subst consumer_loop.simps) (auto simp: going step shared_ctx_def s Inr)
    qed
  qed
qed

text \<open>
  The end of a producer's call after the health checker has closed its channel: the messages are written and
  counted, and the report panics.
\<close>

lemma closed_stays: "hc_closed h \<Longrightarrow> health_Run d ev h = None"
  by (cases ev) (simp_all add: health_Run_def)

lemma checker_now_closed: "hc_closed (sw_health w) \<Longrightarrow> checker_now w = sw_health w"
  by (simp add: checker_now_def closed_stays)

lemma next_offset_snoc:
  "next_offset p (commits @ [m]) = (if km_Partition m = p then Some (km_Offset m + 1)
     else next_offset p commits)"
  by (simp add: next_offset_def)

lemma next_offset_NoneD: "next_offset p ms = None \<longleftrightarrow> (\<forall>m \<in> set ms. km_Partition m \<noteq> p)"
  by (auto simp: next_offset_def find_None_iff)

text \<open>With increasing offsets the group is past an offset as soon as a later message was committed.\<close>

definition offsets_increase :: "message list \<Rightarrow> bool" where
  "offsets_increase ms \<longleftrightarrow>
     sorted_wrt (\<lambda>a b. km_Partition a = km_Partition b \<longrightarrow> km_Offset a < km_Offset b) ms"

lemma next_offset_past:
  assumes "offsets_increase ms"
  shows "(\<exists>n. next_offset p ms = Some n \<and> i < n) \<longleftrightarrow>
    (\<exists>m \<in> set ms. km_Partition m = p \<and> i \<le> km_Offset m)"
  using assms
proof (induction ms rule: rev_induct)
  case Nil
  show ?case by (simp add: next_offset_def)
next
  case (snoc m ms)
  then have inc: "offsets_increase ms"
    and last: "\<forall>a \<in> set ms. km_Partition a = km_Partition m \<longrightarrow> km_Offset a < km_Offset m"
    by (auto simp: offsets_increase_def sorted_wrt_append)
  show ?case
  proof (cases "km_Partition m = p")
    case True
    then show ?thesis using last by (auto simp: next_offset_snoc)
  next
    case False
    then show ?thesis using snoc.IH [OF inc] by (auto simp: next_offset_snoc)
  qed
qed

lemma offsets_increase_filter: "offsets_increase ms \<Longrightarrow> offsets_increase (filter P ms)"
  by (simp add: offsets_increase_def sorted_wrt_filter)

lemma offsets_increase_butlast: "offsets_increase ms \<Longrightarrow> offsets_increase (butlast ms)"
  by (cases ms rule: rev_cases) (simp_all add: offsets_increase_def sorted_wrt_append)

lemma offsets_distinct:
  assumes "offsets_increase ms" and "a \<in> set ms" and "b \<in> set ms" and "a \<noteq> b"
    and "km_Partition a = km_Partition b"
  shows "km_Offset a \<noteq> km_Offset b"
  using assms
  by (induction ms) (force simp: offsets_increase_def)+

end
