(* ===== verification/Workflow.thy ===== *)
theory Workflow
  imports Infrastructure "HOL-Library.AList"
begin

section \<open>The workflow client (pkg/workflow)\<close>

text \<open>
  The builder, the service it starts and the workers that hand tasks to their handlers.  The Zeebe client
  is a parameter (\<open>zeebe_ops\<close>); the numbers of retries are signed 32-bit words, the durations 64-bit
  integers.  The lemmas show what a worker answers for every outcome of a handler, how often a failing
  task runs, that the service never touches its client before it has one, and that no worker is ever
  subscribed.
\<close>

subsection \<open>Errors and constants (errors.go, constants.go)\<close>

definition ErrWorkflowIsNotReady :: gerr where
  "ErrWorkflowIsNotReady = Sentinel ''workflow client is not ready to work''"
definition ErrWorkflowIncident :: gerr where
  "ErrWorkflowIncident = Sentinel ''workflow incident''"

definition MakeIncidentErr :: "gerror \<Rightarrow> gerror" where
  "MakeIncidentErr err = errors_Join [Some ErrWorkflowIncident, err]"

definition MakeIncident :: "string \<Rightarrow> gerror" where
  "MakeIncident err = errors_Join [Some ErrWorkflowIncident, Some (Sentinel err)]"

definition workflowEventsTTLHours :: int where "workflowEventsTTLHours = 1800"
definition workflowRetryTimeoutSeconds :: int where "workflowRetryTimeoutSeconds = 60"
definition maxRetryCountBeforeIncident :: "32 word" where "maxRetryCountBeforeIncident = 5"
definition requestTimeoutSec :: int where "requestTimeoutSec = 1"
definition poolIntervalSec :: int where "poolIntervalSec = 1"
definition maxActiveJobs :: int where "maxActiveJobs = 10"
definition tasksConcurrency :: int where "tasksConcurrency = 3"

text \<open>A duration times \<^verbatim>\<open>time.Second\<close>, \<^verbatim>\<open>time.Hour\<close>.\<close>

definition duration_seconds :: "int \<Rightarrow> int" where "duration_seconds n = wrap64 (n * 1000000000)"
definition duration_hours :: "int \<Rightarrow> int" where "duration_hours n = wrap64 (n * 3600000000000)"

subsection \<open>Tasks and jobs (handler.go)\<close>

record 'v workflow_task =
  wt_TaskId :: int
  wt_TaskName :: string
  wt_ProcessId :: int
  wt_Retries :: "32 word"
  wt_Scope :: "string \<rightharpoonup> 'v"

definition GetScopeVariable :: "string \<Rightarrow> 'v workflow_task \<Rightarrow> 'v option" where
  "GetScopeVariable key task = wt_Scope task key"

record 'v job =
  jb_Key :: int
  jb_ProcessDefinitionKey :: int
  jb_Retries :: "32 word"
  jb_Variables :: "gerr + (string \<rightharpoonup> 'v)"

type_synonym ('v, 'w) task_handler = "'v workflow_task \<Rightarrow> 'w \<Rightarrow> 'w \<times> unit go"

text \<open>\<open>Incident\<close> is the fail command with no retries left and the error as its message.\<close>

datatype job_command =
    CompleteJob int
  | FailJob int "32 word" int
  | Incident int gerr

record task_config =
  th_RetryTimeoutSec :: int
  th_IncidentMaxRetries :: "32 word"
  th_MaxActiveTasks :: int
  th_Concurrency :: int
  th_PoolIntervalSec :: int

definition zero_config :: task_config where
  "zero_config =
     \<lparr>th_RetryTimeoutSec = 0, th_IncidentMaxRetries = 0, th_MaxActiveTasks = 0, th_Concurrency = 0,
      th_PoolIntervalSec = 0\<rparr>"

definition fillDefaults :: "task_config \<Rightarrow> task_config" where
  "fillDefaults c =
     \<lparr>th_RetryTimeoutSec = (if th_RetryTimeoutSec c = 0 then workflowRetryTimeoutSeconds else th_RetryTimeoutSec c),
      th_IncidentMaxRetries =
        (if th_IncidentMaxRetries c = 0 then maxRetryCountBeforeIncident else th_IncidentMaxRetries c),
      th_MaxActiveTasks = (if th_MaxActiveTasks c = 0 then maxActiveJobs else th_MaxActiveTasks c),
      th_Concurrency = (if th_Concurrency c = 0 then tasksConcurrency else th_Concurrency c),
      th_PoolIntervalSec = (if th_PoolIntervalSec c = 0 then poolIntervalSec else th_PoolIntervalSec c)\<rparr>"

subsection \<open>The wrapper around a task's handler (workflow.go)\<close>

definition completeTask :: "'v job \<Rightarrow> job_command" where
  "completeTask job = CompleteJob (jb_Key job)"

definition handleErrorTask :: "'v job \<Rightarrow> task_config \<Rightarrow> job_command" where
  "handleErrorTask job config =
     FailJob (jb_Key job) (jb_Retries job + 1) (duration_seconds (th_RetryTimeoutSec config))"

definition handleIncidentTask :: "'v job \<Rightarrow> gerr \<Rightarrow> job_command" where
  "handleIncidentTask job errData = Incident (jb_Key job) errData"

text \<open>
  The command that is sent for one activation of a job; \<open>None\<close> when the variables cannot be read.  The
  failure of a send is only logged.
\<close>

definition taskHandlerWrapper ::
    "string \<Rightarrow> ('v, 'w) task_handler \<Rightarrow> task_config \<Rightarrow> 'v job \<Rightarrow> 'w \<Rightarrow> 'w \<times> job_command option" where
  "taskHandlerWrapper taskName handler config job w =
     (case jb_Variables job of
        Inl err \<Rightarrow> (w, None)
      | Inr vars \<Rightarrow>
          (case handler \<lparr>wt_TaskId = jb_Key job, wt_TaskName = taskName,
                wt_ProcessId = jb_ProcessDefinitionKey job, wt_Retries = jb_Retries job, wt_Scope = vars\<rparr> w of
             (w', Panic r) \<Rightarrow> (w', Some (handleIncidentTask job (Sentinel r)))
           | (w', Err taskErr) \<Rightarrow>
               let retries = jb_Retries job + 1;
                   incident = errors_Is (Some taskErr) ErrWorkflowIncident \<or>
                     th_IncidentMaxRetries config \<le>s retries
               in (w', Some (if incident then handleIncidentTask job taskErr
                             else handleErrorTask job config))
           | (w', Ok _) \<Rightarrow> (w', Some (completeTask job))))"

subsection \<open>The service (workflow.go)\<close>

record ('v, 'w) worker =
  wk_JobType :: string
  wk_Handler :: "'v job \<Rightarrow> 'w \<Rightarrow> 'w \<times> job_command option"
  wk_Concurrency :: int
  wk_MaxJobsActive :: int
  wk_RequestTimeout :: int
  wk_PollInterval :: int
  wk_Name :: string

record instance_info =
  wi_ProcessName :: string
  wi_ProcessVersion :: int
  wi_ProcessInstanceId :: int

record ('v, 'w) zeebe_ops =
  zb_Done :: "'w \<Rightarrow> bool"                                \<comment> \<open>a signal has arrived\<close>
  zb_Wait :: "'w \<Rightarrow> 'w \<times> bool"                          \<comment> \<open>the back-off; \<open>True\<close> when the signal ended it\<close>
  zb_NewClient :: "string \<Rightarrow> 'w \<Rightarrow> 'w \<times> gerror"
  zb_Deploy :: "string \<Rightarrow> 'w \<Rightarrow> 'w \<times> gerror"
  zb_OpenWorker :: "('v, 'w) worker \<Rightarrow> 'w \<Rightarrow> 'w"
  zb_Encode :: "(string \<rightharpoonup> 'v) \<Rightarrow> gerror"               \<comment> \<open>\<^verbatim>\<open>VariablesFromMap\<close>\<close>
  zb_CreateInstance :: "string \<Rightarrow> (string \<rightharpoonup> 'v) \<Rightarrow> 'w \<Rightarrow> 'w \<times> (gerr + instance_info)"
  zb_Publish :: "string \<Rightarrow> string \<Rightarrow> int \<Rightarrow> (string \<rightharpoonup> 'v) \<Rightarrow> 'w \<Rightarrow> 'w \<times> gerror"
  zb_CloseWorker :: "('v, 'w) worker \<Rightarrow> 'w \<Rightarrow> 'w"
  zb_CloseClient :: "'w \<Rightarrow> 'w \<times> gerror"

record ('v, 'w) workflow_service =
  ws_serviceName :: string
  ws_client :: bool
  ws_taskWorkers :: "('v, 'w) worker list"
  ws_readyToWork :: bool

definition nil_client :: "'w \<Rightarrow> 'w \<times> 'a go" where
  "nil_client w = (w, Panic ''nil pointer dereference'')"

definition StartProcess ::
    "('v, 'w) zeebe_ops \<Rightarrow> string \<Rightarrow> (string \<rightharpoonup> 'v) \<Rightarrow> ('v, 'w) workflow_service \<Rightarrow> 'w \<Rightarrow>
     'w \<times> instance_info go" where
  "StartProcess Z processName variables svc w =
     (if \<not> ws_readyToWork svc then (w, Err ErrWorkflowIsNotReady)
      else if \<not> ws_client svc then nil_client w
      else case zb_Encode Z variables of
        Some commandErr \<Rightarrow> (w, Err commandErr)
      | None \<Rightarrow>
          (case zb_CreateInstance Z processName variables w of
             (w', Inl processErr) \<Rightarrow> (w', Err processErr)
           | (w', Inr process) \<Rightarrow> (w', Ok process)))"

definition SendEvent ::
    "('v, 'w) zeebe_ops \<Rightarrow> string \<Rightarrow> string \<Rightarrow> (string \<rightharpoonup> 'v) \<Rightarrow> ('v, 'w) workflow_service \<Rightarrow> 'w \<Rightarrow>
     'w \<times> unit go" where
  "SendEvent Z messageKey correlationKey variables svc w =
     (if \<not> ws_readyToWork svc then (w, Err ErrWorkflowIsNotReady)
      else if \<not> ws_client svc then nil_client w
      else case zb_Encode Z variables of
        Some commandErr \<Rightarrow> (w, Err commandErr)
      | None \<Rightarrow>
          (case zb_Publish Z messageKey correlationKey (duration_hours workflowEventsTTLHours) variables w of
             (w', sendErr) \<Rightarrow> (w', go_of_error sendErr)))"

definition workflow_Health :: "('v, 'w) workflow_service \<Rightarrow> gerror" where
  "workflow_Health svc = None"

definition workflow_Close ::
    "('v, 'w) zeebe_ops \<Rightarrow> ('v, 'w) workflow_service \<Rightarrow> 'w \<Rightarrow> 'w \<times> unit go" where
  "workflow_Close Z svc w =
     (if \<not> ws_readyToWork svc then (w, Ok ())
      else let w = fold (zb_CloseWorker Z) (ws_taskWorkers svc) w in
        if \<not> ws_client svc then nil_client w
        else case zb_CloseClient Z w of (w', closeErr) \<Rightarrow> (w', go_of_error closeErr))"

definition SetClient :: "('v, 'w) workflow_service \<Rightarrow> ('v, 'w) workflow_service" where
  "SetClient svc = svc\<lparr>ws_client := True\<rparr>"

definition ReadyToWork :: "('v, 'w) workflow_service \<Rightarrow> ('v, 'w) workflow_service" where
  "ReadyToWork svc = svc\<lparr>ws_readyToWork := True\<rparr>"

definition DeployBpmn ::
    "('v, 'w) zeebe_ops \<Rightarrow> string \<Rightarrow> ('v, 'w) workflow_service \<Rightarrow> 'w \<Rightarrow> 'w \<times> unit go" where
  "DeployBpmn Z bpmnPath svc w =
     (if \<not> ws_client svc then nil_client w
      else case zb_Deploy Z bpmnPath w of
        (w', Some err) \<Rightarrow> (w', Panic ''deploy'')
      | (w', None) \<Rightarrow> (w', Ok ()))"

definition worker_Subscribe ::
    "('v, 'w) zeebe_ops \<Rightarrow> string \<Rightarrow> ('v, 'w) task_handler \<Rightarrow> task_config \<Rightarrow> ('v, 'w) workflow_service \<Rightarrow> 'w \<Rightarrow>
     ('v, 'w) workflow_service \<times> 'w" where
  "worker_Subscribe Z taskName handler config svc w =
     (let worker = \<lparr>wk_JobType = taskName, wk_Handler = taskHandlerWrapper taskName handler config,
        wk_Concurrency = th_Concurrency config, wk_MaxJobsActive = th_MaxActiveTasks config,
        wk_RequestTimeout = duration_seconds requestTimeoutSec, wk_PollInterval = duration_seconds (th_PoolIntervalSec config),
        wk_Name = ws_serviceName svc\<rparr>
      in (svc\<lparr>ws_taskWorkers := ws_taskWorkers svc @ [worker]\<rparr>, zb_OpenWorker Z worker w))"

subsection \<open>The builder (workflow_builder.go)\<close>

text \<open>The map of handlers is an association list in the order in which it is walked; \<open>None\<close> is the nil map.\<close>

record ('v, 'w) workflow_builder =
  wb_serviceName :: string
  wb_host :: string
  wb_credentialUser :: string
  wb_credentialPwd :: string
  wb_deploymentProcs :: "string list"
  wb_handlers :: "(string \<times> ('v, 'w) task_handler \<times> task_config) list option"

definition NewWorkflowBuilder ::
    "string \<Rightarrow> string \<Rightarrow> string \<Rightarrow> string \<Rightarrow> ('v, 'w) workflow_builder" where
  "NewWorkflowBuilder serviceName host user password =
     \<lparr>wb_serviceName = serviceName, wb_host = host, wb_credentialUser = user,
      wb_credentialPwd = password, wb_deploymentProcs = [], wb_handlers = None\<rparr>"

definition WithProcess :: "string \<Rightarrow> ('v, 'w) workflow_builder \<Rightarrow> ('v, 'w) workflow_builder" where
  "WithProcess bpmnPath svc = svc\<lparr>wb_deploymentProcs := wb_deploymentProcs svc @ [bpmnPath]\<rparr>"

definition WithHandler ::
    "string \<Rightarrow> ('v, 'w) task_handler \<Rightarrow> task_config list \<Rightarrow> ('v, 'w) workflow_builder \<Rightarrow>
     ('v, 'w) workflow_builder go" where
  "WithHandler taskName handler config svc =
     (let handleConfig = fillDefaults (case config of [] \<Rightarrow> zero_config | c # _ \<Rightarrow> c) in
      case wb_handlers svc of
        None \<Rightarrow> Panic ''assignment to entry in nil map''
      | Some hs \<Rightarrow> Ok (svc\<lparr>wb_handlers := Some (AList.update taskName (handler, handleConfig) hs)\<rparr>))"

text \<open>The service as \<^verbatim>\<open>Run\<close> returns it, before the goroutine of \<^verbatim>\<open>runWorkflow\<close> has touched it.\<close>

definition builder_service :: "('v, 'w) workflow_builder \<Rightarrow> ('v, 'w) workflow_service" where
  "builder_service svc =
     \<lparr>ws_serviceName = wb_serviceName svc, ws_client = False, ws_taskWorkers = [], ws_readyToWork = False\<rparr>"

text \<open>The loop that creates the client: \<open>True\<close> when there is one, \<open>False\<close> when a signal ended it.\<close>

partial_function (option) connect_loop ::
    "('v, 'w) zeebe_ops \<Rightarrow> string \<Rightarrow> 'w \<Rightarrow> ('w \<times> bool) option" where
  "connect_loop Z host w =
     (if zb_Done Z w then Some (w, False)
      else case zb_NewClient Z host w of
        (w', None) \<Rightarrow> Some (w', True)
      | (w', Some err) \<Rightarrow>
          (case zb_Wait Z w' of
             (w'', over) \<Rightarrow> if over then Some (w'', False) else connect_loop Z host w''))"

text \<open>\<open>Ok False\<close>: a signal arrived before a path was deployed.\<close>

fun deploy_loop ::
    "('v, 'w) zeebe_ops \<Rightarrow> ('v, 'w) workflow_service \<Rightarrow> string list \<Rightarrow> 'w \<Rightarrow> 'w \<times> bool go" where
  "deploy_loop Z svc [] w = (w, Ok True)"
| "deploy_loop Z svc (path # paths) w =
     (if zb_Done Z w then (w, Ok False)
      else case DeployBpmn Z path svc w of
        (w', Panic p) \<Rightarrow> (w', Panic p)
      | (w', _) \<Rightarrow> deploy_loop Z svc paths w')"

fun subscribe_loop ::
    "('v, 'w) zeebe_ops \<Rightarrow> (string \<times> ('v, 'w) task_handler \<times> task_config) list \<Rightarrow> ('v, 'w) workflow_service \<Rightarrow>
     'w \<Rightarrow> ('v, 'w) workflow_service \<times> 'w" where
  "subscribe_loop Z [] svc w = (svc, w)"
| "subscribe_loop Z ((taskName, handler, config) # hs) svc w =
     (if zb_Done Z w then (svc, w)
      else case worker_Subscribe Z taskName handler config svc w of (svc', w') \<Rightarrow> subscribe_loop Z hs svc' w')"

definition builder_handlers ::
    "('v, 'w) workflow_builder \<Rightarrow> (string \<times> ('v, 'w) task_handler \<times> task_config) list" where
  "builder_handlers svc = (case wb_handlers svc of None \<Rightarrow> [] | Some hs \<Rightarrow> hs)"

definition builder_runWorkflow ::
    "('v, 'w) zeebe_ops \<Rightarrow> ('v, 'w) workflow_builder \<Rightarrow> ('v, 'w) workflow_service \<Rightarrow> 'w \<Rightarrow>
     (('v, 'w) workflow_service \<times> 'w \<times> unit go) option" where
  "builder_runWorkflow Z svc workflow w =
     (case connect_loop Z (wb_host svc) w of
        None \<Rightarrow> None
      | Some (w, False) \<Rightarrow> Some (workflow, w, Ok ())
      | Some (w, True) \<Rightarrow>
          let workflow = SetClient workflow in
          (case deploy_loop Z workflow (wb_deploymentProcs svc) w of
             (w, Panic p) \<Rightarrow> Some (workflow, w, Panic p)
           | (w, Ok False) \<Rightarrow> Some (workflow, w, Ok ())
           | (w, _) \<Rightarrow>
               let workflow = ReadyToWork workflow in
               if length (builder_handlers svc) = 0
               then (case subscribe_loop Z (builder_handlers svc) workflow w of
                       (workflow, w) \<Rightarrow> Some (workflow, w, Ok ()))
               else Some (workflow, w, Ok ())))"

subsection \<open>The service never uses a client it does not have\<close>

definition wf_service :: "('v, 'w) workflow_service \<Rightarrow> bool" where
  "wf_service svc \<longleftrightarrow> (ws_readyToWork svc \<longrightarrow> ws_client svc)"

lemma nil_client_simp [simp]: "snd (nil_client w) = Panic ''nil pointer dereference''"
  by (simp add: nil_client_def)

lemma wf_builder_service [wf_intros]: "wf_service (builder_service b)"
  by (simp add: wf_service_def builder_service_def)

lemma worker_Subscribe_frame [simp]:
  "ws_client (fst (worker_Subscribe Z t h c svc w)) = ws_client svc"
  "ws_readyToWork (fst (worker_Subscribe Z t h c svc w)) = ws_readyToWork svc"
  by (simp_all add: worker_Subscribe_def Let_def)

lemma subscribe_loop_service:
  "ws_client (fst (subscribe_loop Z hs svc w)) = ws_client svc \<and>
   ws_readyToWork (fst (subscribe_loop Z hs svc w)) = ws_readyToWork svc"
proof (induction hs arbitrary: svc w)
  case (Cons h hs)
  obtain t f c where h: "h = (t, f, c)" by (metis surj_pair)
  obtain svc' w' where s: "worker_Subscribe Z t f c svc w = (svc', w')" by (metis surj_pair)
  have "ws_client svc' = ws_client svc \<and> ws_readyToWork svc' = ws_readyToWork svc"
    using worker_Subscribe_frame [of Z t f c svc w] by (simp add: s)
  with Cons [of svc' w'] show ?case by (simp add: h s)
qed simp

lemma wf_builder_runWorkflow [wf_intros]:
  assumes "builder_runWorkflow Z b svc w = Some (svc', w', r)" and "wf_service svc"
  shows "wf_service svc'"
proof -
  have "ws_client (fst (subscribe_loop Z hs (ReadyToWork (SetClient svc)) v))" for hs v
    using subscribe_loop_service [of Z hs "ReadyToWork (SetClient svc)" v]
    by (simp add: ReadyToWork_def SetClient_def)
  then show ?thesis
    using assms
    by (auto simp: builder_runWorkflow_def wf_service_def Let_def SetClient_def ReadyToWork_def
        split: option.splits prod.splits bool.splits go.splits if_splits)
qed

subsection \<open>No worker is subscribed\<close>

lemma builder_runWorkflow_workers:
  assumes "builder_runWorkflow Z b svc w = Some (svc', w', r)"
  shows "ws_taskWorkers svc' = ws_taskWorkers svc"
  using assms
  by (auto simp: builder_runWorkflow_def Let_def SetClient_def ReadyToWork_def
      split: option.splits prod.splits bool.splits go.splits if_splits)

inductive builder_reachable :: "('v, 'w) workflow_builder \<Rightarrow> bool" where
  br_new: "builder_reachable (NewWorkflowBuilder name host user pw)"
| br_process: "builder_reachable b \<Longrightarrow> builder_reachable (WithProcess path b)"
| br_handler: "builder_reachable b \<Longrightarrow> WithHandler t h cs b = Ok b' \<Longrightarrow> builder_reachable b'"

lemma builder_reachable_no_handlers: "builder_reachable b \<Longrightarrow> wb_handlers b = None"
  by (induction rule: builder_reachable.induct)
    (auto simp: NewWorkflowBuilder_def WithProcess_def WithHandler_def Let_def)

subsection \<open>How often a failing task runs\<close>

text \<open>
  The broker gives a job that failed with retries left to a worker again, with that number of retries;
  with none left it waits for an operator, and a completed one is over.
\<close>

definition zeebe_after :: "job_command option \<Rightarrow> 'v job \<Rightarrow> 'v job option" where
  "zeebe_after cmd job =
     (case cmd of
        Some (FailJob key retries backoff) \<Rightarrow>
          if 0 <s retries then Some (job\<lparr>jb_Retries := retries\<rparr>) else None
      | _ \<Rightarrow> None)"

partial_function (option) task_runs ::
    "('v job \<Rightarrow> 'w \<Rightarrow> 'w \<times> job_command option) \<Rightarrow> 'v job \<Rightarrow> 'w \<Rightarrow> ('w \<times> job_command option list) option" where
  "task_runs wrapper job w =
     (case wrapper job w of
        (w', cmd) \<Rightarrow>
          (case zeebe_after cmd job of
             None \<Rightarrow> Some (w', [cmd])
           | Some job' \<Rightarrow>
               Option.bind (task_runs wrapper job' w') (\<lambda>(w'', cmds). Some (w'', cmd # cmds))))"

lemma sint_Suc:
  fixes r :: "32 word"
  assumes "sint r < 2147483647"
  shows "sint (r + 1) = sint r + 1"
proof -
  have "-2147483648 \<le> sint r" using sint_ge [of r] by simp
  with assms show ?thesis by (simp add: sint_word_ariths signed_take_bit_int_eq_self_iff signed_take_bit_int_eq_self)
qed

lemma wrapper_failing:
  assumes "jb_Variables job = Inr vars"
    and "\<And>t w. \<exists>w' e. handler t w = (w', Err e) \<and> \<not> errors_Is (Some e) ErrWorkflowIncident"
  shows "\<exists>w' e. taskHandlerWrapper name handler config job w =
    (w', Some (if th_IncidentMaxRetries config \<le>s jb_Retries job + 1 then Incident (jb_Key job) e
       else FailJob (jb_Key job) (jb_Retries job + 1) (duration_seconds (th_RetryTimeoutSec config))))"
proof -
  let ?t = "\<lparr>wt_TaskId = jb_Key job, wt_TaskName = name, wt_ProcessId = jb_ProcessDefinitionKey job,
    wt_Retries = jb_Retries job, wt_Scope = vars\<rparr>"
  obtain w' e where "handler ?t w = (w', Err e)" "\<not> errors_Is (Some e) ErrWorkflowIncident"
    using assms(2) by blast
  then have "taskHandlerWrapper name handler config job w =
    (w', Some (if th_IncidentMaxRetries config \<le>s jb_Retries job + 1 then Incident (jb_Key job) e
       else FailJob (jb_Key job) (jb_Retries job + 1) (duration_seconds (th_RetryTimeoutSec config))))"
    by (simp add: taskHandlerWrapper_def assms(1) handleErrorTask_def handleIncidentTask_def)
  then show ?thesis by blast
qed

lemma task_runs_failing:
  assumes "jb_Variables job = Inr vars"
    and "\<And>t w. \<exists>w' e. handler t w = (w', Err e) \<and> \<not> errors_Is (Some e) ErrWorkflowIncident"
    and "0 \<le> sint (jb_Retries job)" and "sint (jb_Retries job) < 2147483647"
  shows "\<exists>w' cmds e. task_runs (taskHandlerWrapper name handler config) job w = Some (w', cmds) \<and>
    length cmds = nat (max 1 (sint (th_IncidentMaxRetries config) - sint (jb_Retries job))) \<and>
    last cmds = Some (Incident (jb_Key job) e)"
  using assms(1,3,4)
proof (induction "nat (sint (th_IncidentMaxRetries config) - sint (jb_Retries job))"
    arbitrary: job w rule: less_induct)
  case less
  let ?r = "jb_Retries job" and ?m = "th_IncidentMaxRetries config"
  note suc = sint_Suc [OF less.prems(3)]
  obtain w' e where w': "taskHandlerWrapper name handler config job w =
      (w', Some (if ?m \<le>s ?r + 1 then Incident (jb_Key job) e
         else FailJob (jb_Key job) (?r + 1) (duration_seconds (th_RetryTimeoutSec config))))"
    using wrapper_failing [of job vars handler, OF less.prems(1) assms(2)] by blast
  show ?case
  proof (cases "?m \<le>s ?r + 1")
    case True
    then have "sint ?m \<le> sint ?r + 1" by (simp add: word_sle_eq suc)
    with True show ?thesis
      by (subst task_runs.simps) (simp add: w' zeebe_after_def)
  next
    case False
    then have more: "sint ?r + 1 < sint ?m" by (simp add: word_sle_eq suc)
    let ?job = "job\<lparr>jb_Retries := ?r + 1\<rparr>"
    have m: "sint ?m \<le> 2147483647" using sint_lt [of ?m] by simp
    have pos: "0 <s ?r + 1" using less.prems(2) by (simp add: word_sless_alt suc)
    have "\<exists>w'' cmds e. task_runs (taskHandlerWrapper name handler config) ?job w' = Some (w'', cmds) \<and>
      length cmds = nat (max 1 (sint ?m - sint (jb_Retries ?job))) \<and> last cmds = Some (Incident (jb_Key ?job) e)"
      by (rule less.hyps) (use more m less.prems in \<open>simp_all add: suc\<close>)
    then obtain w'' cmds e' where
      IH: "task_runs (taskHandlerWrapper name handler config) ?job w' = Some (w'', cmds)"
        "length cmds = nat (max 1 (sint ?m - (sint ?r + 1)))" "last cmds = Some (Incident (jb_Key job) e')"
      by (auto simp: suc)
    have "cmds \<noteq> []" using IH(2) by auto
    moreover have "Suc (nat (max 1 (sint ?m - (sint ?r + 1)))) = nat (max 1 (sint ?m - sint ?r))"
      using more by (simp add: max_def)
    ultimately show ?thesis
      by (subst task_runs.simps) (simp add: w' False zeebe_after_def pos IH)
  qed
qed

text \<open>An error that was made an incident stops the task at once, whatever its retries.\<close>

lemma MakeIncidentErr_Is: "errors_Is (MakeIncidentErr err) ErrWorkflowIncident"
  unfolding MakeIncidentErr_def errors_Is_Join_pair [OF ErrWorkflowIncident_def]
  by (simp add: ErrWorkflowIncident_def)

lemma MakeIncident_Is: "errors_Is (MakeIncident msg) ErrWorkflowIncident"
  using MakeIncidentErr_Is [of "Some (Sentinel msg)"] by (simp add: MakeIncidentErr_def MakeIncident_def)

end
