(* ===== verification/Redis.thy ===== *)
theory Redis
  imports App_Config
begin

section \<open>The Redis client (pkg/redis)\<close>

text \<open>
  The client with its swap of connections, the values it stores, its health loop and its subscribers.
  The library \<^verbatim>\<open>go-redis\<close> is a record of functions on a world \<open>'w\<close>; connections, subscriptions and contexts
  are numbers that it hands out.  Times are nanoseconds.  The lemmas show the round trip of a stored value, what
  the health check answers after any sequence of ticks, the gauges of the pool, and what a rebuild does
  to the subscribers; the goroutines that forward messages are a step relation.
\<close>

definition ErrNotFound :: gerr where
  "ErrNotFound = Sentinel ''redis: nil''"

text \<open>The codec (codec.go); \<open>'v\<close> are the Go values.\<close>

record 'v codec =
  co_Marshal :: "'v \<Rightarrow> gerr + string"
  co_Unmarshal :: "string \<Rightarrow> gerr + 'v"

record 'w redis_ops =
  ro_NewUniversalClient :: "redis_config \<Rightarrow> 'w \<Rightarrow> 'w \<times> nat"
  ro_Ping :: "nat \<Rightarrow> 'w \<Rightarrow> 'w \<times> gerror"
  ro_Close :: "nat \<Rightarrow> 'w \<Rightarrow> 'w \<times> gerror"
  ro_Get :: "nat \<Rightarrow> string \<Rightarrow> 'w \<Rightarrow> 'w \<times> string \<times> gerror"
  ro_Set :: "nat \<Rightarrow> string \<Rightarrow> string \<Rightarrow> int \<Rightarrow> 'w \<Rightarrow> 'w \<times> gerror"
  ro_Del :: "nat \<Rightarrow> string list \<Rightarrow> 'w \<Rightarrow> 'w \<times> gerror"
  ro_Publish :: "nat \<Rightarrow> string \<Rightarrow> string \<Rightarrow> 'w \<Rightarrow> 'w \<times> gerror"
  ro_Subscribe :: "nat \<Rightarrow> string list \<Rightarrow> 'w \<Rightarrow> 'w \<times> nat"
  ro_Receive :: "nat \<Rightarrow> 'w \<Rightarrow> 'w \<times> gerror"
  ro_ClosePubSub :: "nat \<Rightarrow> 'w \<Rightarrow> 'w \<times> gerror"
  ro_NewContext :: "'w \<Rightarrow> 'w \<times> nat"
  ro_Now :: "'w \<Rightarrow> int"

subsection \<open>State (client.go, health.go, pubsub.go)\<close>

text \<open>\<^verbatim>\<open>atomic.Value\<close> panics when it is given a value of another dynamic type than the first one.\<close>

record health_loop =
  hl_ok :: bool
  hl_lat :: int
  hl_err :: gerror

definition newHealthLoop :: health_loop where
  "newHealthLoop = \<lparr>hl_ok = False, hl_lat = 0, hl_err = None\<rparr>"

record subscriber =
  sb_pubsub :: nat
  sb_channels :: "string list"
  sb_ctx :: nat
  sb_closed :: bool

record redis_client =
  rc_cfg :: redis_config
  rc_cli :: "nat option"
  rc_health :: health_loop
  rc_lastActivity :: int
  rc_subs :: "subscriber list"     \<comment> \<open>the map of subscribers, in the order in which it is walked\<close>
  rc_poolStopped :: bool

definition touchActivity :: "int \<Rightarrow> redis_client \<Rightarrow> redis_client" where
  "touchActivity now c = c\<lparr>rc_lastActivity := now\<rparr>"

definition lastUsed :: "redis_client \<Rightarrow> int" where
  "lastUsed c = rc_lastActivity c"

definition universal :: "redis_client \<Rightarrow> nat" where
  "universal c = the (rc_cli c)"

subsection \<open>Values (value.go)\<close>

record redis_value =
  rv_data :: string
  rv_err :: gerror

definition Scan :: "'v codec \<Rightarrow> redis_value \<Rightarrow> gerr + 'v" where
  "Scan C v = (case rv_err v of Some e \<Rightarrow> Inl e | None \<Rightarrow> co_Unmarshal C (rv_data v))"

definition value_Err :: "redis_value \<Rightarrow> gerror" where
  "value_Err v = (case rv_err v of Some e \<Rightarrow> Some e | None \<Rightarrow> None)"

definition IsNotFound :: "redis_value \<Rightarrow> bool" where
  "IsNotFound v = errors_Is (rv_err v) ErrNotFound"

text \<open>A call that counts as activity when it succeeds.\<close>

definition touched :: "'w redis_ops \<Rightarrow> gerror \<Rightarrow> 'w \<Rightarrow> redis_client \<Rightarrow> redis_client" where
  "touched R err w c = (if err = None then touchActivity (ro_Now R w) c else c)"

definition redis_Get :: "'w redis_ops \<Rightarrow> string \<Rightarrow> redis_client \<Rightarrow> 'w \<Rightarrow> (redis_client \<times> 'w) \<times> redis_value" where
  "redis_Get R key c w =
     (case ro_Get R (universal c) key w of
        (w', val, err) \<Rightarrow>
          if errors_Is err ErrNotFound then ((c, w'), \<lparr>rv_data = [], rv_err = Some ErrNotFound\<rparr>)
          else ((touched R err w' c, w'), \<lparr>rv_data = val, rv_err = err\<rparr>))"

definition redis_Set ::
    "'w redis_ops \<Rightarrow> 'v codec \<Rightarrow> string \<Rightarrow> 'v \<Rightarrow> int \<Rightarrow> redis_client \<Rightarrow> 'w \<Rightarrow> (redis_client \<times> 'w) \<times> gerror" where
  "redis_Set R C key val ttl c w =
     (case co_Marshal C val of
        Inl err \<Rightarrow> ((c, w), Some err)
      | Inr bt \<Rightarrow>
          (case ro_Set R (universal c) key bt ttl w of
             (w', err) \<Rightarrow> ((touched R err w' c, w'), map_option (Wrapped (''redis set key='' @ key)) err)))"

definition redis_Del :: "'w redis_ops \<Rightarrow> string list \<Rightarrow> redis_client \<Rightarrow> 'w \<Rightarrow> (redis_client \<times> 'w) \<times> gerror" where
  "redis_Del R ks c w =
     (case ro_Del R (universal c) ks w of
        (w', err) \<Rightarrow> ((touched R err w' c, w'), map_option (Wrapped ''redis del'') err))"

definition redis_Publish ::
    "'w redis_ops \<Rightarrow> 'v codec \<Rightarrow> string \<Rightarrow> 'v \<Rightarrow> redis_client \<Rightarrow> 'w \<Rightarrow> (redis_client \<times> 'w) \<times> gerror" where
  "redis_Publish R C channel msg c w =
     (case co_Marshal C msg of
        Inl err \<Rightarrow> ((c, w), Some err)
      | Inr b \<Rightarrow>
          (case ro_Publish R (universal c) channel b w of
             (w', err) \<Rightarrow> ((touched R err w' c, w'), map_option (Wrapped ''redis publish'') err)))"

subsection \<open>Subscribers (pubsub.go)\<close>

definition sub_Close :: "'w redis_ops \<Rightarrow> subscriber \<Rightarrow> 'w \<Rightarrow> (subscriber \<times> 'w) \<times> gerror" where
  "sub_Close R s w =
     (if sb_closed s then ((s, w), None)
      else case ro_ClosePubSub R (sb_pubsub s) w of (w', err) \<Rightarrow> ((s\<lparr>sb_closed := True\<rparr>, w'), err))"

definition registerSubscriber :: "subscriber \<Rightarrow> redis_client \<Rightarrow> redis_client" where
  "registerSubscriber s c = c\<lparr>rc_subs := rc_subs c @ [s]\<rparr>"

definition redis_Subscribe ::
    "'w redis_ops \<Rightarrow> string list \<Rightarrow> redis_client \<Rightarrow> 'w \<Rightarrow> (redis_client \<times> 'w) \<times> (gerr + subscriber)" where
  "redis_Subscribe R channels c w =
     (case ro_Subscribe R (universal c) channels w of
        (w, ps) \<Rightarrow>
          (case ro_Receive R ps w of
             (w, Some err) \<Rightarrow> ((c, w), Inl err)
           | (w, None) \<Rightarrow>
               (case ro_NewContext R w of
                  (w, ctx) \<Rightarrow>
                    let sub = \<lparr>sb_pubsub = ps, sb_channels = channels, sb_ctx = ctx, sb_closed = False\<rparr>
                    in ((touchActivity (ro_Now R w) (registerSubscriber sub c), w), Inr sub))))"

text \<open>
  \<^verbatim>\<open>resubscribe\<close>; the goroutine that cancels the old context and closes the old subscription runs
  afterwards (\<open>forward_step\<close> below).
\<close>

definition resubscribe ::
    "'w redis_ops \<Rightarrow> nat \<Rightarrow> subscriber \<Rightarrow> 'w \<Rightarrow> (subscriber \<times> 'w) \<times> gerror" where
  "resubscribe R newClient s w =
     (if sb_closed s then ((s, w), None)
      else case ro_Subscribe R newClient (sb_channels s) w of
        (w, newPubsub) \<Rightarrow>
          (case ro_Receive R newPubsub w of
             (w, Some err) \<Rightarrow>
               (case ro_ClosePubSub R newPubsub w of (w, _) \<Rightarrow> ((s, w), Some (Wrapped ''subscribe to'' err)))
           | (w, None) \<Rightarrow>
               (case ro_NewContext R w of
                  (w, newCtx) \<Rightarrow> ((s\<lparr>sb_pubsub := newPubsub, sb_ctx := newCtx\<rparr>, w), None))))"

fun resubscribeAll ::
    "'w redis_ops \<Rightarrow> nat \<Rightarrow> subscriber list \<Rightarrow> 'w \<Rightarrow> (subscriber list \<times> 'w) \<times> gerr list" where
  "resubscribeAll R newClient [] w = (([], w), [])"
| "resubscribeAll R newClient (s # ss) w =
     (case resubscribe R newClient s w of
        ((s', w), err) \<Rightarrow>
          (case resubscribeAll R newClient ss w of
             ((ss', w), errs) \<Rightarrow> ((s' # ss', w), (case err of None \<Rightarrow> errs | Some e \<Rightarrow> e # errs))))"

subsection \<open>Building and rebuilding the connection (client.go)\<close>

text \<open>The errors of the resubscription are only logged.\<close>

definition rebildClient ::
    "'w redis_ops \<Rightarrow> redis_config \<Rightarrow> redis_client \<Rightarrow> 'w \<Rightarrow> (redis_client \<times> 'w) \<times> gerror" where
  "rebildClient R cfg c w =
     (case ro_NewUniversalClient R cfg w of
        (w, newcli) \<Rightarrow>
          (case ro_Ping R newcli w of
             (w, Some err) \<Rightarrow>
               (case ro_Close R newcli w of
                  (w, _) \<Rightarrow> ((c, w), Some (Wrapped ''redis ping err, RebilClient'' err)))
           | (w, None) \<Rightarrow>
               (case resubscribeAll R newcli (rc_subs c) w of
                  ((ss, w), errs) \<Rightarrow>
                    let w = (case rc_cli c of None \<Rightarrow> w | Some prev \<Rightarrow> fst (ro_Close R prev w));
                        c = c\<lparr>rc_subs := ss, rc_cli := Some newcli\<rparr>
                    in ((touchActivity (ro_Now R w) c, w), None))))"

definition empty_client :: "redis_config \<Rightarrow> redis_client" where
  "empty_client cfg =
     \<lparr>rc_cfg = cfg, rc_cli = None, rc_health = newHealthLoop, rc_lastActivity = 0, rc_subs = [],
      rc_poolStopped = False\<rparr>"

definition redis_New :: "'w redis_ops \<Rightarrow> redis_config \<Rightarrow> 'w \<Rightarrow> 'w \<times> (gerr + redis_client)" where
  "redis_New R cfg w =
     (case rebildClient R cfg (empty_client cfg) w of
        ((c, w'), Some err) \<Rightarrow> (w', Inl err)
      | ((c, w'), None) \<Rightarrow> (w', Inr c))"

definition redis_Close :: "'w redis_ops \<Rightarrow> redis_client \<Rightarrow> 'w \<Rightarrow> (redis_client \<times> 'w) \<times> gerror" where
  "redis_Close R c w =
     (let c = (if rc_poolStopped c then c else c\<lparr>rc_poolStopped := True\<rparr>) in
      case ro_Close R (universal c) w of (w', err) \<Rightarrow> ((c, w'), err))"

text \<open>
  The gauges of one tick of \<^verbatim>\<open>collectPoolMetrics\<close>: the numbers of the library are unsigned 32-bit, so
  the comparison with zero never holds.
\<close>

definition pool_gauges :: "32 word \<Rightarrow> 32 word \<Rightarrow> nat \<times> nat \<times> nat" where
  "pool_gauges conns idle =
     (let inUse = conns - idle; inUse = (if inUse < 0 then 0 else inUse)
      in (unat conns, unat idle, unat inUse))"

subsection \<open>The health loop (health.go)\<close>

text \<open>The constant \<^verbatim>\<open>interval\<close> as it is compared with \<^verbatim>\<open>time.Since\<close>: nanoseconds.\<close>

definition health_interval :: int where "health_interval = 30"

text \<open>
  One tick at time \<open>now\<close>; \<open>ping\<close> is the result of the ping, \<open>lat\<close> its latency in microseconds and
  \<open>type_of\<close> the dynamic type of an error.
\<close>

definition health_tick ::
    "(gerr \<Rightarrow> string) \<Rightarrow> int \<Rightarrow> gerror \<Rightarrow> int \<Rightarrow> redis_client \<Rightarrow> redis_client go" where
  "health_tick type_of now ping lat c =
     (if now - lastUsed c < health_interval then Ok c
      else let h = rc_health c in
        case ping of
          Some err \<Rightarrow>
            (case hl_err h of
               Some old \<Rightarrow>
                 if type_of old \<noteq> type_of err
                 then Panic ''sync/atomic: store of inconsistently typed value into Value''
                 else Ok (c\<lparr>rc_health := h\<lparr>hl_ok := False, hl_err := Some err\<rparr>\<rparr>)
             | None \<Rightarrow> Ok (c\<lparr>rc_health := h\<lparr>hl_ok := False, hl_err := Some err\<rparr>\<rparr>))
        | None \<Rightarrow> Ok (c\<lparr>rc_health := h\<lparr>hl_ok := True, hl_lat := lat\<rparr>\<rparr>))"

record redis_health =
  rh_OK :: bool
  rh_Latency :: int
  rh_LastErr :: gerror

definition latency :: "redis_client \<Rightarrow> int" where
  "latency c = wrap64 (hl_lat (rc_health c) * 1000)"

definition snapshot :: "redis_client \<Rightarrow> redis_health" where
  "snapshot c =
     (if hl_ok (rc_health c) then \<lparr>rh_OK = True, rh_Latency = latency c, rh_LastErr = None\<rparr>
      else \<lparr>rh_OK = hl_ok (rc_health c), rh_Latency = latency c, rh_LastErr = hl_err (rc_health c)\<rparr>)"

definition redis_HealthCheck :: "redis_client \<Rightarrow> gerror" where
  "redis_HealthCheck c =
     (let snap = snapshot c in
      if rh_OK snap then None
      else case rh_LastErr snap of
        Some e \<Rightarrow> Some e
      | None \<Rightarrow> Some (Sentinel ''redis unhealthy''))"

subsection \<open>The health check after any ticks\<close>

type_synonym tick = "int \<times> gerror \<times> int"

fun health_run :: "(gerr \<Rightarrow> string) \<Rightarrow> tick list \<Rightarrow> redis_client \<Rightarrow> redis_client go" where
  "health_run type_of [] c = Ok c"
| "health_run type_of ((now, ping, lat) # ticks) c =
     go_bind (health_tick type_of now ping lat c) (health_run type_of ticks)"

text \<open>The pings that were made: those that the last activity does not suppress.\<close>

definition pings :: "redis_client \<Rightarrow> tick list \<Rightarrow> gerror list" where
  "pings c ticks = map (\<lambda>(now, ping, lat). ping) (filter (\<lambda>(now, ping, lat). health_interval \<le> now - lastUsed c) ticks)"

lemma pings_simps [simp]:
  "pings c [] = []"
  "pings c ((now, ping, lat) # ticks) =
     (if health_interval \<le> now - lastUsed c then ping # pings c ticks else pings c ticks)"
  by (simp_all add: pings_def)

lemma health_run_append:
  "health_run type_of (ts @ us) c = go_bind (health_run type_of ts c) (health_run type_of us)"
proof (induction type_of ts c rule: health_run.induct)
  case (1 type_of c)
  show ?case by simp
next
  case (2 type_of now ping lat ticks c)
  show ?case by (cases "health_tick type_of now ping lat c") (simp_all add: 2)
qed

lemma health_tick_frame:
  "health_tick type_of now ping lat c = Ok c' \<Longrightarrow>
     lastUsed c' = lastUsed c \<and> rc_cli c' = rc_cli c \<and> rc_subs c' = rc_subs c"
  by (auto simp: health_tick_def lastUsed_def Let_def split: if_splits option.splits)

lemma health_run_frame:
  "health_run type_of ts c = Ok c' \<Longrightarrow>
     lastUsed c' = lastUsed c \<and> rc_cli c' = rc_cli c \<and> rc_subs c' = rc_subs c"
proof (induction type_of ts c rule: health_run.induct)
  case (2 type_of now ping lat ticks c)
  obtain c1 where c1: "health_tick type_of now ping lat c = Ok c1" "health_run type_of ticks c1 = Ok c'"
    using 2(2) by (auto simp: go_bind_Ok_iff)
  with 2(1) [OF c1(2)] health_tick_frame [OF c1(1)] show ?case by simp
qed simp

lemma HealthCheck_health:
  "redis_HealthCheck c = (if hl_ok (rc_health c) then None
     else Some (case hl_err (rc_health c) of Some e \<Rightarrow> e | None \<Rightarrow> Sentinel ''redis unhealthy''))"
  by (simp add: redis_HealthCheck_def snapshot_def Let_def split: option.splits)

lemma health_tick_pinged:
  assumes "health_tick type_of now ping lat c = Ok c'" and "health_interval \<le> now - lastUsed c"
  shows "redis_HealthCheck c' = ping"
  using assms
  by (auto simp: health_tick_def HealthCheck_health Let_def split: if_splits option.splits)

lemma health_tick_skipped:
  "now - lastUsed c < health_interval \<Longrightarrow> health_tick type_of now ping lat c = Ok c"
  by (simp add: health_tick_def)

lemma health_run_last:
  assumes "health_run type_of ts c = Ok c'"
  shows "redis_HealthCheck c' = (if pings c ts = [] then redis_HealthCheck c else last (pings c ts))"
  using assms
proof (induction ts arbitrary: c' rule: rev_induct)
  case Nil
  then show ?case by simp
next
  case (snoc t ts)
  obtain now ping lat where t: "t = (now, ping, lat)" by (metis surj_pair)
  obtain c1 where run: "health_run type_of ts c = Ok c1" and tick: "health_tick type_of now ping lat c1 = Ok c'"
    using snoc.prems by (auto simp: health_run_append t go_bind_Ok_iff)
  have same: "lastUsed c1 = lastUsed c" using health_run_frame [OF run] by simp
  have split: "pings c (ts @ [t]) = pings c ts @ (if health_interval \<le> now - lastUsed c then [ping] else [])"
    by (simp add: pings_def t)
  show ?case
  proof (cases "health_interval \<le> now - lastUsed c")
    case True
    then show ?thesis using health_tick_pinged [OF tick] by (simp add: split same)
  next
    case False
    then have "c' = c1" using tick health_tick_skipped [of now c1] same by simp
    then show ?thesis using snoc.IH [OF run] False by (simp add: split)
  qed
qed

text \<open>All failures that the loop has survived have the same dynamic type.\<close>

lemma health_run_types:
  assumes "health_run type_of ts c = Ok c'" and "Some e \<in> set (hl_err (rc_health c) # pings c ts)"
    and "Some e' \<in> set (hl_err (rc_health c) # pings c ts)"
  shows "type_of e = type_of e'"
  using assms
proof (induction type_of ts c arbitrary: e e' rule: health_run.induct)
  case (1 type_of c)
  then show ?case by (cases "hl_err (rc_health c)") auto
next
  case (2 type_of now ping lat ticks c)
  obtain c1 where tick: "health_tick type_of now ping lat c = Ok c1" and run: "health_run type_of ticks c1 = Ok c'"
    using 2(2) by (auto simp: go_bind_Ok_iff)
  note IH = 2(1) [OF run]
  have pings: "pings c1 ticks = pings c ticks"
    using health_tick_frame [OF tick] by (simp add: pings_def)
  show ?case
  proof (cases "health_interval \<le> now - lastUsed c \<and> ping \<noteq> None")
    case True
    then obtain err where err: "ping = Some err" by auto
    have c1: "hl_err (rc_health c1) = Some err"
      and old: "\<And>x. hl_err (rc_health c) = Some x \<Longrightarrow> type_of x = type_of err"
      using tick True by (auto simp: health_tick_def Let_def err split: option.splits if_splits)
    have "type_of x = type_of err"
      if "Some x \<in> set (hl_err (rc_health c) # pings c ((now, ping, lat) # ticks))" for x
      using that True old IH [of x err] by (auto simp: err c1 pings)
    then show ?thesis using 2(3,4) by metis
  next
    case False
    then have "hl_err (rc_health c1) = hl_err (rc_health c)"
      using tick by (auto simp: health_tick_def Let_def split: option.splits if_splits)
    moreover have "Some x \<in> set (hl_err (rc_health c1) # pings c1 ticks)"
      if "Some x \<in> set (hl_err (rc_health c) # pings c ((now, ping, lat) # ticks))" for x
      using that False calculation by (auto simp: pings split: if_splits)
    ultimately show ?thesis using IH 2(3,4) by metis
  qed
qed

lemma health_tick_not_Err: "health_tick type_of now ping lat c \<noteq> Err e"
  by (simp add: health_tick_def Let_def split: option.splits)

lemma health_run_not_Err: "health_run type_of ts c \<noteq> Err e"
proof (induction type_of ts c rule: health_run.induct)
  case (2 type_of now ping lat ticks c)
  show ?case
  proof (cases "health_tick type_of now ping lat c")
    case (Ok c1)
    show ?thesis using 2 [of c1] by (simp add: Ok)
  next
    case (Err e1)
    then show ?thesis using health_tick_not_Err by blast
  next
    case (Panic p)
    show ?thesis by (simp add: Panic)
  qed
qed simp

subsection \<open>The gauges of the pool\<close>

lemma pool_gauges_in_use:
  "snd (snd (pool_gauges conns idle)) =
     (if unat idle \<le> unat conns then unat conns - unat idle else unat conns + 4294967296 - unat idle)"
proof -
  have "snd (snd (pool_gauges conns idle)) = unat (conns - idle)"
    by (simp add: pool_gauges_def Let_def)
  also have "\<dots> = (if unat idle \<le> unat conns then unat conns - unat idle
      else unat conns + 2 ^ size conns - unat idle)"
    by (rule unat_sub_if_size)
  finally show ?thesis by (simp add: word_size)
qed

subsection \<open>What a rebuild does to the subscribers\<close>

text \<open>The subscriber's new subscription is one of the new connection, and was confirmed.\<close>

definition resubscribed :: "'w redis_ops \<Rightarrow> nat \<Rightarrow> subscriber \<Rightarrow> subscriber \<Rightarrow> bool" where
  "resubscribed R newcli s s' \<longleftrightarrow>
     (\<exists>v v1 v2. ro_Subscribe R newcli (sb_channels s) v = (v1, sb_pubsub s') \<and>
        ro_Receive R (sb_pubsub s') v1 = (v2, None) \<and>
        s' = s\<lparr>sb_pubsub := sb_pubsub s', sb_ctx := sb_ctx s'\<rparr>)"

lemma resubscribe_outcome:
  assumes "resubscribe R newcli s w = ((s', w'), err)"
  shows "if sb_closed s then s' = s \<and> err = None
    else (err = None \<and> resubscribed R newcli s s') \<or> (err \<noteq> None \<and> s' = s)"
  using assms unfolding resubscribe_def resubscribed_def
  by (auto split: if_splits prod.splits option.splits) blast

lemma resubscribeAll_outcome:
  assumes "resubscribeAll R newcli ss w = ((ss', w'), errs)"
  shows "list_all2 (\<lambda>s s'. s' = s \<or> (\<not> sb_closed s \<and> resubscribed R newcli s s')) ss ss' \<and>
    (errs = [] \<longrightarrow> list_all2 (\<lambda>s s'. if sb_closed s then s' = s else resubscribed R newcli s s') ss ss')"
  using assms
proof (induction ss arbitrary: w ss' w' errs)
  case Nil
  then show ?case by simp
next
  case (Cons s ss)
  obtain s1 w1 err where r: "resubscribe R newcli s w = ((s1, w1), err)" by (metis surj_pair)
  obtain ss1 w2 errs1 where rs: "resubscribeAll R newcli ss w1 = ((ss1, w2), errs1)" by (metis surj_pair)
  have "ss' = s1 # ss1" and "errs = [] \<longleftrightarrow> err = None \<and> errs1 = []"
    using Cons.prems by (auto simp: r rs split: option.splits)
  then show ?case
    using Cons.IH [OF rs] resubscribe_outcome [OF r] by (auto split: if_splits)
qed

lemma rebildClient_outcome:
  assumes "rebildClient R cfg c w = ((c', w'), err)"
  shows "(err \<noteq> None \<and> c' = c) \<or>
    (err = None \<and> (\<exists>newcli v1 v2 now. ro_NewUniversalClient R cfg w = (v1, newcli) \<and> ro_Ping R newcli v1 = (v2, None) \<and>
       c' = c\<lparr>rc_subs := rc_subs c', rc_cli := Some newcli, rc_lastActivity := now\<rparr> \<and>
       list_all2 (\<lambda>s s'. s' = s \<or> (\<not> sb_closed s \<and> resubscribed R newcli s s')) (rc_subs c) (rc_subs c')))"
proof -
  obtain v1 newcli where n: "ro_NewUniversalClient R cfg w = (v1, newcli)" by (metis surj_pair)
  obtain v2 p where p: "ro_Ping R newcli v1 = (v2, p)" by (metis surj_pair)
  show ?thesis
  proof (cases p)
    case (Some e)
    with assms show ?thesis by (auto simp: rebildClient_def n p split: prod.splits)
  next
    case None
    obtain ss v3 errs where r: "resubscribeAll R newcli (rc_subs c) v2 = ((ss, v3), errs)" by (metis surj_pair)
    have "err = None" and "\<exists>now. c' = c\<lparr>rc_subs := ss, rc_cli := Some newcli, rc_lastActivity := now\<rparr>"
      using assms by (auto simp: rebildClient_def n p None r Let_def touchActivity_def)
    with resubscribeAll_outcome [OF r] n p None show ?thesis by auto
  qed
qed

lemma redis_New_Inr:
  assumes "redis_New R cfg w = (w', Inr c)"
  shows "rc_health c = newHealthLoop \<and> rc_subs c = [] \<and> (\<exists>n. rc_cli c = Some n)"
proof -
  obtain c' w1 err where r: "rebildClient R cfg (empty_client cfg) w = ((c', w1), err)" by (metis surj_pair)
  with assms have "err = None" "c' = c" by (auto simp: redis_New_def split: option.splits)
  with rebildClient_outcome [OF r] show ?thesis
    by (auto simp: empty_client_def list_all2_Nil)
qed

subsection \<open>The goroutines of a subscriber (pubsub.go)\<close>

text \<open>
  A subscription is named by the connection on which it was made and a number.  The state holds the fields of the
  subscriber that \<^verbatim>\<open>forwardMessages\<close> reads; the connection of the client and the one of a rebuild that has not
  swapped yet; the connections whose pool is closed; the contexts that are cancelled and the subscriptions whose
  channel is closed; the forwarders that wait in their \<^verbatim>\<open>select\<close> with the subscription and the context they
  read on entering it; and the goroutines of \<^verbatim>\<open>resubscribe\<close> that still have to cancel, or to close.
\<close>

type_synonym subscription = "nat \<times> nat"

record forward_state =
  fs_pubsub :: subscription
  fs_ctx :: nat
  fs_closed :: bool
  fs_conn :: nat
  fs_new :: "nat option"
  fs_pools :: "nat list"
  fs_cancelled :: "nat list"
  fs_shut :: "subscription list"
  fs_waiting :: "(subscription \<times> nat) list"
  fs_cancels :: "(subscription \<times> nat) list"
  fs_closes :: "(subscription \<times> nat) list"
  fs_rebuilds :: nat
  fs_out :: "string list"
  fs_panicked :: bool

definition forward_init :: forward_state where
  "forward_init =
     \<lparr>fs_pubsub = (0, 0), fs_ctx = 0, fs_closed = False, fs_conn = 0, fs_new = None, fs_pools = [],
      fs_cancelled = [], fs_shut = [], fs_waiting = [((0, 0), 0)],
      fs_cancels = [], fs_closes = [], fs_rebuilds = 0, fs_out = [], fs_panicked = False\<rparr>"

definition forwarder_ends :: "nat \<Rightarrow> forward_state \<Rightarrow> forward_state" where
  "forwarder_ends i s = s\<lparr>fs_waiting := take i (fs_waiting s) @ drop (Suc i) (fs_waiting s)\<rparr>"

text \<open>
  A rebuild on the new connection \<open>n\<close> resubscribes (\<open>fw_resubscribe\<close>), or does not, when the subscriber is closed or
  the new subscription is not confirmed (\<open>fw_kept\<close>); either way it then swaps the connections and closes the old
  pool.  \<^verbatim>\<open>Close\<close> of the client closes the current pool.  The library closes the channel of a subscription when
  its pool is closed.  The context of the first forwarder ends also with the context given to
  \<^verbatim>\<open>Subscribe\<close>.  A closed channel is ready with a nil message: a forwarder of a subscriber that is not closed
  logs a warning and dereferences it.
\<close>

inductive forward_step :: "forward_state \<Rightarrow> forward_state \<Rightarrow> bool" where
  fw_resubscribe: "\<lbrakk>fs_new s = None; n \<noteq> fs_conn s; n \<notin> set (fs_pools s);
      \<not> fs_closed s; (n, p) \<noteq> fs_pubsub s; (n, p) \<notin> set (fs_shut s); c \<noteq> fs_ctx s; c \<notin> set (fs_cancelled s)\<rbrakk> \<Longrightarrow>
     forward_step s (s\<lparr>fs_pubsub := (n, p), fs_ctx := c, fs_new := Some n, fs_waiting := fs_waiting s @ [((n, p), c)],
       fs_cancels := fs_cancels s @ [(fs_pubsub s, fs_ctx s)], fs_rebuilds := Suc (fs_rebuilds s)\<rparr>)"
| fw_kept: "\<lbrakk>fs_new s = None; n \<noteq> fs_conn s; n \<notin> set (fs_pools s)\<rbrakk> \<Longrightarrow>
     forward_step s (s\<lparr>fs_new := Some n, fs_rebuilds := Suc (fs_rebuilds s)\<rparr>)"
| fw_swap: "fs_new s = Some n \<Longrightarrow>
     forward_step s (s\<lparr>fs_conn := n, fs_new := None, fs_pools := fs_conn s # fs_pools s\<rparr>)"
| fw_client_close: "forward_step s (s\<lparr>fs_pools := fs_conn s # fs_pools s\<rparr>)"
| fw_pool_closed: "fst p \<in> set (fs_pools s) \<Longrightarrow> forward_step s (s\<lparr>fs_shut := p # fs_shut s\<rparr>)"
| fw_parent_done: "forward_step s (s\<lparr>fs_cancelled := 0 # fs_cancelled s\<rparr>)"
| fw_cancel: "fs_cancels s = (p, c) # rest \<Longrightarrow>
     forward_step s (s\<lparr>fs_cancelled := c # fs_cancelled s, fs_cancels := rest, fs_closes := fs_closes s @ [(p, c)]\<rparr>)"
| fw_shut: "fs_closes s = (p, c) # rest \<Longrightarrow> forward_step s (s\<lparr>fs_shut := p # fs_shut s, fs_closes := rest\<rparr>)"
| fw_close: "\<not> fs_closed s \<Longrightarrow>
     forward_step s (s\<lparr>fs_closed := True, fs_cancelled := fs_ctx s # fs_cancelled s,
       fs_shut := fs_pubsub s # fs_shut s\<rparr>)"
| fw_done: "\<lbrakk>i < length (fs_waiting s); snd (fs_waiting s ! i) \<in> set (fs_cancelled s)\<rbrakk> \<Longrightarrow>
     forward_step s (forwarder_ends i s)"
| fw_ended: "\<lbrakk>i < length (fs_waiting s); fst (fs_waiting s ! i) \<in> set (fs_shut s); fs_closed s\<rbrakk> \<Longrightarrow>
     forward_step s (forwarder_ends i s)"
| fw_nil: "\<lbrakk>i < length (fs_waiting s); fst (fs_waiting s ! i) \<in> set (fs_shut s); \<not> fs_closed s\<rbrakk> \<Longrightarrow>
     forward_step s (s\<lparr>fs_panicked := True\<rparr>)"
| fw_message: "\<lbrakk>i < length (fs_waiting s); fst (fs_waiting s ! i) \<notin> set (fs_shut s)\<rbrakk> \<Longrightarrow>
     forward_step s (s\<lparr>fs_out := fs_out s @ [m], fs_waiting := (fs_waiting s)[i := (fs_pubsub s, fs_ctx s)]\<rparr>)"
| fw_dropped: "\<lbrakk>i < length (fs_waiting s); fst (fs_waiting s ! i) \<notin> set (fs_shut s); fs_ctx s \<in> set (fs_cancelled s)\<rbrakk> \<Longrightarrow>
     forward_step s (forwarder_ends i s)"

inductive_cases forward_stepE: "forward_step s s'"

definition forward_reachable :: "forward_state \<Rightarrow> bool" where
  "forward_reachable s \<longleftrightarrow> forward_step\<^sup>*\<^sup>* forward_init s"

text \<open>
  While there was no rebuild and the client is open, nothing is closed but by the user, and there is one
  forwarder at most.
\<close>

definition calm :: "forward_state \<Rightarrow> bool" where
  "calm s \<longleftrightarrow> fs_rebuilds s = 0 \<longrightarrow>
     fs_new s = None \<and> fs_cancels s = [] \<and> fs_closes s = [] \<and> length (fs_waiting s) \<le> 1 \<and>
     (fs_pools s = [] \<longrightarrow> \<not> fs_panicked s \<and> (fs_shut s \<noteq> [] \<longrightarrow> fs_closed s))"

lemma calm_step: "forward_step s s' \<Longrightarrow> calm s \<Longrightarrow> calm s'"
  by (erule forward_stepE) (auto simp: calm_def forwarder_ends_def)

lemma calm_reachable: "forward_reachable s \<Longrightarrow> calm s"
  unfolding forward_reachable_def
proof (induction rule: rtranclp_induct)
  case base
  show ?case by (simp add: calm_def forward_init_def)
next
  case (step y z)
  then show ?case by (blast intro: calm_step)
qed

text \<open>A forwarder that waits on a closed pool while its subscriber is open can always crash.\<close>

lemma closed_pool_crash:
  assumes "\<not> fs_closed s" and "(p, c) \<in> set (fs_waiting s)" and "fst p \<in> set (fs_pools s)"
  shows "\<exists>s'. forward_step\<^sup>*\<^sup>* s s' \<and> \<not> fs_closed s' \<and> fs_panicked s'"
proof -
  let ?s1 = "s\<lparr>fs_shut := p # fs_shut s\<rparr>"
  obtain i where i: "i < length (fs_waiting s)" "fs_waiting s ! i = (p, c)"
    using assms(2) by (auto simp: in_set_conv_nth)
  have "forward_step s ?s1" using assms(3) by (rule fw_pool_closed)
  moreover have "forward_step ?s1 (?s1\<lparr>fs_panicked := True\<rparr>)"
    using assms(1) i by (intro fw_nil [of i]) simp_all
  ultimately have "forward_step\<^sup>*\<^sup>* s (?s1\<lparr>fs_panicked := True\<rparr>)" by auto
  then show ?thesis using assms(1) by (intro exI conjI) (assumption, simp_all)
qed

lemma forward_step_reachable:
  "forward_reachable s \<Longrightarrow> forward_step s s' \<Longrightarrow> forward_reachable s'"
  unfolding forward_reachable_def by (rule rtranclp.rtrancl_into_rtrancl)

text \<open>The client is closed under an open subscriber; a rebuild whose new subscription is not confirmed.\<close>

definition client_closed :: forward_state where
  "client_closed = forward_init\<lparr>fs_pools := [0]\<rparr>"

definition kept_back :: forward_state where
  "kept_back = forward_init\<lparr>fs_conn := 1, fs_pools := [0], fs_rebuilds := 1\<rparr>"

lemma client_closed_reachable: "forward_reachable client_closed"
  unfolding forward_reachable_def
  using fw_client_close [of forward_init] by (intro r_into_rtranclp) (simp add: client_closed_def forward_init_def)

lemma kept_back_reachable: "forward_reachable kept_back"
proof -
  let ?s1 = "forward_init\<lparr>fs_new := Some 1, fs_rebuilds := 1\<rparr>"
  have "forward_step forward_init ?s1" using fw_kept [of forward_init 1] by (simp add: forward_init_def)
  moreover have "forward_step ?s1 kept_back" using fw_swap [of ?s1 1] by (simp add: kept_back_def forward_init_def)
  ultimately show ?thesis unfolding forward_reachable_def by auto
qed

text \<open>One rebuild whose old forwarder sees the closed channel before the cancelled context.\<close>

definition rebuilt :: forward_state where
  "rebuilt = forward_init\<lparr>fs_pubsub := (1, 0), fs_ctx := 1, fs_new := Some 1, fs_waiting := [((0, 0), 0), ((1, 0), 1)],
     fs_cancels := [((0, 0), 0)], fs_rebuilds := 1\<rparr>"

lemma forward_rebuilt: "forward_reachable rebuilt"
  unfolding forward_reachable_def
  using fw_resubscribe [of forward_init 1 0 1]
  by (intro r_into_rtranclp) (simp add: rebuilt_def forward_init_def)

lemma forward_crash:
  "\<exists>s. forward_reachable s \<and> fs_rebuilds s = 1 \<and> fs_pools s = [] \<and> \<not> fs_closed s \<and> fs_panicked s"
proof -
  let ?s1 = "rebuilt\<lparr>fs_cancelled := [0], fs_cancels := [], fs_closes := [((0, 0), 0)]\<rparr>"
  let ?s2 = "?s1\<lparr>fs_shut := [(0, 0)], fs_closes := []\<rparr>"
  have "forward_step rebuilt ?s1" using fw_cancel [of rebuilt "(0, 0)" 0 "[]"] by (simp add: rebuilt_def forward_init_def)
  moreover have "forward_step ?s1 ?s2" using fw_shut [of ?s1 "(0, 0)" 0 "[]"] by (simp add: rebuilt_def forward_init_def)
  moreover have "forward_step ?s2 (?s2\<lparr>fs_panicked := True\<rparr>)"
    by (rule fw_nil [of 0]) (simp_all add: rebuilt_def forward_init_def)
  ultimately have "forward_reachable (?s2\<lparr>fs_panicked := True\<rparr>)"
    using forward_rebuilt by (blast intro: forward_step_reachable)
  then show ?thesis by (intro exI [of _ "?s2\<lparr>fs_panicked := True\<rparr>"]) (simp add: rebuilt_def forward_init_def)
qed

text \<open>A forwarder that takes a message after the rebuild joins the new one on the same subscription.\<close>

lemma forward_doubled:
  "\<exists>s. forward_reachable s \<and> fs_waiting s = [((1, 0), 1), ((1, 0), 1)] \<and> fs_pubsub s = (1, 0) \<and> fs_conn s = 1 \<and>
     fs_cancels s = [] \<and> fs_closes s = []"
proof -
  let ?s1 = "rebuilt\<lparr>fs_out := [''m''], fs_waiting := [((1, 0), 1), ((1, 0), 1)]\<rparr>"
  let ?s2 = "?s1\<lparr>fs_cancelled := [0], fs_cancels := [], fs_closes := [((0, 0), 0)]\<rparr>"
  let ?s3 = "?s2\<lparr>fs_shut := [(0, 0)], fs_closes := []\<rparr>"
  let ?s4 = "?s3\<lparr>fs_conn := 1, fs_new := None, fs_pools := [0]\<rparr>"
  have "forward_step rebuilt ?s1" using fw_message [of 0 rebuilt "''m''"] by (simp add: rebuilt_def forward_init_def)
  moreover have "forward_step ?s1 ?s2" using fw_cancel [of ?s1 "(0, 0)" 0 "[]"] by (simp add: rebuilt_def forward_init_def)
  moreover have "forward_step ?s2 ?s3" using fw_shut [of ?s2 "(0, 0)" 0 "[]"] by (simp add: rebuilt_def forward_init_def)
  moreover have "forward_step ?s3 ?s4" using fw_swap [of ?s3 1] by (simp add: rebuilt_def forward_init_def)
  ultimately have "forward_reachable ?s4" using forward_rebuilt by (blast intro: forward_step_reachable)
  then show ?thesis by (intro exI [of _ ?s4]) (simp add: rebuilt_def forward_init_def)
qed

subsection \<open>The loop of the gauges, and the operations that nothing calls\<close>

text \<open>
  The branches that the \<^verbatim>\<open>select\<close> of \<^verbatim>\<open>collectPoolMetrics\<close> takes; a tick carries what \<^verbatim>\<open>PoolStats\<close> returns, nil
  included.  The result lists the triples that the gauges were set to.
\<close>

datatype pool_event = PoolStop | PoolTick "(32 word \<times> 32 word) option"

fun collectPoolMetrics :: "pool_event list \<Rightarrow> (nat \<times> nat \<times> nat) list" where
  "collectPoolMetrics [] = []"
| "collectPoolMetrics (PoolStop # es) = []"
| "collectPoolMetrics (PoolTick None # es) = collectPoolMetrics es"
| "collectPoolMetrics (PoolTick (Some (conns, idle)) # es) = pool_gauges conns idle # collectPoolMetrics es"

definition unregisterSubscriber :: "nat \<Rightarrow> redis_client \<Rightarrow> redis_client" where
  "unregisterSubscriber i c = c\<lparr>rc_subs := take i (rc_subs c) @ drop (Suc i) (rc_subs c)\<rparr>"

definition sub_isClosed :: "subscriber \<Rightarrow> bool" where
  "sub_isClosed s = sb_closed s"

text \<open>The third component is the subscription that the started goroutine closes.\<close>

definition updatePubsub ::
    "'w redis_ops \<Rightarrow> nat \<Rightarrow> subscriber \<Rightarrow> 'w \<Rightarrow> subscriber \<times> 'w \<times> nat option" where
  "updatePubsub R newPubsub s w =
     (if sb_closed s then (case ro_ClosePubSub R newPubsub w of (w', _) \<Rightarrow> (s, w', None))
      else (s\<lparr>sb_pubsub := newPubsub\<rparr>, w, Some (sb_pubsub s)))"

text \<open>After the stop no gauge is set.\<close>

lemma collectPoolMetrics_stop: "collectPoolMetrics (es @ PoolStop # es') = collectPoolMetrics es"
  by (induction es rule: collectPoolMetrics.induct) auto

text \<open>The counters that the pool gives at the ticks before the stop, and the three gauges of a pair of them.\<close>

definition pool_ticks :: "pool_event list \<Rightarrow> (32 word \<times> 32 word) list" where
  "pool_ticks es = concat (map (\<lambda>e. case e of PoolTick (Some st) \<Rightarrow> [st] | _ \<Rightarrow> []) (takeWhile (\<lambda>e. e \<noteq> PoolStop) es))"

definition counted :: "32 word \<times> 32 word \<Rightarrow> nat \<times> nat \<times> nat" where
  "counted st = (case st of (conns, idle) \<Rightarrow>
     (unat conns, unat idle, if unat idle \<le> unat conns then unat conns - unat idle
        else unat conns + 4294967296 - unat idle))"

lemma pool_gauges_counted: "pool_gauges conns idle = counted (conns, idle)"
  using pool_gauges_in_use [of conns idle] by (simp add: pool_gauges_def counted_def Let_def)

lemma collectPoolMetrics_counted: "collectPoolMetrics es = map counted (pool_ticks es)"
  by (induction es rule: collectPoolMetrics.induct) (simp_all add: pool_ticks_def pool_gauges_counted)

text \<open>
  Unlike \<^verbatim>\<open>resubscribe\<close>, which gives the new forwarder a context of its own and cancels the old one's, an update
  leaves the context: the old forwarder is not told to stop.
\<close>

lemma updatePubsub_result:
  assumes "updatePubsub R p s w = (s', w', old)"
  shows "sb_ctx s' = sb_ctx s \<and> sub_isClosed s' = sub_isClosed s \<and> sb_channels s' = sb_channels s \<and>
    (if sub_isClosed s then s' = s \<and> old = None else sb_pubsub s' = p \<and> old = Some (sb_pubsub s) \<and> w' = w)"
  using assms by (auto simp: updatePubsub_def sub_isClosed_def split: if_splits prod.splits)

lemma unregister_registered: "unregisterSubscriber (length (rc_subs c)) (registerSubscriber s c) = c"
  by (simp add: unregisterSubscriber_def registerSubscriber_def)

end
