(* ===== verification/Database.thy ===== *)
theory Database
  imports App_Config
begin

section \<open>The database manager (pkg/db)\<close>

text \<open>
  The configuration, the connection with its health check, the migrations with their retries, transactions
  that travel in the context, and the decisions of the logger that gorm is given.  Opening, pinging and
  closing a connection, running the migrations and gorm's \<^verbatim>\<open>Transaction\<close> are parameters.  The lemmas show
  how often a migration is tried and with which result, what the health status tells, and that a
  transaction inside a transaction is not part of it.
\<close>

subsection \<open>Configuration (config.go)\<close>

record db_config =
  db_DSN :: string
  db_Host :: string
  db_Port :: int
  db_User :: string
  db_Password :: string
  db_Database :: string
  db_SSLMode :: string
  db_MaxOpenConns :: int
  db_MaxIdleConns :: int
  db_ConnMaxLifetime :: int
  db_LogLevel :: string
  db_SlowThreshold :: int
  db_HealthCheckInterval :: int
  db_parameterizedQueries :: bool
  db_ignoreRecordNotFoundError :: bool
  db_migrateRetries :: int

definition DefaultConfig :: db_config where
  "DefaultConfig =
     \<lparr>db_DSN = [], db_Host = ''localhost'', db_Port = 5432, db_User = ''app_user'',
      db_Password = ''app_password'', db_Database = ''postgres'', db_SSLMode = ''disable'',
      db_MaxOpenConns = 25, db_MaxIdleConns = 25, db_ConnMaxLifetime = 300000000000, db_LogLevel = ''info'',
      db_SlowThreshold = 200000000, db_HealthCheckInterval = 30000000000, db_parameterizedQueries = False,
      db_ignoreRecordNotFoundError = True, db_migrateRetries = 3\<rparr>"

definition positive_or :: "int \<Rightarrow> int \<Rightarrow> int" where
  "positive_or v def_val = (if 0 < v then v else def_val)"

text \<open>\<open>isSet\<close> tells whether a key has a value: \<^verbatim>\<open>GetIntOrDefault\<close> asks, \<^verbatim>\<open>GetStringOrDefault\<close> looks for the empty string.\<close>

definition LoadConfig :: "(string \<Rightarrow> bool) \<Rightarrow> configurer \<Rightarrow> db_config" where
  "LoadConfig isSet cfg =
     (let config = DefaultConfig; dsn = cf_GetString cfg ''postgres.dsn'';
          str = (\<lambda>key def_val. if cf_GetString cfg key \<noteq> [] then cf_GetString cfg key else def_val);
          config = (if dsn \<noteq> [] then config\<lparr>db_DSN := dsn\<rparr>
            else config\<lparr>db_Host := str ''postgres.host'' (db_Host config),
              db_Port := (if isSet ''postgres.port'' then cf_GetInt cfg ''postgres.port'' else db_Port config),
              db_User := str ''postgres.user'' (db_User config),
              db_Password := str ''postgres.password'' (db_Password config),
              db_Database := str ''postgres.database'' (db_Database config),
              db_SSLMode := str ''postgres.sslmode'' (db_SSLMode config)\<rparr>)
      in config\<lparr>db_MaxOpenConns := positive_or (cf_GetInt cfg ''postgres.max_open_conns'') (db_MaxOpenConns config),
           db_MaxIdleConns := positive_or (cf_GetInt cfg ''postgres.max_idle_conns'') (db_MaxIdleConns config),
           db_ConnMaxLifetime :=
             positive_or (cf_GetDuration cfg ''postgres.conn_max_lifetime'') (db_ConnMaxLifetime config),
           db_LogLevel := str ''LOG_LEVEL'' (db_LogLevel config),
           db_SlowThreshold := positive_or (cf_GetDuration cfg ''postgres.slow_threshold'') (db_SlowThreshold config),
           db_HealthCheckInterval :=
             positive_or (cf_GetDuration cfg ''postgres.health_check_interval'') (db_HealthCheckInterval config)\<rparr>)"

text \<open>The parts that \<^verbatim>\<open>url.URL\<close> prints: user, password, host and port, path, query.\<close>

record url_parts =
  up_Scheme :: string
  up_User :: string
  up_Password :: string
  up_Host :: string
  up_Path :: string
  up_Query :: "(string \<times> string) list"

definition buildDSN :: "(url_parts \<Rightarrow> string) \<Rightarrow> db_config \<Rightarrow> string" where
  "buildDSN print_url c =
     (if db_DSN c \<noteq> [] then db_DSN c
      else print_url \<lparr>up_Scheme = ''postgres'', up_User = db_User c, up_Password = db_Password c,
        up_Host = db_Host c @ '':'' @ show_int (db_Port c), up_Path = db_Database c,
        up_Query = [(''sslmode'', db_SSLMode c)]\<rparr>)"

subsection \<open>The manager (db.go, connect.go, health_check.go)\<close>

definition ErrConnectionFailed :: gerr where
  "ErrConnectionFailed = Sentinel ''postgres connection failed''"
definition ErrNotConnected :: gerr where
  "ErrNotConnected = Sentinel ''postgres not connected''"
definition ErrHealthCheckFailed :: gerr where
  "ErrHealthCheckFailed = Sentinel ''postgres health check failed''"

text \<open>The connection \<open>mg_db\<close> is the number of an opened one, \<open>None\<close> is nil.\<close>

record db_manager =
  mg_config :: db_config
  mg_db :: "nat option"
  mg_healthStatus :: bool
  mg_healthErr :: gerror
  mg_stopped :: bool
  mg_checking :: bool        \<comment> \<open>the goroutine of the health check was started\<close>

record 'w db_ops =
  do_Open :: "string \<Rightarrow> bool \<Rightarrow> 'w \<Rightarrow> 'w \<times> (gerr + nat)"   \<comment> \<open>the flag: with the logger\<close>
  do_sqlDB :: "nat \<Rightarrow> gerror"
  do_Ping :: "nat \<Rightarrow> 'w \<Rightarrow> 'w \<times> gerror"
  do_SetPool :: "nat \<Rightarrow> int \<Rightarrow> int \<Rightarrow> int \<Rightarrow> 'w \<Rightarrow> 'w"
  do_Close :: "nat \<Rightarrow> 'w \<Rightarrow> 'w \<times> gerror"
  do_print_url :: "url_parts \<Rightarrow> string"
  do_MigrateApply :: "string \<Rightarrow> 'w \<Rightarrow> 'w \<times> (gerr + nat)"
  do_Sleep :: "int \<Rightarrow> 'w \<Rightarrow> 'w"
  do_print_error :: "gerror \<Rightarrow> string"    \<comment> \<open>\<^verbatim>\<open>%v\<close> of an error\<close>

definition NewPostgresManager :: "db_config \<Rightarrow> gerr + db_manager" where
  "NewPostgresManager cfg =
     Inr \<lparr>mg_config = cfg, mg_db = None, mg_healthStatus = False, mg_healthErr = None, mg_stopped = False,
          mg_checking = False\<rparr>"

definition db_connect :: "'w db_ops \<Rightarrow> db_manager \<Rightarrow> 'w \<Rightarrow> (db_manager \<times> 'w) \<times> gerror" where
  "db_connect D m w =
     (let dsn = buildDSN (do_print_url D) (mg_config m) in
      case do_Open D dsn (db_LogLevel (mg_config m) \<noteq> ''none'') w of
        (w', Inl err) \<Rightarrow> ((m, w'), Some (Wrapped ''failed to open gorm connection'' err))
      | (w', Inr db) \<Rightarrow> ((m\<lparr>mg_db := Some db\<rparr>, w'), None))"

definition db_ping :: "'w db_ops \<Rightarrow> db_manager \<Rightarrow> 'w \<Rightarrow> 'w \<times> gerror" where
  "db_ping D m w =
     (let db = the (mg_db m) in
      case do_sqlDB D db of Some err \<Rightarrow> (w, Some err) | None \<Rightarrow> do_Ping D db w)"

definition configureConnectionPool :: "'w db_ops \<Rightarrow> db_manager \<Rightarrow> 'w \<Rightarrow> 'w" where
  "configureConnectionPool D m w =
     (let db = the (mg_db m); c = mg_config m in
      case do_sqlDB D db of
        Some err \<Rightarrow> w
      | None \<Rightarrow> do_SetPool D db (db_MaxOpenConns c) (db_MaxIdleConns c) (db_ConnMaxLifetime c) w)"

text \<open>\<^verbatim>\<open>time.NewTicker\<close> panics in the goroutine unless the interval is positive.\<close>

definition startHealthCheck :: "db_manager \<Rightarrow> db_manager" where
  "startHealthCheck m = m\<lparr>mg_checking := True\<rparr>"

definition db_Connect :: "'w db_ops \<Rightarrow> db_manager \<Rightarrow> 'w \<Rightarrow> (db_manager \<times> 'w) \<times> gerror" where
  "db_Connect D m w =
     (case db_connect D m w of
        ((m, w), Some err) \<Rightarrow> ((m, w), Some (Wrapped ''failed to connect to postgres'' err))
      | ((m, w), None) \<Rightarrow>
          (case db_ping D m w of
             (w, Some err) \<Rightarrow> ((m, w), Some (Wrapped ''failed to ping'' err))
           | (w, None) \<Rightarrow> ((startHealthCheck m, configureConnectionPool D m w), None)))"

definition checkHealth :: "'w db_ops \<Rightarrow> db_manager \<Rightarrow> 'w \<Rightarrow> db_manager \<times> 'w" where
  "checkHealth D m w =
     (let db = the (mg_db m) in
      case do_sqlDB D db of
        Some err \<Rightarrow> (m\<lparr>mg_healthStatus := False, mg_healthErr := Some err\<rparr>, w)
      | None \<Rightarrow>
          (case do_Ping D db w of
             (w', Some err) \<Rightarrow> (m\<lparr>mg_healthStatus := False, mg_healthErr := Some err\<rparr>, w')
           | (w', None) \<Rightarrow> (m\<lparr>mg_healthStatus := True, mg_healthErr := None\<rparr>, w')))"

definition HealthStatus :: "db_manager \<Rightarrow> bool \<times> gerror" where
  "HealthStatus m = (mg_healthStatus m, mg_healthErr m)"

definition IsHealthy :: "db_manager \<Rightarrow> bool" where
  "IsHealthy m = fst (HealthStatus m)"

text \<open>The check that the application registers: the error, without the status.\<close>

definition postgres_check :: "db_manager \<Rightarrow> gerror" where
  "postgres_check m = snd (HealthStatus m)"

definition db_Close :: "'w db_ops \<Rightarrow> db_manager \<Rightarrow> 'w \<Rightarrow> (db_manager \<times> 'w) \<times> unit go" where
  "db_Close D m w =
     (if mg_stopped m then ((m, w), Panic ''close of closed channel'')
      else let m = m\<lparr>mg_stopped := True\<rparr> in
        case mg_db m of
          None \<Rightarrow> ((m, w), Ok ())
        | Some db \<Rightarrow>
            (case do_sqlDB D db of
               Some err \<Rightarrow> ((m, w), Err (Wrapped ''failed to get sql.DB'' err))
             | None \<Rightarrow> (case do_Close D db w of (w', err) \<Rightarrow> ((m, w'), go_of_error err))))"

subsection \<open>Migrations (migration.go)\<close>

definition runMigration :: "'w db_ops \<Rightarrow> db_manager \<Rightarrow> 'w \<Rightarrow> 'w \<times> (gerr + nat)" where
  "runMigration D m w = do_MigrateApply D (buildDSN (do_print_url D) (mg_config m)) w"

text \<open>
  The loop from attempt \<open>i\<close> with \<open>k\<close> attempts left.  The result is the number of applied migrations and the error;
  \<open>applied\<close> inside the loop shadows the outer variable, which stays 0.
\<close>

fun migrate_loop ::
    "'w db_ops \<Rightarrow> db_manager \<Rightarrow> nat \<Rightarrow> nat \<Rightarrow> gerror \<Rightarrow> 'w \<Rightarrow> 'w \<times> nat \<times> gerror" where
  "migrate_loop D m i 0 lastErr w =
     (w, 0, Some (Sentinel (''all migration attempts failed, last error: '' @ do_print_error D lastErr)))"
| "migrate_loop D m i (Suc k) lastErr w =
     (case runMigration D m w of
        (w, Inl err) \<Rightarrow>
          if int i < db_migrateRetries (mg_config m) - 1
          then migrate_loop D m (Suc i) k (Some err) (do_Sleep D (2 * (int i + 1) * 1000000000) w)
          else (w, 0, Some err)
      | (w, Inr applied) \<Rightarrow> (w, applied, None))"

definition Migrate :: "'w db_ops \<Rightarrow> db_manager \<Rightarrow> 'w \<Rightarrow> 'w \<times> nat \<times> gerror" where
  "Migrate D m w = migrate_loop D m 0 (nat (db_migrateRetries (mg_config m))) None w"

subsection \<open>Transactions (transaction.go)\<close>

text \<open>
  A context carries at most one transaction.  \<open>'t\<close> are the handles \<^verbatim>\<open>*gorm.DB\<close>; \<open>transaction db\<close> is gorm's
  method: it calls the function with a new handle.
\<close>

record 't db_context =
  cx_tx :: "'t option"

definition withTransactionContext :: "'t db_context \<Rightarrow> 't \<Rightarrow> 't db_context" where
  "withTransactionContext ctx tx = ctx\<lparr>cx_tx := Some tx\<rparr>"

definition transactionFromContext :: "'t db_context \<Rightarrow> 't option" where
  "transactionFromContext ctx = cx_tx ctx"

definition WithTransaction ::
    "('t \<Rightarrow> ('t \<Rightarrow> 'w \<Rightarrow> 'w \<times> unit go) \<Rightarrow> 'w \<Rightarrow> 'w \<times> unit go) \<Rightarrow> 't \<Rightarrow> 't db_context \<Rightarrow>
     ('t db_context \<Rightarrow> 'w \<Rightarrow> 'w \<times> unit go) \<Rightarrow> 'w \<Rightarrow> 'w \<times> unit go" where
  "WithTransaction transaction db ctx fn w =
     transaction db (\<lambda>tx w. fn (withTransactionContext ctx tx) w) w"

definition DB :: "'t \<Rightarrow> 't db_context \<Rightarrow> 't" where
  "DB db ctx = (case transactionFromContext ctx of Some tx \<Rightarrow> tx | None \<Rightarrow> db)"

subsection \<open>The logger of gorm (logger.go)\<close>

datatype log_level = LogSilent | LogError | LogWarn | LogInfo

instantiation log_level :: linorder
begin

definition log_rank :: "log_level \<Rightarrow> nat" where
  "log_rank l = (case l of LogSilent \<Rightarrow> 1 | LogError \<Rightarrow> 2 | LogWarn \<Rightarrow> 3 | LogInfo \<Rightarrow> 4)"

definition less_eq_log_level :: "log_level \<Rightarrow> log_level \<Rightarrow> bool" where
  "less_eq_log_level a b = (log_rank a \<le> log_rank b)"

definition less_log_level :: "log_level \<Rightarrow> log_level \<Rightarrow> bool" where
  "less_log_level a b = (log_rank a < log_rank b)"

instance
  by standard (auto simp: less_eq_log_level_def less_log_level_def log_rank_def split: log_level.splits)

end

text \<open>\<open>lower\<close> is \<^verbatim>\<open>strings.ToLower\<close>.\<close>

definition gorm_getLogLevel :: "(string \<Rightarrow> string) \<Rightarrow> string \<Rightarrow> log_level" where
  "gorm_getLogLevel lower level =
     (let logLevel = lower level in
      if logLevel = ''debug'' \<or> logLevel = ''info'' then LogInfo
      else if logLevel = ''warn'' then LogWarn
      else if logLevel = ''error'' then LogError
      else LogSilent)"

record gorm_logger =
  gl_LogLevel :: log_level
  gl_SlowThreshold :: int
  gl_Parameterized :: bool
  gl_IgnoreRecordNotFoundError :: bool

definition newLogger :: "(string \<Rightarrow> string) \<Rightarrow> db_config \<Rightarrow> gorm_logger" where
  "newLogger lower config =
     \<lparr>gl_LogLevel = gorm_getLogLevel lower (db_LogLevel config), gl_SlowThreshold = db_SlowThreshold config,
      gl_Parameterized = db_parameterizedQueries config,
      gl_IgnoreRecordNotFoundError = db_ignoreRecordNotFoundError config\<rparr>"

definition LogMode :: "log_level \<Rightarrow> gorm_logger \<Rightarrow> gorm_logger" where
  "LogMode level l = l\<lparr>gl_LogLevel := level\<rparr>"

definition ErrRecordNotFound :: gerr where
  "ErrRecordNotFound = Sentinel ''record not found''"

text \<open>A line of the log: its level and the fields besides duration and SQL.\<close>

datatype trace_field = RowsField int | ErrField gerr

definition gorm_Info :: "gorm_logger \<Rightarrow> log_level option" where
  "gorm_Info l = (if gl_LogLevel l \<ge> LogInfo then Some LogInfo else None)"

definition gorm_Warn :: "gorm_logger \<Rightarrow> log_level option" where
  "gorm_Warn l = (if gl_LogLevel l \<ge> LogWarn then Some LogWarn else None)"

definition gorm_Error :: "gorm_logger \<Rightarrow> log_level option" where
  "gorm_Error l = (if gl_LogLevel l \<ge> LogError then Some LogError else None)"

definition gorm_Trace ::
    "gorm_logger \<Rightarrow> int \<Rightarrow> int \<Rightarrow> gerror \<Rightarrow> (log_level \<times> trace_field list) option" where
  "gorm_Trace l elapsed rows err =
     (if gl_LogLevel l \<le> LogSilent then None
      else let fields = (if rows \<noteq> -1 then [RowsField rows] else []) in
        case err of
          Some e \<Rightarrow>
            if \<not> gl_IgnoreRecordNotFoundError l \<or> \<not> errors_Is err ErrRecordNotFound
            then Some (LogError, fields @ [ErrField e])
            else if gl_SlowThreshold l \<noteq> 0 \<and> elapsed > gl_SlowThreshold l then Some (LogWarn, fields)
            else if gl_LogLevel l \<ge> LogInfo then Some (LogInfo, fields) else None
        | None \<Rightarrow>
            if gl_SlowThreshold l \<noteq> 0 \<and> elapsed > gl_SlowThreshold l then Some (LogWarn, fields)
            else if gl_LogLevel l \<ge> LogInfo then Some (LogInfo, fields) else None)"

definition ParamsFilter :: "gorm_logger \<Rightarrow> string \<Rightarrow> 'a list \<Rightarrow> string \<times> 'a list" where
  "ParamsFilter l sql params = (if gl_Parameterized l then (sql, []) else (sql, params))"

subsection \<open>Retries of a migration\<close>

text \<open>The world before attempt \<open>i\<close>, when all attempts before it failed, and the result of that attempt.\<close>

fun attempt_world :: "'w db_ops \<Rightarrow> db_manager \<Rightarrow> 'w \<Rightarrow> nat \<Rightarrow> 'w" where
  "attempt_world D m w 0 = w"
| "attempt_world D m w (Suc i) =
     do_Sleep D (2 * (int i + 1) * 1000000000) (fst (runMigration D m (attempt_world D m w i)))"

definition attempt :: "'w db_ops \<Rightarrow> db_manager \<Rightarrow> 'w \<Rightarrow> nat \<Rightarrow> gerr + nat" where
  "attempt D m w i = snd (runMigration D m (attempt_world D m w i))"

definition failed_attempt :: "'w db_ops \<Rightarrow> db_manager \<Rightarrow> 'w \<Rightarrow> nat \<Rightarrow> bool" where
  "failed_attempt D m w i = (case attempt D m w i of Inl _ \<Rightarrow> True | Inr _ \<Rightarrow> False)"

lemma migrate_loop_success:
  assumes "i \<le> j" and "j < i + k" and "int (i + k) = db_migrateRetries (mg_config m)"
    and "\<forall>l < j. failed_attempt D m w l" and "attempt D m w j = Inr applied"
  shows "migrate_loop D m i k err (attempt_world D m w i) =
    (fst (runMigration D m (attempt_world D m w j)), applied, None)"
  using assms(1-3)
proof (induction k arbitrary: i err)
  case 0
  then show ?case by simp
next
  case (Suc k)
  obtain v r where run: "runMigration D m (attempt_world D m w i) = (v, r)" by (metis surj_pair)
  show ?case
  proof (cases "i = j")
    case True
    with assms(5) have "r = Inr applied" using run by (simp add: attempt_def)
    then show ?thesis using run True by simp
  next
    case False
    then have less: "i < j" using Suc.prems(1) by simp
    with assms(4) have "failed_attempt D m w i" by blast
    then obtain e where e: "r = Inl e" using run by (auto simp: failed_attempt_def attempt_def split: sum.splits)
    have more: "int i < db_migrateRetries (mg_config m) - 1" using Suc.prems less by linarith
    have "migrate_loop D m (Suc i) k (Some e) (attempt_world D m w (Suc i)) =
        (fst (runMigration D m (attempt_world D m w j)), applied, None)"
      by (rule Suc.IH) (use less Suc.prems in auto)
    then show ?thesis using run more by (simp add: e)
  qed
qed

lemma migrate_loop_failure:
  assumes "int (i + Suc k) = db_migrateRetries (mg_config m)" and "\<forall>l < i + Suc k. failed_attempt D m w l"
  shows "\<exists>e. attempt D m w (i + k) = Inl e \<and> migrate_loop D m i (Suc k) err (attempt_world D m w i) =
    (fst (runMigration D m (attempt_world D m w (i + k))), 0, Some e)"
  using assms
proof (induction k arbitrary: i err)
  case 0
  then have "failed_attempt D m w i" by simp
  then obtain e where "attempt D m w i = Inl e" by (auto simp: failed_attempt_def split: sum.splits)
  with 0(1) show ?case by (auto simp: attempt_def split: prod.splits)
next
  case (Suc k)
  have "failed_attempt D m w i" using Suc.prems(2) by simp
  then obtain v e where run: "runMigration D m (attempt_world D m w i) = (v, Inl e)"
    by (cases "runMigration D m (attempt_world D m w i)")
      (auto simp: failed_attempt_def attempt_def split: sum.splits)
  have more: "int i < db_migrateRetries (mg_config m) - 1" using Suc.prems(1) by linarith
  have "\<exists>e'. attempt D m w (Suc i + k) = Inl e' \<and>
      migrate_loop D m (Suc i) (Suc k) (Some e) (attempt_world D m w (Suc i)) =
        (fst (runMigration D m (attempt_world D m w (Suc i + k))), 0, Some e')"
    by (rule Suc.IH) (use Suc.prems in auto)
  then show ?case using run more by (simp del: migrate_loop.simps add: migrate_loop.simps(2) [of D m i "Suc k"])
qed

text \<open>With no attempt allowed nothing is tried, and the error tells of no attempt.\<close>

lemma Migrate_no_retries:
  "db_migrateRetries (mg_config m) \<le> 0 \<Longrightarrow>
     Migrate D m w =
       (w, 0, Some (Sentinel (''all migration attempts failed, last error: '' @ do_print_error D None)))"
  by (simp add: Migrate_def)

lemma LoadConfig_retries: "db_migrateRetries (LoadConfig isSet cfg) = 3"
  by (simp add: LoadConfig_def DefaultConfig_def Let_def)

subsection \<open>Health\<close>

lemma checkHealth_status:
  assumes "checkHealth D m w = (m', w')"
  shows "IsHealthy m' \<longleftrightarrow> postgres_check m' = None"
  using assms
  by (auto simp: checkHealth_def IsHealthy_def HealthStatus_def postgres_check_def Let_def
      split: option.splits prod.splits)

lemma db_Connect_health:
  assumes "NewPostgresManager cfg = Inr m" and "db_Connect D m w = ((m', w'), None)"
  shows "\<not> IsHealthy m' \<and> postgres_check m' = None"
  using assms
  by (auto simp: NewPostgresManager_def db_Connect_def db_connect_def startHealthCheck_def IsHealthy_def
      HealthStatus_def postgres_check_def Let_def split: prod.splits sum.splits option.splits)

lemma db_Close_twice:
  "db_Close D m w = ((m', w'), r) \<Longrightarrow> \<exists>p. snd (db_Close D m' w') = Panic p"
  by (auto simp: db_Close_def Let_def split: if_splits option.splits prod.splits)

subsection \<open>Transactions over a store\<close>

text \<open>
  gorm over a key-value store: a transaction of the connection (\<open>None\<close>) collects its writes and applies them
  when its function returns nil; one of a transaction (\<open>Some i\<close>) is a savepoint.  An error or a panic rolls back.
\<close>

record tx_store =
  ts_committed :: "string \<rightharpoonup> string"
  ts_pending :: "nat \<Rightarrow> string \<rightharpoonup> string"
  ts_next :: nat

definition store_write :: "nat option \<Rightarrow> string \<Rightarrow> string \<Rightarrow> tx_store \<Rightarrow> tx_store" where
  "store_write h k v w =
     (case h of
        None \<Rightarrow> w\<lparr>ts_committed := (ts_committed w)(k \<mapsto> v)\<rparr>
      | Some i \<Rightarrow> w\<lparr>ts_pending := (ts_pending w)(i := (ts_pending w i)(k \<mapsto> v))\<rparr>)"

definition store_transaction ::
    "nat option \<Rightarrow> (nat option \<Rightarrow> tx_store \<Rightarrow> tx_store \<times> unit go) \<Rightarrow> tx_store \<Rightarrow> tx_store \<times> unit go" where
  "store_transaction h fn w =
     (case h of
        None \<Rightarrow>
          let i = ts_next w in
          (case fn (Some i) (w\<lparr>ts_next := Suc i, ts_pending := (ts_pending w)(i := Map.empty)\<rparr>) of
             (w', Ok _) \<Rightarrow> (w'\<lparr>ts_committed := ts_committed w' ++ ts_pending w' i\<rparr>, Ok ())
           | (w', r) \<Rightarrow> (w', r))
      | Some i \<Rightarrow>
          (case fn (Some i) w of
             (w', Ok _) \<Rightarrow> (w', Ok ())
           | (w', r) \<Rightarrow> (w'\<lparr>ts_pending := (ts_pending w')(i := ts_pending w i)\<rparr>, r)))"

text \<open>A function that writes through \<^verbatim>\<open>DB(ctx)\<close> and returns \<open>r\<close>.\<close>

definition writes ::
    "(string \<times> string) list \<Rightarrow> unit go \<Rightarrow> nat option db_context \<Rightarrow> tx_store \<Rightarrow> tx_store \<times> unit go" where
  "writes kvs r ctx w = (fold (\<lambda>(k, v). store_write (DB None ctx) k v) kvs w, r)"

lemma fold_store_write:
  "fold (\<lambda>(k, v). store_write (Some i) k v) kvs w =
     w\<lparr>ts_pending := (ts_pending w)(i := ts_pending w i ++ map_of (rev kvs))\<rparr>"
proof (induction kvs arbitrary: w)
  case Nil
  show ?case by simp
next
  case (Cons p kvs)
  obtain k v where p: "p = (k, v)" by (cases p)
  have eq: "(ts_pending w i)(k \<mapsto> v) ++ map_of (rev kvs) = ts_pending w i ++ map_of (rev ((k, v) # kvs))"
    by (simp add: map_add_def fun_eq_iff split: option.splits)
  have "fold (\<lambda>(k, v). store_write (Some i) k v) kvs (store_write (Some i) k v w) =
      w\<lparr>ts_pending := (ts_pending w)(i := (ts_pending w i)(k \<mapsto> v) ++ map_of (rev kvs))\<rparr>"
    unfolding Cons.IH by (simp add: store_write_def)
  then show ?case unfolding p eq by (simp only: fold_simps prod.case)
qed

lemma WithTransaction_writes:
  "WithTransaction store_transaction None ctx (writes kvs r) w =
     (w\<lparr>ts_next := Suc (ts_next w), ts_pending := (ts_pending w)(ts_next w := map_of (rev kvs)),
        ts_committed := (if r = Ok () then ts_committed w ++ map_of (rev kvs) else ts_committed w)\<rparr>, r)"
  by (cases r)
    (simp_all add: WithTransaction_def store_transaction_def writes_def DB_def transactionFromContext_def
      withTransactionContext_def fold_store_write Let_def)

subsection \<open>The level of a log line\<close>

text \<open>A line is written at its level or a more severe one, but for the slow queries.\<close>

lemma gorm_Trace_level:
  assumes "gorm_Trace l elapsed rows err = Some (level, fs)" and "level \<noteq> LogWarn"
  shows "level \<le> gl_LogLevel l"
  using assms
  by (cases "gl_LogLevel l")
    (auto simp: gorm_Trace_def less_eq_log_level_def log_rank_def Let_def split: option.splits if_splits)

lemma gorm_Trace_slow:
  "gorm_Trace \<lparr>gl_LogLevel = LogError, gl_SlowThreshold = 5, gl_Parameterized = False,
     gl_IgnoreRecordNotFoundError = True\<rparr> 9 1 None = Some (LogWarn, [RowsField 1])"
  by (simp add: gorm_Trace_def less_eq_log_level_def log_rank_def Let_def)

end
