(* ===== verification/S3.thy ===== *)
theory S3
  imports App_Config
begin

section \<open>The S3 client (pkg/s3client)\<close>

text \<open>
  The client's configuration, its construction and rebuild, and its operations.  The library \<^verbatim>\<open>minio-go\<close> is the
  record \<open>minio_ops\<close>; a library client is a number.  The bucket is read from the configuration watcher at every
  call, the library client is replaced by \<^verbatim>\<open>rebuildClient\<close>.  The lemmas show over an object store that
  a move never loses the object while failed calls change nothing, what it does to an object at the
  destination, and that a rebuild that fails leaves the client as it was.
\<close>

subsection \<open>Configuration (s3client_config.go)\<close>

record s3_config =
  s3_Endpoint :: string
  s3_AccessKeyID :: string
  s3_SecretAccessKey :: string
  s3_Bucket :: string
  s3_Region :: string
  s3_UseSSL :: bool
  s3_CreateBucket :: bool

definition s3_NewConfig :: "configurer \<Rightarrow> s3_config" where
  "s3_NewConfig cfg =
     (let str = (\<lambda>key def_val. if cf_GetString cfg key \<noteq> [] then cf_GetString cfg key else def_val) in
      \<lparr>s3_Endpoint = cf_GetString cfg ''s3.endpoint'', s3_AccessKeyID = cf_GetString cfg ''s3.access_key_id'',
       s3_SecretAccessKey = cf_GetString cfg ''s3.secret_access_key'',
       s3_Bucket = str ''s3.bucket'' (cf_GetString cfg ''app.name''), s3_Region = str ''s3.region'' ''us-east-1'',
       s3_UseSSL = cf_GetBool cfg ''s3.use_ssl'', s3_CreateBucket = cf_GetBool cfg ''s3.create_bucket''\<rparr>)"

text \<open>\<open>None\<close> is the nil configuration.\<close>

definition s3_Validate :: "s3_config option \<Rightarrow> gerror" where
  "s3_Validate c =
     (case c of
        None \<Rightarrow> Some (Sentinel ''config cannot be nil'')
      | Some c \<Rightarrow>
          if s3_Bucket c = [] then Some (Sentinel ''bucket name is required'')
          else if s3_AccessKeyID c = [] then Some (Sentinel ''access_key_id is required'')
          else if s3_SecretAccessKey c = [] then Some (Sentinel ''secret_access_key is required'')
          else if s3_Endpoint c = [] then Some (Sentinel ''endpoint is required'')
          else None)"

subsection \<open>The library and the client (s3client.go)\<close>

definition ErrSameKey :: gerr where
  "ErrSameKey = Sentinel ''source and destination keys cannot be the same''"
definition ErrKeyRequired :: gerr where
  "ErrKeyRequired = Sentinel ''object key is required''"
definition ErrClientIsOffline :: gerr where
  "ErrClientIsOffline = Sentinel ''client is offline''"

record object_info =
  oi_Body :: string
  oi_ContentType :: string
  oi_Metadata :: "(string \<times> string) list"

text \<open>Errors of a missing object carry the code \<^verbatim>\<open>NoSuchKey\<close>, here a field of the operations.\<close>

record 'w minio_ops =
  mo_New :: "s3_config \<Rightarrow> 'w \<Rightarrow> 'w \<times> (gerr + nat)"
  mo_HealthCheck :: "nat \<Rightarrow> 'w \<Rightarrow> 'w \<times> gerror"
  mo_CancelHealthCheck :: "nat \<Rightarrow> 'w \<Rightarrow> 'w"
  mo_BucketExists :: "nat \<Rightarrow> string \<Rightarrow> 'w \<Rightarrow> 'w \<times> (gerr + bool)"
  mo_MakeBucket :: "nat \<Rightarrow> string \<Rightarrow> string \<Rightarrow> 'w \<Rightarrow> 'w \<times> gerror"
  mo_IsOnline :: "nat \<Rightarrow> 'w \<Rightarrow> bool"
  mo_PutObject :: "nat \<Rightarrow> string \<Rightarrow> string \<Rightarrow> object_info \<Rightarrow> 'w \<Rightarrow> 'w \<times> gerror"
  mo_GetObject :: "nat \<Rightarrow> string \<Rightarrow> string \<Rightarrow> 'w \<Rightarrow> 'w \<times> gerror"
  mo_StatObject :: "nat \<Rightarrow> string \<Rightarrow> string \<Rightarrow> 'w \<Rightarrow> 'w \<times> (gerr + object_info)"
  mo_CopyObject :: "nat \<Rightarrow> string \<Rightarrow> string \<Rightarrow> string \<Rightarrow> 'w \<Rightarrow> 'w \<times> gerror"
  mo_RemoveObject :: "nat \<Rightarrow> string \<Rightarrow> string \<Rightarrow> 'w \<Rightarrow> 'w \<times> gerror"
  mo_Presign :: "nat \<Rightarrow> string \<Rightarrow> string \<Rightarrow> int \<Rightarrow> 'w \<Rightarrow> 'w \<times> (gerr + string)"
  mo_NoSuchKey :: "gerr \<Rightarrow> bool"
  mo_OnRefresh :: "'w \<Rightarrow> 'w"               \<comment> \<open>gives \<open>rebuildClient\<close> to the configuration watcher\<close>

record s3_client =
  sc_client :: nat
  sc_config :: s3_config                 \<comment> \<open>what the watcher's \<^verbatim>\<open>Get\<close> returns\<close>
  sc_cancelHealthCheck :: "nat option"   \<comment> \<open>the client whose health check it cancels\<close>

definition checkBucket :: "'w minio_ops \<Rightarrow> nat \<Rightarrow> s3_config \<Rightarrow> 'w \<Rightarrow> 'w \<times> gerror" where
  "checkBucket O3 mClient config w =
     (case mo_BucketExists O3 mClient (s3_Bucket config) w of
        (w, Inl err) \<Rightarrow> (w, Some (Wrapped ''failed to check bucket existence'' err))
      | (w, Inr True) \<Rightarrow> (w, None)
      | (w, Inr False) \<Rightarrow>
          if \<not> s3_CreateBucket config then (w, Some (Sentinel (''bucket '' @ s3_Bucket config @ '' does not exist'')))
          else case mo_MakeBucket O3 mClient (s3_Bucket config) (s3_Region config) w of
            (w, Some err) \<Rightarrow> (w, Some (Wrapped ''failed to create bucket'' err))
          | (w, None) \<Rightarrow> (w, None))"

definition s3_NewClient :: "'w minio_ops \<Rightarrow> s3_config \<Rightarrow> 'w \<Rightarrow> 'w \<times> (gerr + s3_client)" where
  "s3_NewClient O3 config w =
     (case s3_Validate (Some config) of
        Some err \<Rightarrow> (w, Inl err)
      | None \<Rightarrow>
          (case mo_New O3 config w of
             (w, Inl err) \<Rightarrow> (w, Inl (Wrapped ''failed to create minio client'' err))
           | (w, Inr mClient) \<Rightarrow>
               (case checkBucket O3 mClient config w of
                  (w, Some err) \<Rightarrow> (w, Inl err)
                | (w, None) \<Rightarrow>
                    (case mo_HealthCheck O3 mClient w of
                       (w, Some err) \<Rightarrow> (w, Inl (Wrapped ''failed to start health check'' err))
                     | (w, None) \<Rightarrow>
                         (mo_OnRefresh O3 w,
                          Inr \<lparr>sc_client = mClient, sc_config = config, sc_cancelHealthCheck = Some mClient\<rparr>)))))"

definition s3_Close :: "'w minio_ops \<Rightarrow> s3_client \<Rightarrow> 'w \<Rightarrow> 'w \<times> gerror" where
  "s3_Close O3 m w =
     (case sc_cancelHealthCheck m of None \<Rightarrow> (w, None) | Some c \<Rightarrow> (mo_CancelHealthCheck O3 c w, None))"

text \<open>
  \<^verbatim>\<open>Ping\<close> asks at once and then after every tick, \<open>i\<close> times at most.  The world moves on with each tick
  (\<open>tick\<close>); \<open>over\<close> is the error of the context when it ends before the tick.
\<close>

fun ping_loop ::
    "'w minio_ops \<Rightarrow> ('w \<Rightarrow> 'w) \<Rightarrow> ('w \<Rightarrow> gerror) \<Rightarrow> s3_client \<Rightarrow> nat \<Rightarrow> 'w \<Rightarrow> 'w \<times> gerror" where
  "ping_loop O3 tick over m 0 w = (w, Some ErrClientIsOffline)"
| "ping_loop O3 tick over m (Suc i) w =
     (case over w of
        Some err \<Rightarrow> (w, Some err)
      | None \<Rightarrow>
          let w = tick w in
          if mo_IsOnline O3 (sc_client m) w then (w, None) else ping_loop O3 tick over m i w)"

definition Ping :: "'w minio_ops \<Rightarrow> ('w \<Rightarrow> 'w) \<Rightarrow> ('w \<Rightarrow> gerror) \<Rightarrow> s3_client \<Rightarrow> 'w \<Rightarrow> 'w \<times> gerror" where
  "Ping O3 tick over m w =
     (if mo_IsOnline O3 (sc_client m) w then (w, None) else ping_loop O3 tick over m 8 w)"

text \<open>The callback of the configuration watcher (s3client_rebuild_client.go).\<close>

definition rebuildClient :: "'w minio_ops \<Rightarrow> s3_config \<Rightarrow> s3_client \<Rightarrow> 'w \<Rightarrow> (s3_client \<times> 'w) \<times> gerror" where
  "rebuildClient O3 config m w =
     (case mo_New O3 config w of
        (w, Inl err) \<Rightarrow> ((m, w), Some (Wrapped ''failed to create minio client'' err))
      | (w, Inr mClient) \<Rightarrow>
          (case checkBucket O3 mClient config w of
             (w, Some err) \<Rightarrow> ((m, w), Some err)
           | (w, None) \<Rightarrow>
               (case mo_HealthCheck O3 mClient w of
                  (w, Some err) \<Rightarrow> ((m, w), Some (Wrapped ''failed to start health check'' err))
                | (w, None) \<Rightarrow>
                    let w = (case sc_cancelHealthCheck m of None \<Rightarrow> w | Some c \<Rightarrow> mo_CancelHealthCheck O3 c w)
                    in ((m\<lparr>sc_cancelHealthCheck := Some mClient, sc_client := mClient\<rparr>, w), None))))"

subsection \<open>Operations (s3client_*.go)\<close>

record upload_input =
  ui_Key :: string
  ui_Body :: "string option"
  ui_ContentType :: string
  ui_Metadata :: "(string \<times> string) list"

definition Upload :: "'w minio_ops \<Rightarrow> upload_input option \<Rightarrow> s3_client \<Rightarrow> 'w \<Rightarrow> 'w \<times> gerror" where
  "Upload O3 input m w =
     (case input of
        None \<Rightarrow> (w, Some (Sentinel ''upload input cannot be nil''))
      | Some inp \<Rightarrow>
          if ui_Key inp = [] then (w, Some ErrKeyRequired)
          else case ui_Body inp of
            None \<Rightarrow> (w, Some (Sentinel ''object body is required''))
          | Some body \<Rightarrow>
              (case mo_PutObject O3 (sc_client m) (s3_Bucket (sc_config m)) (ui_Key inp)
                  \<lparr>oi_Body = body, oi_ContentType = ui_ContentType inp, oi_Metadata = ui_Metadata inp\<rparr> w of
                 (w, err) \<Rightarrow> (w, map_option (Wrapped ''failed to upload object'') err)))"

definition Download :: "'w minio_ops \<Rightarrow> string \<Rightarrow> s3_client \<Rightarrow> 'w \<Rightarrow> 'w \<times> (gerr + object_info)" where
  "Download O3 key m w =
     (if key = [] then (w, Inl ErrKeyRequired)
      else case mo_GetObject O3 (sc_client m) (s3_Bucket (sc_config m)) key w of
        (w, Some err) \<Rightarrow> (w, Inl (Wrapped ''failed to get object'' err))
      | (w, None) \<Rightarrow>
          (case mo_StatObject O3 (sc_client m) (s3_Bucket (sc_config m)) key w of
             (w, Inl err) \<Rightarrow> (w, Inl (Wrapped ''failed to get object info'' err))
           | (w, Inr info) \<Rightarrow> (w, Inr info)))"

definition Exist :: "'w minio_ops \<Rightarrow> string \<Rightarrow> s3_client \<Rightarrow> 'w \<Rightarrow> 'w \<times> (gerr + bool)" where
  "Exist O3 key m w =
     (if key = [] then (w, Inl ErrKeyRequired)
      else case mo_StatObject O3 (sc_client m) (s3_Bucket (sc_config m)) key w of
        (w, Inl err) \<Rightarrow>
          if mo_NoSuchKey O3 err then (w, Inr False)
          else (w, Inl (Wrapped ''failed to check object existence'' err))
      | (w, Inr _) \<Rightarrow> (w, Inr True))"

definition Delete :: "'w minio_ops \<Rightarrow> string \<Rightarrow> s3_client \<Rightarrow> 'w \<Rightarrow> 'w \<times> gerror" where
  "Delete O3 key m w =
     (if key = [] then (w, Some ErrKeyRequired)
      else case mo_RemoveObject O3 (sc_client m) (s3_Bucket (sc_config m)) key w of
        (w, err) \<Rightarrow> (w, map_option (Wrapped ''failed to delete object'') err))"

text \<open>The error of the second \<^verbatim>\<open>Delete\<close> is dropped.\<close>

definition Move :: "'w minio_ops \<Rightarrow> string \<Rightarrow> string \<Rightarrow> s3_client \<Rightarrow> 'w \<Rightarrow> 'w \<times> gerror" where
  "Move O3 sourceKey destinationKey m w =
     (if sourceKey = [] \<or> destinationKey = [] then (w, Some ErrKeyRequired)
      else if sourceKey = destinationKey then (w, Some ErrSameKey)
      else case mo_CopyObject O3 (sc_client m) (s3_Bucket (sc_config m)) destinationKey sourceKey w of
        (w, Some err) \<Rightarrow> (w, Some (Wrapped ''failed to copy object'' err))
      | (w, None) \<Rightarrow>
          (case Delete O3 sourceKey m w of
             (w, Some err) \<Rightarrow>
               (case Delete O3 destinationKey m w of
                  (w, _) \<Rightarrow> (w, Some (Wrapped ''failed to delete source object after copy'' err)))
           | (w, None) \<Rightarrow> (w, None)))"

definition PresignedGetObject :: "'w minio_ops \<Rightarrow> string \<Rightarrow> int \<Rightarrow> s3_client \<Rightarrow> 'w \<Rightarrow> 'w \<times> (gerr + string)" where
  "PresignedGetObject O3 key ttl m w =
     (if key = [] then (w, Inl ErrKeyRequired)
      else if ttl \<le> 0 then (w, Inl (Sentinel ''ttl must be positive''))
      else case mo_Presign O3 (sc_client m) (s3_Bucket (sc_config m)) key ttl w of
        (w, Inl err) \<Rightarrow> (w, Inl (Wrapped ''failed to generate presigned URL'' err))
      | (w, Inr url) \<Rightarrow> (w, Inr url))"

subsection \<open>Moves over an object store\<close>

text \<open>
  What the client relies on: \<open>objects w key\<close> is the object of the client's bucket under a key, a copy and a
  removal that succeed do that and nothing else, and every call is atomic.  A call that fails may have been
  carried out all the same: a timeout or a lost reply does not tell.
\<close>

definition atomic_calls :: "'w minio_ops \<Rightarrow> s3_client \<Rightarrow> ('w \<Rightarrow> string \<rightharpoonup> object_info) \<Rightarrow> bool" where
  "atomic_calls O3 m objects \<longleftrightarrow>
     (\<forall>src dst w w' e. mo_CopyObject O3 (sc_client m) (s3_Bucket (sc_config m)) dst src w = (w', e) \<longrightarrow>
        objects w src \<noteq> None \<and> objects w' = (objects w)(dst := objects w src) \<or>
        e \<noteq> None \<and> objects w' = objects w) \<and>
     (\<forall>key w w' e. mo_RemoveObject O3 (sc_client m) (s3_Bucket (sc_config m)) key w = (w', e) \<longrightarrow>
        objects w' = (objects w)(key := None) \<or> e \<noteq> None \<and> objects w' = objects w)"

lemma atomic_copy:
  assumes "atomic_calls O3 m objects"
    and "mo_CopyObject O3 (sc_client m) (s3_Bucket (sc_config m)) dst src w = (w', e)"
  shows "objects w src \<noteq> None \<and> objects w' = (objects w)(dst := objects w src) \<or>
    e \<noteq> None \<and> objects w' = objects w"
  using assms unfolding atomic_calls_def by blast

lemma atomic_remove:
  assumes "atomic_calls O3 m objects"
    and "mo_RemoveObject O3 (sc_client m) (s3_Bucket (sc_config m)) key w = (w', e)"
  shows "objects w' = (objects w)(key := None) \<or> e \<noteq> None \<and> objects w' = objects w"
  using assms unfolding atomic_calls_def by blast

lemma Delete_outcome:
  assumes "atomic_calls O3 m objects" and "Delete O3 key m w = (w', err)"
  shows "objects w' = (objects w)(key := None) \<or> err \<noteq> None \<and> objects w' = objects w"
proof -
  obtain v e where r: "mo_RemoveObject O3 (sc_client m) (s3_Bucket (sc_config m)) key w = (v, e)" by (metis surj_pair)
  show ?thesis
  proof (cases "key = []")
    case True
    with assms(2) show ?thesis by (auto simp: Delete_def)
  next
    case False
    with assms(2) r have "w' = v" "err = map_option (Wrapped ''failed to delete object'') e" by (auto simp: Delete_def)
    with atomic_remove [OF assms(1) r] show ?thesis by auto
  qed
qed

text \<open>The copy succeeded, and then the source was removed by a call that reported a failure.\<close>

definition removed_unnoticed ::
    "'w minio_ops \<Rightarrow> s3_client \<Rightarrow> ('w \<Rightarrow> string \<rightharpoonup> object_info) \<Rightarrow> string \<Rightarrow> string \<Rightarrow> 'w \<Rightarrow> 'w \<Rightarrow> bool" where
  "removed_unnoticed O3 m objects src dst w w2 \<longleftrightarrow> src \<noteq> [] \<and> dst \<noteq> [] \<and> src \<noteq> dst \<and>
     (\<exists>w1 e. mo_CopyObject O3 (sc_client m) (s3_Bucket (sc_config m)) dst src w = (w1, None) \<and>
        mo_RemoveObject O3 (sc_client m) (s3_Bucket (sc_config m)) src w1 = (w2, Some e) \<and> objects w2 src = None)"

lemma Move_lost:
  assumes "removed_unnoticed O3 m objects src dst w w2"
  shows "\<exists>err. Move O3 src dst m w = (fst (Delete O3 dst m w2), Some err)"
  using assms by (auto simp: removed_unnoticed_def Move_def Delete_def split: prod.splits)

lemma Move_Ok:
  assumes ok: "atomic_calls O3 m objects" and "Move O3 src dst m w = (w', None)"
  shows "src \<noteq> dst \<and> objects w src \<noteq> None \<and> objects w' = (objects w)(dst := objects w src, src := None)"
proof -
  have valid: "src \<noteq> [] \<and> dst \<noteq> [] \<and> src \<noteq> dst" using assms(2) by (auto simp: Move_def split: if_splits)
  obtain w1 e1 where copy: "mo_CopyObject O3 (sc_client m) (s3_Bucket (sc_config m)) dst src w = (w1, e1)"
    by (metis surj_pair)
  obtain w2 e2 where del: "Delete O3 src m w1 = (w2, e2)" by (metis surj_pair)
  have "e1 = None" "e2 = None" "w' = w2"
    using assms(2) valid copy del by (auto simp: Move_def split: option.splits prod.splits)
  with atomic_copy [OF ok copy] Delete_outcome [OF ok del] valid show ?thesis by simp
qed

lemma Move_Err:
  assumes ok: "atomic_calls O3 m objects" and run: "Move O3 src dst m w = (w', Some err)"
  shows "(\<forall>key. key \<noteq> src \<and> key \<noteq> dst \<longrightarrow> objects w' key = objects w key) \<and>
    (objects w' src = objects w src \<or> (\<exists>w2. removed_unnoticed O3 m objects src dst w w2))"
proof (cases "src \<noteq> [] \<and> dst \<noteq> [] \<and> src \<noteq> dst")
  case False
  with run show ?thesis by (auto simp: Move_def split: if_splits)
next
  case valid: True
  obtain w1 e1 where copy: "mo_CopyObject O3 (sc_client m) (s3_Bucket (sc_config m)) dst src w = (w1, e1)"
    by (metis surj_pair)
  obtain w2 e2 where del: "mo_RemoveObject O3 (sc_client m) (s3_Bucket (sc_config m)) src w1 = (w2, e2)"
    by (metis surj_pair)
  obtain w3 e3 where undo: "Delete O3 dst m w2 = (w3, e3)" by (metis surj_pair)
  show ?thesis
  proof (cases e1)
    case (Some e)
    with run valid copy have "w' = w1" by (auto simp: Move_def)
    with atomic_copy [OF ok copy] valid show ?thesis by auto
  next
    case None
    then have C: "objects w1 = (objects w)(dst := objects w src)" using atomic_copy [OF ok copy] by simp
    obtain e where e2: "e2 = Some e" and "w' = w3"
      using run valid copy None del undo by (cases e2) (auto simp: Move_def Delete_def)
    then have U: "\<forall>key. key \<noteq> dst \<longrightarrow> objects w' key = objects w2 key" using Delete_outcome [OF ok undo] by auto
    consider "objects w2 = (objects w1)(src := None)" | "objects w2 = objects w1"
      using atomic_remove [OF ok del] by blast
    then show ?thesis
    proof cases
      case 1
      then have "removed_unnoticed O3 m objects src dst w w2"
        using valid copy None del e2 by (auto simp: removed_unnoticed_def)
      then show ?thesis using U C 1 by auto
    next
      case 2
      then show ?thesis using U C valid by simp
    qed
  qed
qed

lemma rebuildClient_outcome:
  assumes "rebuildClient O3 config m w = ((m', w'), err)"
  shows "(err \<noteq> None \<and> m' = m) \<or>
    (err = None \<and> (\<exists>c v v2 v3. mo_New O3 config v = (v2, Inr c) \<and> checkBucket O3 c config v2 = (v3, None) \<and>
       m' = m\<lparr>sc_cancelHealthCheck := Some c, sc_client := c\<rparr>))"
  using assms
  by (auto simp: rebuildClient_def Let_def split: prod.splits sum.splits option.splits)

lemma ping_loop_looks:
  assumes never: "\<And>w. over w = None"
  shows "ping_loop O3 tick over m n w = (w', err) \<Longrightarrow>
    (err = None \<and> (\<exists>k < n. w' = (tick ^^ Suc k) w \<and> mo_IsOnline O3 (sc_client m) w' \<and>
       (\<forall>j < k. \<not> mo_IsOnline O3 (sc_client m) ((tick ^^ Suc j) w)))) \<or>
    (err = Some ErrClientIsOffline \<and> (\<forall>j < n. \<not> mo_IsOnline O3 (sc_client m) ((tick ^^ Suc j) w)))"
proof (induction n arbitrary: w)
  case 0
  then show ?case by simp
next
  case (Suc n)
  show ?case
  proof (cases "mo_IsOnline O3 (sc_client m) (tick w)")
    case True
    with Suc.prems show ?thesis by (intro disjI1 conjI exI [of _ 0]) (simp_all add: never)
  next
    case False
    with Suc.prems never [of w] have "ping_loop O3 tick over m n (tick w) = (w', err)" by simp
    from Suc.IH [OF this] show ?thesis
    proof (elim disjE conjE exE)
      fix k
      assume "err = None" "k < n" "w' = (tick ^^ Suc k) (tick w)" "mo_IsOnline O3 (sc_client m) w'"
        "\<forall>j < k. \<not> mo_IsOnline O3 (sc_client m) ((tick ^^ Suc j) (tick w))"
      with False show ?thesis
        by (intro disjI1 conjI exI [of _ "Suc k"]) (auto simp: All_less_Suc2 funpow_swap1)
    next
      assume "err = Some ErrClientIsOffline" "\<forall>j < n. \<not> mo_IsOnline O3 (sc_client m) ((tick ^^ Suc j) (tick w))"
      with False show ?thesis by (auto simp: All_less_Suc2 funpow_swap1)
    qed
  qed
qed

end
