(* ===== verification/Observability.thy ===== *)
theory Observability
  imports App_Config
begin

section \<open>Logging, tracing and the metrics of gorm\<close>

text \<open>
  The logger of the platform (logger/logger.go, field.go) with the values it takes from the context, the
  adapter that gives it to gRPC (pkg/grpc/logger.go), the configuration and the start of tracing
  (pkg/trace) and the metrics plugin for gorm (internal/pkg/gorm_metrics).  What is outside is a
  parameter: \<open>core\<close> counts and writes the lines of zap, the exporters and gorm's handles are functions.  The lemmas
  say what a line holds, that \<^verbatim>\<open>Level\<close> does not return, and that the callbacks of the plugin count nothing
  while gorm's \<^verbatim>\<open>Set\<close> leaves the handle it is called on alone.
\<close>

subsection \<open>Levels and fields\<close>

datatype zap_level = DebugLevel | InfoLevel | WarnLevel | ErrorLevel | FatalLevel

instantiation zap_level :: linorder
begin

definition zap_rank :: "zap_level \<Rightarrow> nat" where
  "zap_rank l = (case l of DebugLevel \<Rightarrow> 0 | InfoLevel \<Rightarrow> 1 | WarnLevel \<Rightarrow> 2 | ErrorLevel \<Rightarrow> 3 | FatalLevel \<Rightarrow> 6)"

definition less_eq_zap_level :: "zap_level \<Rightarrow> zap_level \<Rightarrow> bool" where
  "less_eq_zap_level a b = (zap_rank a \<le> zap_rank b)"

definition less_zap_level :: "zap_level \<Rightarrow> zap_level \<Rightarrow> bool" where
  "less_zap_level a b = (zap_rank a < zap_rank b)"

instance
  by standard (auto simp: less_eq_zap_level_def less_zap_level_def zap_rank_def split: zap_level.splits)

end

text \<open>
  A field of zap as its encoder sees it: integers of every width become 64-bit ones, a float is its bit pattern, a time
  or a duration its nanoseconds.  \<open>NilValue\<close> is the field of a nil pointer, \<open>SkipValue\<close> that of a nil error, which is
  left out.
\<close>

datatype log_value =
    StringValue string | IntValue int | BoolValue bool | ErrorValue gerr | AnyValue nat
  | BinaryValue string | ByteStringValue string | Float64Value "64 word" | Float32Value "32 word"
  | TimeValue int | DurationValue int | NilValue | SkipValue

type_synonym log_field = "string \<times> log_value"

definition field_String :: "string \<Rightarrow> string \<Rightarrow> log_field" where
  "field_String key val = (key, StringValue val)"

definition field_Int :: "string \<Rightarrow> int \<Rightarrow> log_field" where
  "field_Int key val = (key, IntValue val)"

definition field_Bool :: "string \<Rightarrow> bool \<Rightarrow> log_field" where
  "field_Bool key val = (key, BoolValue val)"

definition field_Err :: "gerror \<Rightarrow> log_field" where
  "field_Err err = (case err of None \<Rightarrow> ([], SkipValue) | Some e \<Rightarrow> (''error'', ErrorValue e))"

text \<open>\<open>auto\<close> is the choice of zap by the dynamic type of the value.\<close>

definition field_Any :: "('a \<Rightarrow> log_value) \<Rightarrow> string \<Rightarrow> 'a \<Rightarrow> log_field" where
  "field_Any auto key val = (key, auto val)"

definition field_Binary :: "string \<Rightarrow> string \<Rightarrow> log_field" where
  "field_Binary key val = (key, BinaryValue val)"

definition field_ByteString :: "string \<Rightarrow> string \<Rightarrow> log_field" where
  "field_ByteString key val = (key, ByteStringValue val)"

definition field_Float64 :: "string \<Rightarrow> 64 word \<Rightarrow> log_field" where
  "field_Float64 key val = (key, Float64Value val)"

definition field_Float32 :: "string \<Rightarrow> 32 word \<Rightarrow> log_field" where
  "field_Float32 key val = (key, Float32Value val)"

definition field_signed :: "string \<Rightarrow> 'a::len word \<Rightarrow> log_field" where
  "field_signed key val = (key, IntValue (sint val))"

definition field_unsigned :: "string \<Rightarrow> 'a::len word \<Rightarrow> log_field" where
  "field_unsigned key val = (key, IntValue (uint val))"

definition field_Int64 :: "string \<Rightarrow> 64 word \<Rightarrow> log_field" where "field_Int64 = field_signed"
definition field_Int32 :: "string \<Rightarrow> 32 word \<Rightarrow> log_field" where "field_Int32 = field_signed"
definition field_Int16 :: "string \<Rightarrow> 16 word \<Rightarrow> log_field" where "field_Int16 = field_signed"
definition field_Int8 :: "string \<Rightarrow> 8 word \<Rightarrow> log_field" where "field_Int8 = field_signed"
definition field_Uint :: "string \<Rightarrow> 64 word \<Rightarrow> log_field" where "field_Uint = field_unsigned"
definition field_Uint64 :: "string \<Rightarrow> 64 word \<Rightarrow> log_field" where "field_Uint64 = field_unsigned"
definition field_Uint32 :: "string \<Rightarrow> 32 word \<Rightarrow> log_field" where "field_Uint32 = field_unsigned"
definition field_Uint16 :: "string \<Rightarrow> 16 word \<Rightarrow> log_field" where "field_Uint16 = field_unsigned"
definition field_Uint8 :: "string \<Rightarrow> 8 word \<Rightarrow> log_field" where "field_Uint8 = field_unsigned"

definition field_Time :: "string \<Rightarrow> int \<Rightarrow> log_field" where
  "field_Time key val = (key, TimeValue val)"

definition field_Duration :: "string \<Rightarrow> int \<Rightarrow> log_field" where
  "field_Duration key val = (key, DurationValue val)"

text \<open>The constructors of a pointer: nil is not dereferenced.\<close>

definition field_pointer :: "(string \<Rightarrow> 'a \<Rightarrow> log_field) \<Rightarrow> string \<Rightarrow> 'a option \<Rightarrow> log_field" where
  "field_pointer field key val = (case val of None \<Rightarrow> (key, NilValue) | Some v \<Rightarrow> field key v)"

definition field_Boolp where "field_Boolp = field_pointer field_Bool"
definition field_Stringp where "field_Stringp = field_pointer field_String"
definition field_Float64p where "field_Float64p = field_pointer field_Float64"
definition field_Float32p where "field_Float32p = field_pointer field_Float32"
definition field_Intp where "field_Intp = field_pointer field_Int"
definition field_Int64p where "field_Int64p = field_pointer field_Int64"
definition field_Int32p where "field_Int32p = field_pointer field_Int32"
definition field_Int16p where "field_Int16p = field_pointer field_Int16"
definition field_Int8p where "field_Int8p = field_pointer field_Int8"
definition field_Uintp where "field_Uintp = field_pointer field_Uint"
definition field_Uint64p where "field_Uint64p = field_pointer field_Uint64"
definition field_Uint32p where "field_Uint32p = field_pointer field_Uint32"
definition field_Uint16p where "field_Uint16p = field_pointer field_Uint16"
definition field_Uint8p where "field_Uint8p = field_pointer field_Uint8"
definition field_Timep where "field_Timep = field_pointer field_Time"
definition field_Durationp where "field_Durationp = field_pointer field_Duration"

text \<open>No width loses a value: the constructors are injective, and the number written is the one of the Go value.\<close>

lemma field_signed_inj: "field_signed key v = field_signed key' v' \<longleftrightarrow> key = key' \<and> v = v'"
  by (auto simp: field_signed_def word_eq_iff_signed [where ?'a = int])

lemma field_unsigned_inj: "field_unsigned key v = field_unsigned key' v' \<longleftrightarrow> key = key' \<and> v = v'"
  by (auto simp: field_unsigned_def word_eq_iff_unsigned [where ?'a = int])

lemma field_pointer_inj:
  assumes "\<And>key key' v v'. field key v = field key' v' \<longleftrightarrow> key = key' \<and> v = v'" and "\<And>key v. snd (field key v) \<noteq> NilValue"
  shows "field_pointer field key p = field_pointer field key' p' \<longleftrightarrow> key = key' \<and> p = p'"
  using assms by (cases p; cases p') (auto simp: field_pointer_def, metis snd_conv, metis snd_conv)

text \<open>\<open>lower\<close> is \<^verbatim>\<open>strings.ToLower\<close>.\<close>

definition zap_getLogLevel :: "(string \<Rightarrow> string) \<Rightarrow> string \<Rightarrow> zap_level" where
  "zap_getLogLevel lower level =
     (let logLevel = lower level in
      if logLevel = ''debug'' then DebugLevel
      else if logLevel = ''info'' then InfoLevel
      else if logLevel = ''warn'' then WarnLevel
      else if logLevel = ''error'' then ErrorLevel
      else InfoLevel)"

subsection \<open>The logger\<close>

text \<open>
  A zap logger has its level, its sampling and the fields of its \<^verbatim>\<open>With\<close> calls.  A context carries the nested logger, the
  correlation id (any value: the code asserts that it is a string), and the trace id of its span.
\<close>

record sampling =
  sp_Initial :: nat
  sp_Thereafter :: nat

record zap_logger =
  zl_level :: zap_level
  zl_sampling :: sampling
  zl_fields :: "log_field list"

datatype ctx_value = CtxString string | CtxOther nat

record log_ctx =
  lx_nested :: "zap_logger option"
  lx_correlation :: "ctx_value option"
  lx_trace :: "string option"

text \<open>
  \<^verbatim>\<open>init\<close> starts from \<^verbatim>\<open>zap.NewProductionConfig\<close>, which samples: of the entries with the same level and message
  in one second it writes the first 100 and then every hundredth.
\<close>

definition production_sampling :: sampling where
  "production_sampling = \<lparr>sp_Initial = 100, sp_Thereafter = 100\<rparr>"

definition logger_init :: "(string \<Rightarrow> string) \<Rightarrow> string \<Rightarrow> zap_logger" where
  "logger_init lower env_LOG_LEVEL =
     \<lparr>zl_level = zap_getLogLevel lower env_LOG_LEVEL, zl_sampling = production_sampling, zl_fields = []\<rparr>"

text \<open>The nil context is \<open>None\<close>: a method call on it panics.\<close>

definition resolveActiveLogger :: "zap_logger \<Rightarrow> log_ctx option \<Rightarrow> zap_logger go" where
  "resolveActiveLogger lg ctx =
     (case ctx of
        None \<Rightarrow> Panic ''nil pointer dereference''
      | Some c \<Rightarrow> Ok (case lx_nested c of Some l \<Rightarrow> l | None \<Rightarrow> lg))"

definition addCorrelationId :: "log_ctx option \<Rightarrow> log_field list \<Rightarrow> log_field list go" where
  "addCorrelationId ctx flds =
     (case ctx of
        None \<Rightarrow> Ok flds
      | Some c \<Rightarrow>
          (case lx_correlation c of
             None \<Rightarrow> Ok flds
           | Some (CtxString s) \<Rightarrow> Ok (flds @ [field_String ''correlationId'' s])
           | Some (CtxOther _) \<Rightarrow> Panic ''interface conversion''))"

definition addTraceId :: "log_ctx option \<Rightarrow> log_field list \<Rightarrow> log_field list" where
  "addTraceId ctx flds =
     (case ctx of
        None \<Rightarrow> flds
      | Some c \<Rightarrow> (case lx_trace c of None \<Rightarrow> flds | Some t \<Rightarrow> flds @ [field_String ''traceId'' t]))"

definition log_With :: "zap_logger \<Rightarrow> log_ctx option \<Rightarrow> log_field list \<Rightarrow> log_ctx option go" where
  "log_With lg ctx flds =
     (case resolveActiveLogger lg ctx of
        Ok active \<Rightarrow>
          Ok (map_option (\<lambda>c. c\<lparr>lx_nested := Some (active\<lparr>zl_fields := zl_fields active @ flds\<rparr>)\<rparr>) ctx)
      | Err e \<Rightarrow> Err e
      | Panic p \<Rightarrow> Panic p)"

text \<open>
  What is zap's own: \<open>zc_count\<close> counts an entry and returns how many with its level and message there have been
  in the current second, this one included; \<open>zc_emit\<close> writes a line.  A logger writes an entry that its level
  lets through and its sampling does not drop, its own fields first.
\<close>

record 'w zap_core =
  zc_count :: "zap_level \<Rightarrow> string \<Rightarrow> 'w \<Rightarrow> 'w \<times> nat"
  zc_emit :: "zap_level \<Rightarrow> string \<Rightarrow> log_field list \<Rightarrow> 'w \<Rightarrow> 'w"

definition sampled :: "sampling \<Rightarrow> nat \<Rightarrow> bool" where
  "sampled s n \<longleftrightarrow> n \<le> sp_Initial s \<or> sp_Thereafter s \<noteq> 0 \<and> (n - sp_Initial s) mod sp_Thereafter s = 0"

definition zap_write ::
    "'w zap_core \<Rightarrow> zap_level \<Rightarrow> zap_logger \<Rightarrow> string \<Rightarrow> log_field list \<Rightarrow> 'w \<Rightarrow> 'w" where
  "zap_write core level l msg flds w =
     (if zl_level l \<le> level then
        (case zc_count core level msg w of
           (w, n) \<Rightarrow> if sampled (zl_sampling l) n then zc_emit core level msg (zl_fields l @ flds) w else w)
      else w)"

lemma sampled_production: "sampled production_sampling n \<longleftrightarrow> n \<le> 100 \<or> n mod 100 = 0"
proof (cases "n \<le> 100")
  case False
  then have "(n - 100) mod 100 = n mod 100" by (metis le_mod_geq nat_le_linear)
  with False show ?thesis by (simp add: sampled_def production_sampling_def)
qed (simp add: sampled_def production_sampling_def)

definition log_at ::
    "'w zap_core \<Rightarrow> zap_level \<Rightarrow> zap_logger \<Rightarrow> log_ctx option \<Rightarrow>
     string \<Rightarrow> log_field list \<Rightarrow> 'w \<Rightarrow> 'w \<times> zap_logger go" where
  "log_at core level lg ctx msg flds w =
     (case resolveActiveLogger lg ctx of
        Ok active \<Rightarrow>
          (case addCorrelationId ctx (addTraceId ctx flds) of
             Ok flds \<Rightarrow> (zap_write core level active msg flds w, Ok active)
           | Err e \<Rightarrow> (w, Err e)
           | Panic p \<Rightarrow> (w, Panic p))
      | r \<Rightarrow> (w, r))"

definition log_Debug where "log_Debug core = log_at core DebugLevel"
definition log_Info where "log_Info core = log_at core InfoLevel"
definition log_Warn where "log_Warn core = log_at core WarnLevel"
definition log_Error where "log_Error core = log_at core ErrorLevel"

text \<open>\<^verbatim>\<open>Fatal\<close> of zap ends the process after the line; \<open>exit\<close> marks that.\<close>

definition log_Fatal ::
    "'w zap_core \<Rightarrow> ('w \<Rightarrow> 'w) \<Rightarrow> zap_logger \<Rightarrow> log_ctx option \<Rightarrow>
     string \<Rightarrow> log_field list \<Rightarrow> 'w \<Rightarrow> 'w \<times> unit go" where
  "log_Fatal core exit lg ctx msg flds w =
     (case log_at core FatalLevel lg ctx msg flds w of
        (w, Ok _) \<Rightarrow> (exit w, Ok ())
      | (w, Err e) \<Rightarrow> (w, Err e)
      | (w, Panic p) \<Rightarrow> (w, Panic p))"

text \<open>\<^verbatim>\<open>Level\<close> calls itself and not the method of the embedded zap logger.\<close>

partial_function (option) logger_Level :: "zap_logger \<Rightarrow> zap_level option" where
  "logger_Level lg = logger_Level lg"

lemma logger_Level_diverges: "logger_Level lg = None"
proof -
  have "logger_Level lg = Some y \<Longrightarrow> False" for y
    by (rule logger_Level.raw_induct [of "\<lambda>l y. False"])
  then show ?thesis by (cases "logger_Level lg") auto
qed

subsection \<open>What a line holds\<close>

text \<open>The context after a list of \<^verbatim>\<open>With\<close> calls.\<close>

fun with_all :: "zap_logger \<Rightarrow> log_ctx option \<Rightarrow> log_field list list \<Rightarrow> log_ctx option go" where
  "with_all lg ctx [] = Ok ctx"
| "with_all lg ctx (fs # fss) =
     (case log_With lg ctx fs of Ok ctx \<Rightarrow> with_all lg ctx fss | r \<Rightarrow> r)"

definition active_logger :: "zap_logger \<Rightarrow> log_ctx \<Rightarrow> zap_logger" where
  "active_logger lg c = (case lx_nested c of Some l \<Rightarrow> l | None \<Rightarrow> lg)"

definition context_fields :: "log_ctx \<Rightarrow> log_field list" where
  "context_fields c =
     (case lx_trace c of None \<Rightarrow> [] | Some t \<Rightarrow> [field_String ''traceId'' t]) @
     (case lx_correlation c of Some (CtxString s) \<Rightarrow> [field_String ''correlationId'' s] | _ \<Rightarrow> [])"

lemma with_all_context:
  "\<exists>c'. with_all lg (Some c) fss = Ok (Some c') \<and> lx_trace c' = lx_trace c \<and>
     lx_correlation c' = lx_correlation c \<and> zl_level (active_logger lg c') = zl_level (active_logger lg c) \<and>
     zl_sampling (active_logger lg c') = zl_sampling (active_logger lg c) \<and>
     zl_fields (active_logger lg c') = zl_fields (active_logger lg c) @ concat fss"
proof (induction fss arbitrary: c)
  case Nil
  show ?case by simp
next
  case (Cons fs fss)
  let ?a = "active_logger lg c"
  let ?c = "c\<lparr>lx_nested := Some (?a\<lparr>zl_fields := zl_fields ?a @ fs\<rparr>)\<rparr>"
  have "log_With lg (Some c) fs = Ok (Some ?c)" by (simp add: log_With_def resolveActiveLogger_def active_logger_def)
  moreover have "active_logger lg ?c = ?a\<lparr>zl_fields := zl_fields ?a @ fs\<rparr>" by (simp add: active_logger_def)
  ultimately show ?case using Cons.IH [of ?c] by auto
qed

lemma log_at_context:
  assumes "\<And>n. lx_correlation c \<noteq> Some (CtxOther n)"
  shows "log_at core level lg (Some c) msg flds w =
    (zap_write core level (active_logger lg c) msg (flds @ context_fields c) w, Ok (active_logger lg c))"
  using assms
  by (auto simp: log_at_def resolveActiveLogger_def addCorrelationId_def addTraceId_def context_fields_def
      active_logger_def split: option.splits ctx_value.splits)

subsection \<open>The logger of gRPC (pkg/grpc/logger.go)\<close>

datatype severity = SevInfo | SevWarning | SevError | SevFatal

text \<open>\<open>canon\<close> is \<^verbatim>\<open>ToUpper\<close> of \<^verbatim>\<open>TrimSpace\<close>.\<close>

definition parseSeverity :: "(string \<Rightarrow> string) \<Rightarrow> string \<Rightarrow> severity" where
  "parseSeverity canon s =
     (let s = canon s in
      if s = ''INFO'' then SevInfo
      else if s = ''WARNING'' \<or> s = ''WARN'' then SevWarning
      else if s = ''ERROR'' then SevError
      else if s = ''FATAL'' then SevFatal
      else SevWarning)"

record grpc_logger =
  gw_ctx :: "log_ctx option"
  gw_minSeverity :: severity
  gw_verbosity :: int

text \<open>The three forms of each method, and the text each of them logs; \<open>fmt\<close> does the formatting.\<close>

datatype 'a log_call = Print "'a list" | Println "'a list" | Printf string "'a list"

record 'a fmt_ops =
  fm_Sprint :: "'a list \<Rightarrow> string"
  fm_Sprintln :: "'a list \<Rightarrow> string"
  fm_Sprintf :: "string \<Rightarrow> 'a list \<Rightarrow> string"

definition trim_newline :: "string \<Rightarrow> string" where
  "trim_newline s = (if s \<noteq> [] \<and> last s = CHR 0x0A then butlast s else s)"

definition call_text :: "'a fmt_ops \<Rightarrow> 'a log_call \<Rightarrow> string" where
  "call_text fmt c =
     (case c of
        Print args \<Rightarrow> fm_Sprint fmt args
      | Println args \<Rightarrow> trim_newline (fm_Sprintln fmt args)
      | Printf f args \<Rightarrow> fm_Sprintf fmt f args)"

definition grpc_Info where
  "grpc_Info core lg fmt l c w = log_Info core lg (gw_ctx l) (call_text fmt c) [] w"
definition grpc_Warning where
  "grpc_Warning core lg fmt l c w = log_Warn core lg (gw_ctx l) (call_text fmt c) [] w"
definition grpc_Error where
  "grpc_Error core lg fmt l c w = log_Error core lg (gw_ctx l) (call_text fmt c) [] w"

definition grpc_Fatal where
  "grpc_Fatal core exit lg fmt l c w =
     (case log_Fatal core exit lg (gw_ctx l) (call_text fmt c) [] w of
        (w, Ok _) \<Rightarrow> (exit w, Ok ())
      | (w, r) \<Rightarrow> (w, r))"

definition grpc_V :: "grpc_logger \<Rightarrow> int \<Rightarrow> bool" where
  "grpc_V l level = (level \<le> gw_verbosity l)"

text \<open>
  \<^verbatim>\<open>EnableWithContext\<close>: the state is the logger that \<^verbatim>\<open>setOnce\<close> has installed.  The variable \<^verbatim>\<open>log.level\<close> is
  read as a severity and as a verbosity; \<open>background\<close> is the empty context.
\<close>

definition background :: log_ctx where
  "background = \<lparr>lx_nested = None, lx_correlation = None, lx_trace = None\<rparr>"

definition EnableWithContext ::
    "(string \<Rightarrow> string) \<Rightarrow> string \<Rightarrow> log_ctx option \<Rightarrow> grpc_logger option \<Rightarrow> grpc_logger option" where
  "EnableWithContext canon env_level ctx once =
     (let ctx = (case ctx of None \<Rightarrow> Some background | Some c \<Rightarrow> Some c);
          minSev = parseSeverity canon env_level;
          verb = (if env_level \<noteq> [] then (case ParseInt env_level of Ok n \<Rightarrow> if 0 \<le> n then n else 0 | _ \<Rightarrow> 0) else 0)
      in case once of
           Some l \<Rightarrow> Some l
         | None \<Rightarrow> Some \<lparr>gw_ctx = ctx, gw_minSeverity = minSev, gw_verbosity = verb\<rparr>)"

text \<open>What gRPC logs does not depend on the severity that was asked for.\<close>

lemma grpc_Info_any_severity:
  "grpc_Info core lg fmt (l\<lparr>gw_minSeverity := s\<rparr>) c w = grpc_Info core lg fmt l c w"
  by (simp add: grpc_Info_def)

lemma EnableWithContext_lines:
  assumes "EnableWithContext canon lv ctx None = Some l" and "\<And>c n. ctx = Some c \<Longrightarrow> lx_correlation c \<noteq> Some (CtxOther n)"
  shows "\<exists>w'. grpc_Info core lg fmt l c w = (w', Ok (active_logger lg (case ctx of Some c \<Rightarrow> c | None \<Rightarrow> background)))"
proof -
  have l: "gw_ctx l = Some (case ctx of Some c \<Rightarrow> c | None \<Rightarrow> background)"
    using assms(1) by (auto simp: EnableWithContext_def Let_def split: option.splits)
  have "lx_correlation (case ctx of Some c \<Rightarrow> c | None \<Rightarrow> background) \<noteq> Some (CtxOther n)" for n
    using assms(2) by (cases ctx) (auto simp: background_def)
  then show ?thesis by (simp add: grpc_Info_def log_Info_def l log_at_context)
qed

subsection \<open>Tracing (pkg/trace)\<close>

text \<open>\<open>'f\<close> is \<^verbatim>\<open>float64\<close>: the ratio is only passed on.\<close>

record 'f tracing_config =
  tc_Endpoint :: string
  tc_Insecure :: bool
  tc_SampleRatio :: 'f
  tc_ServiceName :: string
  tc_ServiceEnv :: string
  tc_ServiceVer :: string
  tc_Username :: string
  tc_Password :: string
  tc_Protocol :: string

definition tracing_Validate :: "'f tracing_config \<Rightarrow> gerror" where
  "tracing_Validate s = (if tc_Endpoint s = [] then Some (Sentinel ''trace.endpoint is required'') else None)"

definition GetTracingConfig :: "(string \<Rightarrow> 'f) \<Rightarrow> configurer \<Rightarrow> gerr + 'f tracing_config" where
  "GetTracingConfig getFloat a =
     (let conf = \<lparr>tc_Endpoint = cf_GetString a ''trace.endpoint'', tc_Insecure = cf_GetBool a ''trace.insecure'',
            tc_SampleRatio = getFloat ''trace.sample_ratio'',
            tc_ServiceName = (let n = cf_GetString a ''trace.sevice_name'' in
              if n \<noteq> [] then n else cf_GetString a ''app.name''),
            tc_ServiceEnv = cf_GetString a ''trace.env'', tc_ServiceVer = cf_GetString a ''trace.service_ver'',
            tc_Username = [], tc_Password = [], tc_Protocol = cf_GetString a ''trace.protocol''\<rparr>
      in case tracing_Validate conf of Some err \<Rightarrow> Inl err | None \<Rightarrow> Inr conf)"

text \<open>
  The exporters of OpenTelemetry and the global provider.  \<open>ot_Install\<close> builds the provider from the exporter and the
  configuration, and sets it with the propagators; the provider's \<^verbatim>\<open>Shutdown\<close> is the result.
\<close>

record ('f, 'e, 'w) otel_ops =
  ot_NewHTTP :: "string \<Rightarrow> bool \<Rightarrow> 'w \<Rightarrow> 'w \<times> (gerr + 'e)"
  ot_NewGRPC :: "string \<Rightarrow> bool \<Rightarrow> 'w \<Rightarrow> 'w \<times> (gerr + 'e)"
  ot_Install :: "'e \<Rightarrow> 'f \<Rightarrow> string \<Rightarrow> string \<Rightarrow> string \<Rightarrow> 'w \<Rightarrow> 'w"
  ot_Shutdown :: "'e \<Rightarrow> 'w \<Rightarrow> 'w \<times> gerror"

definition InitProvider ::
    "('f, 'e, 'w) otel_ops \<Rightarrow> 'f tracing_config \<Rightarrow> 'w \<Rightarrow> 'w \<times> (gerr + ('w \<Rightarrow> 'w \<times> gerror))" where
  "InitProvider T cfg w =
     (case (if tc_Protocol cfg = ''http'' then ot_NewHTTP T (tc_Endpoint cfg) (tc_Insecure cfg) w
            else ot_NewGRPC T (tc_Endpoint cfg) (tc_Insecure cfg) w) of
        (w, Inl err) \<Rightarrow> (w, Inl (Wrapped ''failed to create OTLP exporter'' err))
      | (w, Inr exporter) \<Rightarrow>
          (ot_Install T exporter (tc_SampleRatio cfg) (tc_ServiceName cfg) (tc_ServiceVer cfg) (tc_ServiceEnv cfg) w,
           Inr (ot_Shutdown T exporter)))"

text \<open>Every configuration that is accepted has an endpoint and a name, when the application has one.\<close>

lemma GetTracingConfig_Inr:
  assumes "GetTracingConfig getFloat a = Inr conf"
  shows "tc_Endpoint conf \<noteq> []" and "cf_GetString a ''app.name'' \<noteq> [] \<Longrightarrow> tc_ServiceName conf \<noteq> []"
  using assms by (auto simp: GetTracingConfig_def tracing_Validate_def Let_def split: if_splits)

subsection \<open>The package's own logger\<close>

text \<open>
  The functions of the package call \<^verbatim>\<open>singleInstance\<close>, which \<^verbatim>\<open>init\<close> has set before any of them runs; a nil one
  panics.
\<close>

definition GetLogger :: "zap_logger option \<Rightarrow> zap_logger option" where
  "GetLogger singleInstance = singleInstance"

definition package_With :: "zap_logger option \<Rightarrow> log_ctx option \<Rightarrow> log_field list \<Rightarrow> log_ctx option go" where
  "package_With singleInstance ctx flds =
     (case singleInstance of None \<Rightarrow> Panic ''nil pointer dereference'' | Some lg \<Rightarrow> log_With lg ctx flds)"

definition package_log ::
    "(zap_logger \<Rightarrow> log_ctx option \<Rightarrow> string \<Rightarrow> log_field list \<Rightarrow> 'w \<Rightarrow> 'w \<times> zap_logger go) \<Rightarrow> zap_logger option \<Rightarrow>
     log_ctx option \<Rightarrow> string \<Rightarrow> log_field list \<Rightarrow> 'w \<Rightarrow> 'w \<times> zap_logger go" where
  "package_log log_method singleInstance ctx msg flds w =
     (case singleInstance of None \<Rightarrow> (w, Panic ''nil pointer dereference'')
      | Some lg \<Rightarrow> log_method lg ctx msg flds w)"

definition package_Debug where "package_Debug core = package_log (log_Debug core)"
definition package_Info where "package_Info core = package_log (log_Info core)"
definition package_Warn where "package_Warn core = package_log (log_Warn core)"
definition package_Error where "package_Error core = package_log (log_Error core)"

subsection \<open>Kafka's logger (pkg/kafka/logger.go)\<close>

text \<open>
  \<^verbatim>\<open>loggerWrap\<close> hands the lines of the Kafka library to the logger; \<open>sprintf\<close> is \<^verbatim>\<open>fmt.Sprintf\<close>, and the context is
  \<^verbatim>\<open>context.TODO()\<close>, which carries nothing.
\<close>

definition context_TODO :: "log_ctx option" where
  "context_TODO = Some \<lparr>lx_nested = None, lx_correlation = None, lx_trace = None\<rparr>"

definition loggerWrap_Printf ::
    "'w zap_core \<Rightarrow> (string \<Rightarrow> 'a list \<Rightarrow> string) \<Rightarrow> bool \<Rightarrow> zap_logger \<Rightarrow>
     string \<Rightarrow> 'a list \<Rightarrow> 'w \<Rightarrow> 'w" where
  "loggerWrap_Printf core sprintf errors lg msg args w =
     (let msg = (if args \<noteq> [] then sprintf msg args else msg) in
      if errors then fst (log_Error core lg context_TODO msg [] w)
      else fst (log_Info core lg context_TODO msg [] w))"

text \<open>A line without arguments is passed on as it is, a percent sign included; none of them panics.\<close>

lemma loggerWrap_Printf_eq:
  "loggerWrap_Printf core sprintf errors lg msg args w =
     zap_write core (if errors then ErrorLevel else InfoLevel) lg (if args = [] then msg else sprintf msg args) [] w"
  by (simp add: loggerWrap_Printf_def log_Error_def log_Info_def log_at_def resolveActiveLogger_def
      addTraceId_def addCorrelationId_def context_TODO_def)

end
