(* ===== verification/Gorm_Metrics.thy ===== *)
theory Gorm_Metrics
  imports Prelude
begin

section \<open>The metrics plugin for gorm (internal/pkg/gorm_metrics)\<close>

text \<open>
  The construction of the plugin with the registration of its collectors, the callbacks it puts around every
  operation, and the gauges of the connection pool.  gorm's handles and the Prometheus registry are
  parameters.  The lemmas show which error a failed registration returns, and that the callbacks count
  nothing as long as \<^verbatim>\<open>Set\<close> does not write into the handle it is called on.
\<close>

subsection \<open>Construction (New, registerAll)\<close>

record 'b gm_config =
  gmc_Namespace :: string
  gmc_Subsystem :: string
  gmc_DurationBuckets :: "'b option"
  gmc_Registerer :: "nat option"
  gmc_Context :: "nat option"
  gmc_MonitorInterval :: int

definition gm_defaults :: "'b \<Rightarrow> nat \<Rightarrow> nat \<Rightarrow> 'b gm_config \<Rightarrow> 'b gm_config" where
  "gm_defaults DefBuckets DefaultRegisterer background_ctx cfg =
     cfg\<lparr>gmc_Namespace := (if gmc_Namespace cfg = [] then ''gorm'' else gmc_Namespace cfg),
         gmc_Subsystem := (if gmc_Subsystem cfg = [] then ''db'' else gmc_Subsystem cfg),
         gmc_DurationBuckets := (case gmc_DurationBuckets cfg of None \<Rightarrow> Some DefBuckets | b \<Rightarrow> b),
         gmc_Registerer := (case gmc_Registerer cfg of None \<Rightarrow> Some DefaultRegisterer | r \<Rightarrow> r),
         gmc_Context := (case gmc_Context cfg of None \<Rightarrow> Some background_ctx | c \<Rightarrow> c),
         gmc_MonitorInterval := (if gmc_MonitorInterval cfg = 0 then 30000000000 else gmc_MonitorInterval cfg)\<rparr>"

text \<open>A collector is its full name with its labels.\<close>

record gorm_collector =
  gcl_Name :: string
  gcl_Labels :: "string list"

definition gm_collectors :: "string \<Rightarrow> gorm_collector list" where
  "gm_collectors ns =
     [\<lparr>gcl_Name = ns @ ''_query_duration_seconds'', gcl_Labels = [''operation'', ''table'', ''success'']\<rparr>,
      \<lparr>gcl_Name = ns @ ''_queries_total'', gcl_Labels = [''operation'', ''table'']\<rparr>,
      \<lparr>gcl_Name = ns @ ''_errors_total'', gcl_Labels = [''operation'', ''table'']\<rparr>,
      \<lparr>gcl_Name = ns @ ''_connection_status'', gcl_Labels = []\<rparr>,
      \<lparr>gcl_Name = ns @ ''_connection_pool_stats'', gcl_Labels = [''stat'']\<rparr>]"

fun registerAll ::
    "('c \<Rightarrow> 'w \<Rightarrow> 'w \<times> gerror) \<Rightarrow> 'c list \<Rightarrow> gerror \<Rightarrow> 'w \<Rightarrow> 'w \<times> gerror" where
  "registerAll reg [] err w = (w, err)"
| "registerAll reg (c # cs) err w =
     (case reg c w of
        (w, Some cerr) \<Rightarrow> registerAll reg cs (errors_Join [Some cerr]) w
      | (w, None) \<Rightarrow> registerAll reg cs err w)"

record gorm_metrics =
  gm_namespace :: string
  gm_cancelled :: bool
  gm_monitors :: nat                     \<comment> \<open>goroutines the wait group counts\<close>

definition gm_New ::
    "(nat \<Rightarrow> gorm_collector \<Rightarrow> 'w \<Rightarrow> 'w \<times> gerror) \<Rightarrow> 'b \<Rightarrow> nat \<Rightarrow> nat \<Rightarrow> 'b gm_config \<Rightarrow> 'w \<Rightarrow>
     'w \<times> (gerr + gorm_metrics)" where
  "gm_New reg DefBuckets DefaultRegisterer background_ctx cfg w =
     (let cfg = gm_defaults DefBuckets DefaultRegisterer background_ctx cfg; ns = gmc_Namespace cfg in
      case registerAll (reg (the (gmc_Registerer cfg))) (gm_collectors ns) None w of
        (w, Some err) \<Rightarrow> (w, Inl err)
      | (w, None) \<Rightarrow> (w, Inr \<lparr>gm_namespace = ns, gm_cancelled = False, gm_monitors = 0\<rparr>))"

text \<open>The world in which collector \<open>i\<close> is registered, and its result.\<close>

fun reg_world :: "('c \<Rightarrow> 'w \<Rightarrow> 'w \<times> gerror) \<Rightarrow> 'c list \<Rightarrow> 'w \<Rightarrow> 'w" where
  "reg_world reg [] w = w"
| "reg_world reg (c # cs) w = reg_world reg cs (fst (reg c w))"

fun reg_errors :: "('c \<Rightarrow> 'w \<Rightarrow> 'w \<times> gerror) \<Rightarrow> 'c list \<Rightarrow> 'w \<Rightarrow> gerr list" where
  "reg_errors reg [] w = []"
| "reg_errors reg (c # cs) w =
     (case snd (reg c w) of None \<Rightarrow> [] | Some e \<Rightarrow> [e]) @ reg_errors reg cs (fst (reg c w))"

text \<open>Every collector is registered; of the errors only the last one is returned.\<close>

lemma registerAll_result:
  "registerAll reg cs err w =
     (reg_world reg cs w,
      if reg_errors reg cs w = [] then err else Some (Joined [last (reg_errors reg cs w)]))"
  by (induction reg cs err w rule: registerAll.induct)
    (auto simp: errors_Join_def split: prod.splits option.splits)

subsection \<open>Callbacks (registerCallbacks, getTableName)\<close>

text \<open>A handle \<open>'d\<close> of gorm: \<open>gd_Set\<close> returns the handle with the value.\<close>

record gorm_schema =
  gs_Table :: string

record gorm_statement =
  st_Schema :: "gorm_schema option"
  st_Table :: string

record ('d, 'w) gorm_db =
  gd_Set :: "'d \<Rightarrow> string \<Rightarrow> int \<Rightarrow> 'w \<Rightarrow> 'd \<times> 'w"
  gd_Get :: "'d \<Rightarrow> string \<Rightarrow> 'w \<Rightarrow> int option"
  gd_Error :: "'d \<Rightarrow> 'w \<Rightarrow> gerror"
  gd_Statement :: "'d \<Rightarrow> 'w \<Rightarrow> gorm_statement option"
  gd_sqlDB :: "'d \<Rightarrow> gerror"
  gd_Register :: "string \<Rightarrow> bool \<Rightarrow> string \<Rightarrow> string \<Rightarrow> 'd \<Rightarrow> 'w \<Rightarrow> 'w"
    \<comment> \<open>processor, before or after, anchor, name of the callback\<close>
  gd_Use :: "'d \<Rightarrow> 'w \<Rightarrow> 'w \<times> gerror"

definition getTableName :: "('d, 'w) gorm_db \<Rightarrow> 'd \<Rightarrow> 'w \<Rightarrow> string" where
  "getTableName G db w =
     (case gd_Statement G db w of
        None \<Rightarrow> ''unknown''
      | Some stmt \<Rightarrow>
          (case st_Schema stmt of
             None \<Rightarrow> ''unknown''
           | Some s \<Rightarrow>
               if gs_Table s \<noteq> [] then gs_Table s
               else if st_Table stmt \<noteq> [] then st_Table stmt else ''unknown''))"

record gorm_counts =
  gn_total :: "(string \<times> string) list"
  gn_duration :: "(string \<times> string \<times> bool \<times> int) list"
  gn_errors :: "(string \<times> string) list"

text \<open>
  Both callbacks use the handle \<open>db\<close> of \<^verbatim>\<open>registerCallbacks\<close> and not the one they are called with; what \<^verbatim>\<open>Set\<close>
  returns is dropped.
\<close>

definition before_callback :: "('d, 'w) gorm_db \<Rightarrow> 'd \<Rightarrow> string \<Rightarrow> 'd \<Rightarrow> int \<Rightarrow> 'w \<Rightarrow> 'w" where
  "before_callback G db name d now w = snd (gd_Set G db (''start_time_'' @ name) now w)"

definition after_callback ::
    "('d, 'w) gorm_db \<Rightarrow> 'd \<Rightarrow> string \<Rightarrow> 'd \<Rightarrow> int \<Rightarrow> 'w \<Rightarrow> gorm_counts \<Rightarrow> gorm_counts" where
  "after_callback G db name d now w c =
     (case gd_Get G db (''start_time_'' @ name) w of
        None \<Rightarrow> c
      | Some start \<Rightarrow>
          let duration = now - start; table = getTableName G db w; success = (gd_Error G db w = None);
              c = c\<lparr>gn_total := gn_total c @ [(name, table)],
                    gn_duration := gn_duration c @ [(name, table, success, duration)]\<rparr>
          in if success then c else c\<lparr>gn_errors := gn_errors c @ [(name, table)]\<rparr>)"

definition gm_operations :: "(string \<times> string \<times> string) list" where
  "gm_operations =
     [(''query'', ''Query'', ''gorm:query''), (''create'', ''Create'', ''gorm.create''),
      (''update'', ''Update'', ''gorm.update''), (''delete'', ''Delete'', ''gorm.delete''),
      (''row'', ''Row'', ''gorm.row''), (''raw'', ''Row'', ''gorm.raw'')]"

definition registerCallbacks :: "('d, 'w) gorm_db \<Rightarrow> 'd \<Rightarrow> 'w \<Rightarrow> 'w" where
  "registerCallbacks G db w =
     fold (\<lambda>(name, proc, anchor) w.
        gd_Register G proc False anchor (''prometheus:after_'' @ name) db
          (gd_Register G proc True anchor (''prometheus:before_'' @ name) db w)) gm_operations w"

definition monitorConnection :: "('d, 'w) gorm_db \<Rightarrow> 'd \<Rightarrow> gorm_metrics \<Rightarrow> gorm_metrics" where
  "monitorConnection G db m =
     (case gd_sqlDB G db of Some err \<Rightarrow> m | None \<Rightarrow> m\<lparr>gm_monitors := Suc (gm_monitors m)\<rparr>)"

definition gm_Initialize :: "('d, 'w) gorm_db \<Rightarrow> 'd \<Rightarrow> gorm_metrics \<Rightarrow> 'w \<Rightarrow> gorm_metrics \<times> 'w \<times> gerror" where
  "gm_Initialize G db m w =
     (let w = registerCallbacks G db w; m = monitorConnection G db m in (m, gd_Use G db w))"

text \<open>\<^verbatim>\<open>Close\<close> cancels the context and waits until the monitors, which then end, are gone.\<close>

definition gm_Close :: "gorm_metrics \<Rightarrow> gorm_metrics \<times> gerror" where
  "gm_Close m = (m\<lparr>gm_cancelled := True, gm_monitors := 0\<rparr>, None)"

subsection \<open>Gauges (updateConnectionMetrics)\<close>

record sql_stats =
  ss_OpenConnections :: int
  ss_InUse :: int
  ss_Idle :: int
  ss_MaxOpenConnections :: int
  ss_WaitCount :: int
  ss_WaitDuration :: int
  ss_MaxIdleClosed :: int
  ss_MaxLifetimeClosed :: int

definition updateConnectionMetrics ::
    "gerror \<Rightarrow> sql_stats \<Rightarrow> (string \<rightharpoonup> int) \<Rightarrow> (string \<rightharpoonup> int)" where
  "updateConnectionMetrics ping stats g =
     g(''connection_status'' \<mapsto> (if ping = None then 1 else 0),
       ''open_connections'' \<mapsto> ss_OpenConnections stats, ''in_use'' \<mapsto> ss_InUse stats, ''idle'' \<mapsto> ss_Idle stats,
       ''max_open_connections'' \<mapsto> ss_MaxOpenConnections stats, ''wait_count'' \<mapsto> ss_WaitCount stats,
       ''wait_duration'' \<mapsto> ss_WaitDuration stats, ''max_idle_closed'' \<mapsto> ss_MaxIdleClosed stats,
       ''max_lifetime_closed'' \<mapsto> ss_MaxLifetimeClosed stats)"

subsection \<open>Nothing is counted\<close>

text \<open>A run of callbacks: the operation, whether it is the callback before, the handle it is called with, the time.\<close>

fun run_callbacks ::
    "('d, 'w) gorm_db \<Rightarrow> 'd \<Rightarrow> (string \<times> bool \<times> 'd \<times> int) list \<Rightarrow> 'w \<times> gorm_counts \<Rightarrow> 'w \<times> gorm_counts" where
  "run_callbacks G db [] s = s"
| "run_callbacks G db ((name, before, d, now) # cs) (w, c) =
     run_callbacks G db cs
       (if before then (before_callback G db name d now w, c) else (w, after_callback G db name d now w c))"

lemma run_callbacks_counts:
  assumes fresh: "\<And>key t k w. gd_Get G db k (snd (gd_Set G db key t w)) = gd_Get G db k w"
    and "\<And>k. gd_Get G db k w = None"
  shows "snd (run_callbacks G db cs (w, c)) = c"
  using assms(2)
proof (induction cs arbitrary: w)
  case Nil
  then show ?case by simp
next
  case (Cons s cs)
  obtain name before d now where s: "s = (name, before, d, now)" by (metis surj_pair)
  show ?case
  proof (cases before)
    case True
    have "\<And>k. gd_Get G db k (before_callback G db name d now w) = None"
      by (simp add: before_callback_def fresh Cons.prems)
    from Cons.IH [OF this] show ?thesis by (simp add: s True)
  next
    case False
    then show ?thesis using Cons.IH [OF Cons.prems] by (simp add: s after_callback_def Cons.prems)
  qed
qed

end
