(* ===== verification/Grpc_Streams.thy ===== *)
theory Grpc_Streams
  imports Grpc Interfaces
begin

section \<open>Streams and client calls of gRPC (pkg/grpc/*/interceptors)\<close>

text \<open>
  The interceptors of streams on the server and the interceptors of the client.  A call turns a state into a
  new state and returns nil, an error, or panics; \<open>inc method err\<close> counts one call in the metrics.  The
  stream chain of a server is built from the same list shape as the unary one and is another
  interpretation of the handler chain.  The lemmas show that no panic passes a server's chain, and how
  often a client's stream is counted.
\<close>

type_synonym 's stream_call = "'s \<Rightarrow> 's \<times> unit go"

subsection \<open>Server\<close>

definition MetricsStreamInterceptor :: "(gerror \<Rightarrow> 's \<Rightarrow> 's) \<Rightarrow> 's stream_call \<Rightarrow> 's stream_call" where
  "MetricsStreamInterceptor inc handler s =
     (case handler s of
        (s, Ok _) \<Rightarrow> (inc None s, Ok ())
      | (s, Err e) \<Rightarrow> (inc (Some e) s, Err e)
      | (s, Panic p) \<Rightarrow> (s, Panic p))"

definition RecoveryStreamInterceptor :: "'s stream_call \<Rightarrow> 's stream_call" where
  "RecoveryStreamInterceptor handler s =
     (case handler s of
        (s, Panic p) \<Rightarrow> (s, Err ErrInternal)
      | r \<Rightarrow> r)"

datatype 's stream_interceptor = SRecovery | SMetrics | SCustom "'s stream_call \<Rightarrow> 's stream_call"

fun apply_stream_interceptor ::
    "(gerror \<Rightarrow> 's \<Rightarrow> 's) \<Rightarrow> 's stream_interceptor \<Rightarrow> 's stream_call \<Rightarrow> 's stream_call" where
  "apply_stream_interceptor inc SRecovery h = RecoveryStreamInterceptor h"
| "apply_stream_interceptor inc SMetrics h = MetricsStreamInterceptor inc h"
| "apply_stream_interceptor inc (SCustom f) h = f h"

text \<open>\<^verbatim>\<open>Initialize\<close> puts recovery and metrics before the interceptors that were added.\<close>

definition stream_chain ::
    "(gerror \<Rightarrow> 's \<Rightarrow> 's) \<Rightarrow> 's stream_interceptor list \<Rightarrow> 's stream_call \<Rightarrow> 's stream_call" where
  "stream_chain inc added h = foldr (apply_stream_interceptor inc) ([SRecovery, SMetrics] @ added) h"

interpretation stream: handler_chain
  "foldr (apply_stream_interceptor inc)" "apply_stream_interceptor inc" for inc
  by unfold_locales simp_all

lemma RecoveryStreamInterceptor_no_panic: "snd (RecoveryStreamInterceptor h s) \<noteq> Panic p"
  by (auto simp: RecoveryStreamInterceptor_def split: prod.splits go.splits)

lemma stream_chain_recovers: "snd (stream_chain inc added h s) \<noteq> Panic p"
  by (simp add: stream_chain_def RecoveryStreamInterceptor_no_panic)

lemma stream_chain_result:
  "stream_chain inc [] h s =
     (case h s of
        (s, Ok _) \<Rightarrow> (inc None s, Ok ())
      | (s, Err e) \<Rightarrow> (inc (Some e) s, Err e)
      | (s, Panic p) \<Rightarrow> (s, Err ErrInternal))"
  by (auto simp: stream_chain_def RecoveryStreamInterceptor_def MetricsStreamInterceptor_def
      split: prod.splits go.splits)

subsection \<open>Client\<close>

definition client_MetricsUnaryInterceptor ::
    "(string \<Rightarrow> gerror \<Rightarrow> 's \<Rightarrow> 's) \<Rightarrow> string \<Rightarrow> 's stream_call \<Rightarrow> 's stream_call" where
  "client_MetricsUnaryInterceptor inc method invoker s =
     (case invoker s of
        (s, Ok _) \<Rightarrow> (inc method None s, Ok ())
      | (s, Err e) \<Rightarrow> (inc method (Some e) s, Err e)
      | (s, Panic p) \<Rightarrow> (s, Panic p))"

text \<open>A client's stream: \<open>cs_Recv\<close> is \<^verbatim>\<open>RecvMsg\<close> of the library's stream.\<close>

record 's client_stream =
  cs_Recv :: "'s \<Rightarrow> 's \<times> gerror"
  cs_Method :: string

definition client_MetricsStreamInterceptor ::
    "(string \<Rightarrow> gerror \<Rightarrow> 's \<Rightarrow> 's) \<Rightarrow> string \<Rightarrow> ('s \<Rightarrow> 's \<times> (gerr + ('s \<Rightarrow> 's \<times> gerror))) \<Rightarrow> 's \<Rightarrow>
     's \<times> (gerr + 's client_stream)" where
  "client_MetricsStreamInterceptor inc method streamer s =
     (case streamer s of
        (s, Inl err) \<Rightarrow> (inc method (Some err) s, Inl err)
      | (s, Inr recv) \<Rightarrow> (s, Inr \<lparr>cs_Recv = recv, cs_Method = method\<rparr>))"

definition RecvMsg :: "(string \<Rightarrow> gerror \<Rightarrow> 's \<Rightarrow> 's) \<Rightarrow> 's client_stream \<Rightarrow> 's \<Rightarrow> 's \<times> gerror" where
  "RecvMsg inc cs s =
     (case cs_Recv cs s of
        (s, Some err) \<Rightarrow> (inc (cs_Method cs) (Some err) s, Some err)
      | (s, None) \<Rightarrow> (s, None))"

text \<open>A client that receives \<open>k\<close> times, whatever the results.\<close>

fun recv_times :: "(string \<Rightarrow> gerror \<Rightarrow> 's \<Rightarrow> 's) \<Rightarrow> 's client_stream \<Rightarrow> nat \<Rightarrow> 's \<Rightarrow> 's" where
  "recv_times inc cs 0 s = s"
| "recv_times inc cs (Suc k) s = recv_times inc cs k (fst (RecvMsg inc cs s))"

text \<open>
  Over a stream of \<open>n\<close> messages that ends with \<^verbatim>\<open>io.EOF\<close>, the state being the messages left and the calls
  counted: nothing is counted before the end, and every receive after it counts once more.
\<close>

definition eof_stream :: "string \<Rightarrow> (nat \<times> (string \<times> gerror) list) client_stream" where
  "eof_stream method =
     \<lparr>cs_Recv = (\<lambda>(n, c). case n of 0 \<Rightarrow> ((0, c), Some (Sentinel ''EOF'')) | Suc m \<Rightarrow> ((m, c), None)),
      cs_Method = method\<rparr>"

definition count_call :: "string \<Rightarrow> gerror \<Rightarrow> nat \<times> (string \<times> gerror) list \<Rightarrow> nat \<times> (string \<times> gerror) list" where
  "count_call method err = (\<lambda>(n, c). (n, c @ [(method, err)]))"

lemma recv_times_counts:
  "recv_times count_call (eof_stream method) k (n, c) =
     (n - k, c @ replicate (k - n) (method, Some (Sentinel ''EOF'')))"
proof (induction k arbitrary: n c)
  case 0
  then show ?case by simp
next
  case (Suc k)
  show ?case
  proof (cases n)
    case 0
    then show ?thesis using Suc.IH [of 0]
      by (simp add: RecvMsg_def eof_stream_def count_call_def)
  next
    case (Suc m)
    then show ?thesis using Suc.IH [of m]
      by (simp add: RecvMsg_def eof_stream_def)
  qed
qed

end
