(* ===== verification/Swagger_Loader.thy ===== *)
theory Swagger_Loader
  imports Prelude "HOL-Library.Sublist"
begin

section \<open>Finding the OpenAPI document (pkg/swagger/loader.go)\<close>

text \<open>
  The search upwards for the directory of \<^verbatim>\<open>go.mod\<close> and the two places where the document is looked for.  An
  absolute directory is the list of its names, the innermost first; the file system is a parameter.  The
  lemmas show that the search ends at the nearest directory that has the marker.
\<close>

definition DefaultPath :: string where "DefaultPath = ''api/openapi/api.swagger.json''"
definition rootMarker :: string where "rootMarker = ''go.mod''"
definition fs_ErrNotExist :: gerr where "fs_ErrNotExist = Sentinel ''file does not exist''"

type_synonym directory = "string list"

text \<open>\<open>fo_ReadFile None\<close> reads a path relative to the working directory, \<open>fo_ReadFile (Some d)\<close> one below \<open>d\<close>.\<close>

record file_ops =
  fo_Abs :: "gerr + directory"           \<comment> \<open>the working directory\<close>
  fo_Stat :: "directory \<Rightarrow> string \<Rightarrow> bool"
  fo_ReadFile :: "directory option \<Rightarrow> string \<Rightarrow> gerr + string"

text \<open>The loop ends at the root, which is its own parent.\<close>

fun find_up :: "file_ops \<Rightarrow> string \<Rightarrow> directory \<Rightarrow> gerr + directory" where
  "find_up F marker [] = (if fo_Stat F [] marker then Inr [] else Inl fs_ErrNotExist)"
| "find_up F marker (d # ds) = (if fo_Stat F (d # ds) marker then Inr (d # ds) else find_up F marker ds)"

definition findUpward :: "file_ops \<Rightarrow> string \<Rightarrow> gerr + directory" where
  "findUpward F marker = (case fo_Abs F of Inl err \<Rightarrow> Inl err | Inr cwd \<Rightarrow> find_up F marker cwd)"

definition LoadOpenAPISpec :: "file_ops \<Rightarrow> string \<Rightarrow> gerr + string" where
  "LoadOpenAPISpec F path =
     (let path = (if path = [] then DefaultPath else path);
          missing = Inl (Sentinel ''openapi spec not found, set spec in api/openapi/api.swagger.json'')
      in case fo_ReadFile F None path of
           Inr b \<Rightarrow> Inr b
         | Inl _ \<Rightarrow>
             (case findUpward F rootMarker of
                Inl _ \<Rightarrow> missing
              | Inr moddir \<Rightarrow> (case fo_ReadFile F (Some moddir) path of Inr b \<Rightarrow> Inr b | Inl _ \<Rightarrow> missing)))"

lemma find_up_Inr:
  "find_up F marker cwd = Inr moddir \<longleftrightarrow>
     suffix moddir cwd \<and> fo_Stat F moddir marker \<and> (\<forall>d. suffix d cwd \<and> fo_Stat F d marker \<longrightarrow> suffix d moddir)"
proof (induction cwd)
  case Nil
  then show ?case by auto
next
  case (Cons a cwd)
  show ?case
  proof (cases "fo_Stat F (a # cwd) marker")
    case True
    then show ?thesis by (auto simp: suffix_order.antisym)
  next
    case False
    have "suffix d (a # cwd) \<and> fo_Stat F d marker \<longleftrightarrow> suffix d cwd \<and> fo_Stat F d marker" for d
      using False by (auto simp: suffix_Cons)
    with False Cons.IH show ?thesis by auto
  qed
qed

lemma find_up_Inl: "find_up F marker cwd = Inl e \<longleftrightarrow> e = fs_ErrNotExist \<and> (\<forall>d. suffix d cwd \<longrightarrow> \<not> fo_Stat F d marker)"
  by (induction cwd) (auto simp: suffix_Cons)

end
