(* ===== verification/Metrics_Registry.thy ===== *)
theory Metrics_Registry
  imports Prelude
begin

section \<open>The collectors of the platform (pkg/metrics)\<close>

text \<open>
  The collectors that the package declares, and their registration when the program starts: the variables of
  gRPC register themselves with Prometheus' default registry, the \<^verbatim>\<open>init\<close> functions register all of them with
  the package's own one, in the order of the files, and \<^verbatim>\<open>Init\<close> adds the collectors of the runtime.
  \<^verbatim>\<open>MustRegister\<close> panics at a name that is there already.  The lemmas show that the package's own names never
  collide, and what a second \<^verbatim>\<open>Init\<close> does.
\<close>

record collector =
  co_Name :: string
  co_Labels :: "string list"

definition co :: "string \<Rightarrow> string list \<Rightarrow> collector" where
  "co name labels = \<lparr>co_Name = name, co_Labels = labels\<rparr>"

definition db_collectors :: "collector list" where
  "db_collectors = [co ''db_query_duration_seconds'' [''query''], co ''db_connections'' [''state'']]"

definition grpc_collectors :: "collector list" where
  "grpc_collectors =
     [co ''grpc_client_requests_total'' [''method'', ''status''],
      co ''grpc_client_request_duration_seconds'' [''method''],
      co ''grpc_server_requests_total'' [''method'', ''status''],
      co ''grpc_server_request_duration_seconds'' [''method'']]"

definition http_collectors :: "collector list" where
  "http_collectors =
     [co ''http_requests_total'' [''method'', ''path'', ''status_code''],
      co ''http_request_duration_seconds'' [''method'', ''path'', ''status_code'']]"

definition kafka_collectors :: "collector list" where
  "kafka_collectors =
     [co ''kafka_messages_total'' [''topic'', ''type''], co ''kafka_errors_total'' [''topic'', ''type''],
      co ''kafka_consumer_lag'' [''topic''], co ''kafka_latency_seconds'' [''topic'', ''type'']]"

definition redis_collectors :: "collector list" where
  "redis_collectors = [co ''redis_query_duration_seconds'' [''command''], co ''redis_connections'' [''state'']]"

definition vault_collectors :: "collector list" where
  "vault_collectors =
     [co ''vault_secret_access_total'' [''type'', ''mount'', ''path''],
      co ''vault_errors_total'' [''type'', ''mount'', ''path''],
      co ''vault_request_duration_seconds'' [''type'', ''mount'', ''path'']]"

definition registry_Register :: "collector \<Rightarrow> collector list \<Rightarrow> collector list \<times> gerror" where
  "registry_Register c reg =
     (if co_Name c \<in> co_Name ` set reg then (reg, Some (Sentinel ''duplicate metrics collector registration attempted''))
      else (reg @ [c], None))"

fun MustRegister :: "collector list \<Rightarrow> collector list \<Rightarrow> collector list go" where
  "MustRegister [] reg = Ok reg"
| "MustRegister (c # cs) reg =
     (case registry_Register c reg of
        (reg, Some err) \<Rightarrow> Panic ''duplicate metrics collector registration attempted''
      | (reg, None) \<Rightarrow> MustRegister cs reg)"

text \<open>The initialisation of the package, with the default registry as it is: the pair of the two registries.\<close>

definition metrics_package_init :: "collector list \<Rightarrow> (collector list \<times> collector list) go" where
  "metrics_package_init default_reg =
     go_bind (MustRegister grpc_collectors default_reg) (\<lambda>default_reg.
     go_bind (MustRegister db_collectors []) (\<lambda>reg.
     go_bind (MustRegister grpc_collectors reg) (\<lambda>reg.
     go_bind (MustRegister http_collectors reg) (\<lambda>reg.
     go_bind (MustRegister kafka_collectors reg) (\<lambda>reg.
     go_bind (MustRegister redis_collectors reg) (\<lambda>reg.
     go_bind (MustRegister vault_collectors reg) (\<lambda>reg. Ok (default_reg, reg))))))))"

text \<open>\<open>sys\<close> are the collectors of the Go runtime and of the process.\<close>

definition metrics_Init :: "collector list \<Rightarrow> collector list \<Rightarrow> collector list go" where
  "metrics_Init sys reg = MustRegister sys reg"

text \<open>\<^verbatim>\<open>WithLabelValues\<close> panics unless there is a value for each label.\<close>

definition WithLabelValues :: "collector \<Rightarrow> string list \<Rightarrow> (string \<times> string list) go" where
  "WithLabelValues c vals =
     (if length vals = length (co_Labels c) then Ok (co_Name c, vals) else Panic ''inconsistent label cardinality'')"

subsection \<open>Names\<close>

lemma MustRegister_Ok:
  "MustRegister cs reg = Ok (reg @ cs) \<longleftrightarrow>
     distinct (map co_Name cs) \<and> co_Name ` set cs \<inter> co_Name ` set reg = {}"
proof (induction cs arbitrary: reg)
  case Nil
  then show ?case by simp
next
  case (Cons c cs)
  show ?case
  proof (cases "co_Name c \<in> co_Name ` set reg")
    case True
    then show ?thesis by (auto simp: registry_Register_def)
  next
    case False
    with Cons.IH [of "reg @ [c]"] show ?thesis by (auto simp: registry_Register_def)
  qed
qed

lemma MustRegister_result:
  "MustRegister cs reg = Ok (reg @ cs) \<or> (\<exists>p. MustRegister cs reg = Panic p)"
proof (induction cs arbitrary: reg)
  case (Cons c cs)
  then show ?case using Cons.IH [of "reg @ [c]"] by (auto simp: registry_Register_def)
qed simp

definition platform_collectors :: "collector list" where
  "platform_collectors = db_collectors @ grpc_collectors @ http_collectors @ kafka_collectors @ redis_collectors @ vault_collectors"

lemmas collector_defs = db_collectors_def grpc_collectors_def http_collectors_def kafka_collectors_def
  redis_collectors_def vault_collectors_def co_def

lemma platform_names_distinct: "distinct (map co_Name platform_collectors)"
  by (simp add: platform_collectors_def collector_defs)

lemma metrics_package_init_Ok:
  assumes "co_Name ` set grpc_collectors \<inter> co_Name ` set default_reg = {}"
  shows "metrics_package_init default_reg = Ok (default_reg @ grpc_collectors, platform_collectors)"
proof -
  have d: "MustRegister grpc_collectors default_reg = Ok (default_reg @ grpc_collectors)"
    unfolding MustRegister_Ok using assms by (simp add: collector_defs)
  have step: "MustRegister cs reg = Ok (reg @ cs)" if "distinct (map co_Name (reg @ cs))" for cs reg
    unfolding MustRegister_Ok using that by auto
  have "MustRegister db_collectors [] = Ok ([] @ db_collectors)"
    "MustRegister grpc_collectors db_collectors = Ok (db_collectors @ grpc_collectors)"
    "MustRegister http_collectors (db_collectors @ grpc_collectors) = Ok ((db_collectors @ grpc_collectors) @ http_collectors)"
    "MustRegister kafka_collectors ((db_collectors @ grpc_collectors) @ http_collectors) =
       Ok (((db_collectors @ grpc_collectors) @ http_collectors) @ kafka_collectors)"
    "MustRegister redis_collectors (((db_collectors @ grpc_collectors) @ http_collectors) @ kafka_collectors) =
       Ok ((((db_collectors @ grpc_collectors) @ http_collectors) @ kafka_collectors) @ redis_collectors)"
    "MustRegister vault_collectors ((((db_collectors @ grpc_collectors) @ http_collectors) @ kafka_collectors) @ redis_collectors) =
       Ok (((((db_collectors @ grpc_collectors) @ http_collectors) @ kafka_collectors) @ redis_collectors) @ vault_collectors)"
    by (rule step, simp add: collector_defs)+
  then show ?thesis by (simp add: metrics_package_init_def d platform_collectors_def)
qed

lemma metrics_Init_twice:
  assumes "metrics_Init sys reg = Ok reg'" and "sys \<noteq> []"
  shows "\<exists>p. metrics_Init sys reg' = Panic p"
proof -
  have "reg' = reg @ sys" using assms(1) MustRegister_result [of sys reg] by (auto simp: metrics_Init_def)
  with assms(2) have "co_Name (hd sys) \<in> co_Name ` set sys \<inter> co_Name ` set reg'" by simp
  then have "MustRegister sys reg' \<noteq> Ok (reg' @ sys)" by (metis MustRegister_Ok empty_iff)
  then show ?thesis using MustRegister_result [of sys reg'] by (auto simp: metrics_Init_def)
qed

end
