(* ===== verification/Catalogue_Log.thy ===== *)
theory Catalogue_Log
  imports Localizer
begin

section \<open>The message catalogue refines a log of writes\<close>

text \<open>
  An abstract catalogue is the list of the messages written so far, the latest first, each with the delimiters
  that were set at that time, and the languages in the order in which they came.  A lookup is the latest write of its
  key; there are no maps of maps, templates, parsed texts or matchers.  \<open>represents\<close> relates a bundle of
  \<^verbatim>\<open>internal/pkg/localize/localize\<close> to such a log; every operation keeps it, and the localizer says what the log
  says, for every sequence of \<^verbatim>\<open>SetDelim\<close>, \<^verbatim>\<open>AddMessages\<close>, \<^verbatim>\<open>AddRawMessages\<close>, \<^verbatim>\<open>GetWithParams\<close> and \<^verbatim>\<open>TryGetWithParams\<close>.
\<close>

record ('tag, 'f) catalogue_log =
  cl_default :: 'tag
  cl_rules :: "('tag, 'f) rules"
  cl_tags :: "'tag list"
  cl_delims :: "string \<times> string"
  cl_writes :: "(('tag \<times> string) \<times> Message \<times> string \<times> string) list"

definition log_tag :: "'tag \<Rightarrow> ('tag, 'f) catalogue_log \<Rightarrow> ('tag, 'f) catalogue_log" where
  "log_tag tag s = (if tag \<in> set (cl_tags s) then s else s\<lparr>cl_tags := cl_tags s @ [tag]\<rparr>)"

definition log_put :: "'tag \<Rightarrow> ('tag, 'f) catalogue_log \<Rightarrow> Message \<Rightarrow> ('tag, 'f) catalogue_log" where
  "log_put tag s m = s\<lparr>cl_writes := ((tag, m_ID m), m, fst (cl_delims s), snd (cl_delims s)) # cl_writes s\<rparr>"

fun log_put_raw ::
    "'tag \<Rightarrow> (string \<times> string) list \<Rightarrow> ('tag, 'f) catalogue_log \<Rightarrow> (('tag, 'f) catalogue_log \<times> 'tag loc_error option) go" where
  "log_put_raw tag [] s = Ok (s, None)"
| "log_put_raw tag ((key, icu) # msgs) s =
     (case parseICU key icu of
        Ok m \<Rightarrow> log_put_raw tag msgs (log_put tag s m)
      | Err err \<Rightarrow> Ok (s, Some (LocErr err))
      | Panic p \<Rightarrow> Panic p)"

definition log_AddMessages ::
    "'tag lang_ops \<Rightarrow> 'tag \<Rightarrow> Message list \<Rightarrow> ('tag, 'f) catalogue_log \<Rightarrow>
     (('tag, 'f) catalogue_log \<times> 'tag loc_error option) option" where
  "log_AddMessages L tag ms s =
     map_option (\<lambda>rule. case rule of None \<Rightarrow> (s, Some (NoPluralRule tag))
       | Some _ \<Rightarrow> (foldl (log_put tag) (log_tag tag s) ms, None)) (Rule L (cl_rules s) tag)"

definition log_AddRawMessages ::
    "'tag lang_ops \<Rightarrow> 'tag \<Rightarrow> (string \<times> string) list \<Rightarrow> ('tag, 'f) catalogue_log \<Rightarrow>
     (('tag, 'f) catalogue_log \<times> 'tag loc_error option) go option" where
  "log_AddRawMessages L tag msgs s =
     map_option (\<lambda>rule. case rule of None \<Rightarrow> Ok (s, Some (NoPluralRule tag))
       | Some _ \<Rightarrow> log_put_raw tag msgs (log_tag tag s)) (Rule L (cl_rules s) tag)"

text \<open>
  What a key says: the latest write under the tag, or under the default tag when that has no text at all; then the
  text of the form, parsed with the delimiters of the write.
\<close>

definition log_message :: "'tag \<Rightarrow> string \<Rightarrow> ('tag, 'f) catalogue_log \<Rightarrow> (Message \<times> string \<times> string) option" where
  "log_message tag mid s =
     (case map_of (cl_writes s) (tag, mid) of
        None \<Rightarrow> None
      | Some (m, l, r) \<Rightarrow> if \<forall>f \<in> set all_forms. message_source m f = [] then None else Some (m, l, r))"

definition log_lookup :: "'tag \<Rightarrow> string \<Rightarrow> ('tag, 'f) catalogue_log \<Rightarrow> (Message \<times> string \<times> string) option" where
  "log_lookup tag mid s =
     (case log_message tag mid s of Some e \<Rightarrow> Some e | None \<Rightarrow> log_message (cl_default s) mid s)"

definition log_text ::
    "('p, 'v) tmpl_engine \<Rightarrow> Message \<times> string \<times> string \<Rightarrow> form \<Rightarrow> (string \<rightharpoonup> 'v) option \<Rightarrow> 'tag loc_error + string" where
  "log_text E e form data =
     (case e of (m, l, r) \<Rightarrow>
        if message_source m form = [] then Inl (pluralFormNotFoundError form (m_ID m))
        else (case TextParser_Parse E [] (message_source m form) l r of
                Inl err \<Rightarrow> Inl (LocErr err)
              | Inr pt \<Rightarrow> (case parsed_Execute E pt data of Inl err \<Rightarrow> Inl (LocErr err) | Inr t \<Rightarrow> Inr t)))"

definition log_say ::
    "('tag, 'f, 'p, 'v) loc_env \<Rightarrow> 'tag \<Rightarrow> string \<Rightarrow> 'f operands option \<Rightarrow> (string \<rightharpoonup> 'v) option \<Rightarrow> ('tag, 'f) catalogue_log \<Rightarrow>
     (string \<times> 'tag loc_error option) go option" where
  "log_say env tag key operands data s =
     (let form = (case operands of None \<Rightarrow> Some (Ok Other)
        | Some ops \<Rightarrow> map_option (\<lambda>r. case r of None \<Rightarrow> Panic ''nil pointer dereference''
            | Some rule \<Rightarrow> Ok (PluralFormFunc rule ops)) (Rule (le_lang env) (cl_rules s) tag))
      in map_option (\<lambda>form. go_bind form (\<lambda>form. Ok
        (case log_lookup tag key s of
           None \<Rightarrow> ([], Some (MessageNotFoundErr tag key))
         | Some e \<Rightarrow>
             (case log_text (le_engine env) e form data of
                Inr msg \<Rightarrow> (msg, None)
              | Inl err \<Rightarrow>
                  (if form = Other then []
                   else case log_text (le_engine env) e Other data :: 'tag loc_error + string of
                          Inl _ \<Rightarrow> [] | Inr msg \<Rightarrow> msg, Some err))))) form)"

definition log_localize ::
    "('tag, 'f, 'p, 'v) loc_env \<Rightarrow> 'tag list option \<Rightarrow> string \<Rightarrow> 'v localize_params \<Rightarrow> ('tag, 'f) catalogue_log \<Rightarrow>
     (string \<times> 'tag \<times> 'tag loc_error option) go option" where
  "log_localize env ctx key lc s =
     (let tag = (if Lang lc \<noteq> [] then Ok (le_Parse env (Lang lc))
        else case ctx of None \<Rightarrow> Ok (cl_default s, None)
           | Some prefs \<Rightarrow> (let i = le_match env (cl_tags s) prefs in
               if i < length (cl_tags s) then Ok (cl_tags s ! i, None) else Panic ''index out of range''))
      in case tag of
           Panic p \<Rightarrow> Some (Panic p)
         | Err e \<Rightarrow> Some (Err e)
         | Ok (tag, Some err) \<Rightarrow> Some (Ok (key, tag, Some (LocErr err)))
         | Ok (tag, None) \<Rightarrow>
             let said = (\<lambda>operands data. map_option (\<lambda>r. go_bind r (\<lambda>(msg, err). Ok (msg, tag, err)))
               (log_say env tag key operands data s))
             in (case PluralCount lc of
                  None \<Rightarrow> said None (TemplateData lc)
                | Some n \<Rightarrow>
                    (case NewOperands (le_float64 env) (le_ParseFloat env) n of
                       Panic p \<Rightarrow> Some (Panic p)
                     | Err err \<Rightarrow> Some (Ok ([], tag, Some (invalidPluralCountErr key n err)))
                     | Ok operands \<Rightarrow> said (Some operands) (fst (plural_data env n lc)))))"

subsection \<open>Operations of a client\<close>

datatype ('tag, 'v) catalogue_op =
    OpDelim string string
  | OpAdd 'tag "Message list"
  | OpAddRaw 'tag "(string \<times> string) list"
  | OpGet "'tag list option" string "'v localize_params"
  | OpTryGet "'tag list option" string "'v localize_params"

datatype 'tag answer = Returned "'tag loc_error option" | Said string "'tag loc_error option"

fun bundle_op ::
    "('tag, 'f, 'p, 'v) loc_env \<Rightarrow> ('tag, 'v) catalogue_op \<Rightarrow> ('tag, 'f, 'p) loc_bundle \<Rightarrow>
     (('tag, 'f, 'p) loc_bundle \<times> 'tag answer) go option" where
  "bundle_op env (OpDelim l r) b = Some (Ok (SetDelim l r b, Returned None))"
| "bundle_op env (OpAdd tag ms) b = map_option (\<lambda>(b, e). Ok (b, Returned e)) (AddMessages (le_lang env) tag ms b)"
| "bundle_op env (OpAddRaw tag msgs) b =
     map_option (\<lambda>r. go_bind r (\<lambda>(b, e). Ok (b, Returned e))) (AddRawMessages (le_lang env) tag msgs b)"
| "bundle_op env (OpGet ctx key lc) b =
     map_option (\<lambda>r. go_bind r (\<lambda>(t, b). Ok (b, Said t None))) (GetWithParams env ctx key lc b)"
| "bundle_op env (OpTryGet ctx key lc) b =
     map_option (\<lambda>r. go_bind r (\<lambda>(t, e). Ok (b, Said t e))) (TryGetWithParams env ctx key lc b)"

fun log_op ::
    "('tag, 'f, 'p, 'v) loc_env \<Rightarrow> ('tag, 'v) catalogue_op \<Rightarrow> ('tag, 'f) catalogue_log \<Rightarrow>
     (('tag, 'f) catalogue_log \<times> 'tag answer) go option" where
  "log_op env (OpDelim l r) s =
     Some (Ok (if l \<noteq> [] \<and> r \<noteq> [] then s\<lparr>cl_delims := (l, r)\<rparr> else s, Returned None))"
| "log_op env (OpAdd tag ms) s = map_option (\<lambda>(s, e). Ok (s, Returned e)) (log_AddMessages (le_lang env) tag ms s)"
| "log_op env (OpAddRaw tag msgs) s =
     map_option (\<lambda>r. go_bind r (\<lambda>(s, e). Ok (s, Returned e))) (log_AddRawMessages (le_lang env) tag msgs s)"
| "log_op env (OpGet ctx key lc) s =
     (case log_localize env ctx key lc s of
        Some (Ok (t, tag, None)) \<Rightarrow> Some (Ok (s, Said t None))
      | Some (Ok (t, tag, Some e)) \<Rightarrow>
          map_option (\<lambda>(s, e). Ok (s, Said key None)) (log_AddMessages (le_lang env) tag [key_message key] s)
      | Some (Err e) \<Rightarrow> Some (Err e)
      | Some (Panic p) \<Rightarrow> Some (Panic p)
      | None \<Rightarrow> None)"
| "log_op env (OpTryGet ctx key lc) s =
     map_option (\<lambda>r. go_bind r (\<lambda>(t, tag, e). Ok (s, Said t e))) (log_localize env ctx key lc s)"

text \<open>A sequence of operations and its answers; a panic ends it.\<close>

fun run_ops :: "('op \<Rightarrow> 's \<Rightarrow> ('s \<times> 'a) go option) \<Rightarrow> 'op list \<Rightarrow> 's \<Rightarrow> ('s \<times> 'a list) go option" where
  "run_ops step [] s = Some (Ok (s, []))"
| "run_ops step (x # xs) s =
     (case step x s of
        Some (Ok (s, a)) \<Rightarrow> map_option (\<lambda>r. go_bind r (\<lambda>(s, as). Ok (s, a # as))) (run_ops step xs s)
      | Some (Err e) \<Rightarrow> Some (Err e)
      | Some (Panic p) \<Rightarrow> Some (Panic p)
      | None \<Rightarrow> None)"

lemma run_ops_simulates:
  assumes "\<And>x s t. R s t \<Longrightarrow> rel_option (rel_go (rel_prod R (=))) (step x s) (step' x t)" and "R s t"
  shows "rel_option (rel_go (rel_prod R (=))) (run_ops step xs s) (run_ops step' xs t)"
  using assms(2)
proof (induction xs arbitrary: s t)
  case (Cons x xs)
  from assms(1) [OF Cons.prems, of x] show ?case
  proof (cases rule: option.rel_cases)
    case (Some r r')
    from Some(3) show ?thesis
    proof (cases rule: go.rel_cases)
      case (Ok y y')
      then obtain s1 t1 e where y: "y = (s1, e)" "y' = (t1, e)" "R s1 t1" by (auto elim: rel_prod.cases)
      from Cons.IH [OF y(3)] show ?thesis
        using Some Ok y by (auto elim!: option.rel_cases go.rel_cases)
    qed (use Some in auto)
  qed auto
qed simp

subsection \<open>The refinement\<close>

definition represents :: "('tag, 'f, 'p) loc_bundle \<Rightarrow> ('tag, 'f) catalogue_log \<Rightarrow> bool" where
  "represents b s \<longleftrightarrow> b_defaultLanguage b = cl_default s \<and> b_pluralRules b = cl_rules s \<and>
     b_tags b = cl_tags s \<and> b_matcher b = cl_tags s \<and> dom (b_messageTemplates b) \<subseteq> set (cl_tags s) \<and>
     (b_leftDelim b, b_rightDelim b) = cl_delims s \<and>
     (\<forall>tag mid. getMessage tag mid b =
        (case map_of (cl_writes s) (tag, mid) of None \<Rightarrow> None | Some (m, l, r) \<Rightarrow> newMessageTemplate m l r))"

lemma cl_tags_log_put [simp]: "cl_tags (log_put tag s m) = cl_tags s"
  by (simp add: log_put_def)

lemma represents_put:
  "represents b s \<Longrightarrow> tag \<in> set (cl_tags s) \<Longrightarrow> represents (put_template tag m b) (log_put tag s m)"
  by (cases "cl_delims s") (auto simp: represents_def log_put_def frame_simps getMessage_put_template)

lemma represents_put_templates:
  "represents b s \<Longrightarrow> tag \<in> set (cl_tags s) \<Longrightarrow> represents (put_templates tag ms b) (foldl (log_put tag) s ms)"
  by (induction tag ms b arbitrary: s rule: put_templates.induct) (auto simp: represents_put)

lemma represents_put_raw:
  "represents b s \<Longrightarrow> tag \<in> set (cl_tags s) \<Longrightarrow>
     rel_go (rel_prod represents (=)) (put_raw tag msgs b) (log_put_raw tag msgs s)"
  by (induction tag msgs b arbitrary: s rule: put_raw.induct) (auto simp: represents_put split: go.split)

lemma represents_ensure_tag:
  "represents b s \<Longrightarrow> represents (ensure_tag tag b) (log_tag tag s) \<and> tag \<in> set (cl_tags (log_tag tag s))"
  unfolding represents_def
  by (simp add: frame_simps) (auto simp: ensure_tag_def addTag_def log_tag_def list_ex_iff)

lemma represents_AddMessages:
  assumes "represents b s"
  shows "rel_option (rel_prod represents (=)) (AddMessages L tag ms b) (log_AddMessages L tag ms s)"
proof -
  note e = represents_ensure_tag [OF assms, of tag]
  have "b_pluralRules b = cl_rules s" using assms by (simp add: represents_def)
  then show ?thesis
    using assms represents_put_templates [OF conjunct1 [OF e] conjunct2 [OF e], of ms]
    by (auto simp: AddMessages_def log_AddMessages_def split: option.splits)
qed

lemma represents_AddRawMessages:
  assumes "represents b s"
  shows "rel_option (rel_go (rel_prod represents (=))) (AddRawMessages L tag msgs b) (log_AddRawMessages L tag msgs s)"
proof -
  note e = represents_ensure_tag [OF assms, of tag]
  have "b_pluralRules b = cl_rules s" using assms by (simp add: represents_def)
  then show ?thesis
    using assms represents_put_raw [OF conjunct1 [OF e] conjunct2 [OF e], of msgs]
    by (auto simp: AddRawMessages_def log_AddRawMessages_def split: option.splits)
qed

definition empty_log :: "'tag \<Rightarrow> ('tag, 'f) rules \<Rightarrow> ('tag, 'f) catalogue_log" where
  "empty_log d rules = \<lparr>cl_default = d, cl_rules = rules, cl_tags = [d], cl_delims = (''{'', ''}''), cl_writes = []\<rparr>"

lemma represents_NewBundle:
  assumes "NewBundle must_parse L English artTag d = Some (Ok b)"
  shows "represents b (empty_log d (b_pluralRules b))"
  using assms by (auto simp: empty_log_def represents_def NewBundle_def addTag_def getMessage_def split: go.splits)

subsection \<open>What the localizer says\<close>

lemma represents_entry:
  fixes b :: "('tag, 'f, 'p) loc_bundle"
  assumes "represents b s"
  shows "log_message tag mid s = None \<and> getMessage tag mid b = None \<or>
    (\<exists>m l r mt. log_message tag mid s = Some (m, l, r) \<and> newMessageTemplate m l r = Some mt \<and> getMessage tag mid b = Some mt)"
proof -
  have get: "getMessage tag mid b = (case map_of (cl_writes s) (tag, mid) of None \<Rightarrow> None | Some (m, l, r) \<Rightarrow> newMessageTemplate m l r)"
    using assms by (simp add: represents_def)
  show ?thesis
  proof (cases "map_of (cl_writes s) (tag, mid)")
    case (Some e)
    obtain m l r where e: "e = (m, l, r)" by (cases e)
    show ?thesis using get Some e
      by (cases "newMessageTemplate m l r :: 'p message_template option") (auto simp: log_message_def all_forms_complete newMessageTemplate_eq split: if_splits)
  qed (simp add: get log_message_def)
qed

lemma render_text:
  assumes "newMessageTemplate m l r = Some mt"
  shows "render env mt form data = log_text (le_engine env) (m, l, r) form data"
  using assms
  by (auto simp: newMessageTemplate_eq render_def mt_Execute_def template_Execute_def log_text_def split: if_splits sum.splits)

lemma log_lookup_default [simp]:
  "log_lookup (cl_default s) mid s = log_message (cl_default s) mid s"
  by (simp add: log_lookup_def split: option.split)

lemma represents_say:
  assumes "represents b s"
  shows "map_option (\<lambda>res. go_bind res (\<lambda>(form, mt, err).
        case mt of None \<Rightarrow> Ok ([], tag, err, lc)
        | Some template \<Rightarrow> let (msg, err') = execute_with_fallback env form template data err in Ok (msg, tag, err', lc)))
      (GetMessageTemplate (le_lang env) tag key operands b) =
    map_option (\<lambda>r. go_bind r (\<lambda>(msg, err). Ok (msg, tag, err, lc))) (log_say env tag key operands data s)"
proof -
  have d: "b_defaultLanguage b = cl_default s" "b_pluralRules b = cl_rules s" using assms by (simp_all add: represents_def)
  have form: "pluralForm (le_lang env) tag operands b = (case operands of None \<Rightarrow> Some (Ok Other)
        | Some ops \<Rightarrow> map_option (\<lambda>r. case r of None \<Rightarrow> Panic ''nil pointer dereference''
            | Some rule \<Rightarrow> Ok (PluralFormFunc rule ops)) (Rule (le_lang env) (cl_rules s) tag))"
    unfolding pluralForm_def d ..
  have "go_bind (go_bind pf (\<lambda>form. Ok
       (case getMessage tag key b of
          Some mt \<Rightarrow> (form, Some mt, None)
        | None \<Rightarrow>
            if tag = b_defaultLanguage b then (Invalid, None, Some (MessageNotFoundErr tag key))
            else (case getMessage (b_defaultLanguage b) key b of
                    Some mt \<Rightarrow> (form, Some mt, None)
                  | None \<Rightarrow> (Invalid, None, Some (MessageNotFoundErr tag key))))))
      (\<lambda>(form, mt, err). case mt of None \<Rightarrow> Ok ([], tag, err, lc)
        | Some template \<Rightarrow> let (msg, err') = execute_with_fallback env form template data err in Ok (msg, tag, err', lc)) =
      go_bind (go_bind pf (\<lambda>form. Ok
        (case log_lookup tag key s of
           None \<Rightarrow> ([], Some (MessageNotFoundErr tag key))
         | Some e \<Rightarrow>
             (case log_text (le_engine env) e form data of
                Inr msg \<Rightarrow> (msg, None)
              | Inl err \<Rightarrow>
                  (if form = Other then []
                   else case log_text (le_engine env) e Other data :: 'a loc_error + string of
                          Inl _ \<Rightarrow> [] | Inr msg \<Rightarrow> msg, Some err)))))
      (\<lambda>(msg, err). Ok (msg, tag, err, lc))" for pf
    using represents_entry [OF assms, of tag key] represents_entry [OF assms, of "cl_default s" key]
    by (cases pf) (auto simp: log_lookup_def d execute_with_fallback_def render_text Let_def split: sum.splits)
  then show ?thesis
    unfolding GetMessageTemplate_def log_say_def Let_def form by (simp add: option.map_comp comp_def)
qed

lemma map_option_drop:
  "map_option (\<lambda>r. go_bind r (\<lambda>(t, tag, e, lc'). Ok (t, tag, e)))
      (map_option (\<lambda>r. go_bind r (\<lambda>(msg, err). Ok (msg, tag, err, lc'))) x) =
   map_option (\<lambda>r. go_bind r (\<lambda>(msg, err). Ok (msg, tag, err))) x"
proof (cases x)
  case (Some r)
  then show ?thesis by (cases r) auto
qed simp

lemma represents_localize:
  assumes "represents b s"
  shows "map_option (\<lambda>r. go_bind r (\<lambda>(t, tag, e, lc'). Ok (t, tag, e))) (localizeWithTag env ctx key lc b) =
    log_localize env ctx key lc s"
proof -
  have t: "getLangTag env ctx lc b = (if Lang lc \<noteq> [] then Ok (le_Parse env (Lang lc))
        else case ctx of None \<Rightarrow> Ok (cl_default s, None)
           | Some prefs \<Rightarrow> (let i = le_match env (cl_tags s) prefs in
               if i < length (cl_tags s) then Ok (cl_tags s ! i, None) else Panic ''index out of range''))"
    using assms by (auto simp: getLangTag_def GetTagFromContext_def represents_def Let_def split: option.splits)
  note said = represents_say [OF assms, unfolded Let_def]
  show ?thesis
    unfolding localizeWithTag_def log_localize_def t Let_def said
    by (simp add: map_option_drop split: go.split option.split prod.split)
qed

text \<open>The main lemma: an operation on the bundle and on the log gives the same answer and related states.\<close>

lemma represents_op:
  assumes "represents b s"
  shows "rel_option (rel_go (rel_prod represents (=))) (bundle_op env x b) (log_op env x s)"
proof (cases x)
  case (OpDelim l r)
  with assms show ?thesis by (auto simp: SetDelim_def represents_def getMessage_def)
next
  case (OpAdd tag ms)
  with represents_AddMessages [OF assms, of "le_lang env" tag ms] show ?thesis
    by (auto elim!: option.rel_cases)
next
  case (OpAddRaw tag msgs)
  with represents_AddRawMessages [OF assms, of "le_lang env" tag msgs] show ?thesis
    by (auto elim!: option.rel_cases go.rel_cases)
next
  case (OpTryGet ctx key lc)
  have "TryGetWithParams env ctx key lc b = map_option (\<lambda>r. go_bind r (\<lambda>(t, tag, e). Ok (t, e))) (log_localize env ctx key lc s)"
    unfolding represents_localize [OF assms, symmetric] TryGetWithParams_def
    by (cases "localizeWithTag env ctx key lc b"; cases "the (localizeWithTag env ctx key lc b)") auto
  then show ?thesis
    using assms OpTryGet
    by (cases "log_localize env ctx key lc s"; cases "the (log_localize env ctx key lc s)") auto
next
  case (OpGet ctx key lc)
  note loc = represents_localize [OF assms, of env ctx key lc, symmetric]
  show ?thesis
  proof (cases "localizeWithTag env ctx key lc b")
    case None
    with loc OpGet show ?thesis by (auto simp: GetWithParams_def)
  next
    case (Some r)
    show ?thesis
    proof (cases r)
      case (Ok y)
      obtain t tag e lc' where y: "y = (t, tag, e, lc')" by (metis prod_cases4)
      show ?thesis
      proof (cases e)
        case None
        with Some Ok y loc OpGet assms show ?thesis by (auto simp: GetWithParams_def)
      next
        case (Some err)
        with \<open>localizeWithTag env ctx key lc b = Some r\<close> Ok y loc OpGet
          represents_AddMessages [OF assms, of "le_lang env" tag "[key_message key]"]
        show ?thesis by (auto simp: GetWithParams_def elim!: option.rel_cases)
      qed
    qed (use Some loc OpGet in \<open>auto simp: GetWithParams_def\<close>)
  qed
qed

lemma catalogue_simulation:
  "represents b s \<Longrightarrow> rel_option (rel_go (rel_prod represents (=))) (run_ops (bundle_op env) ops b) (run_ops (log_op env) ops s)"
  by (rule run_ops_simulates [of represents, OF represents_op])

end
