(* ===== verification/Consul_Restart.thy ===== *)
theory Consul_Restart
  imports Config_Sources
begin

section \<open>What a restart reads from Consul\<close>

text \<open>
  \<^verbatim>\<open>Bootstrap\<close> of the configuration store over the provider of Consul (\<^verbatim>\<open>internal/pkg/config/config.go\<close>,
  \<^verbatim>\<open>internal/pkg/config_provider/consul\<close>), composed with the load of the next start.  \<open>holds_paths\<close> says which
  paths are stored below a prefix.  The lemmas show that a save extends the paths that are there by the ones of the
  configuration that are not, and that a load reads exactly the stored paths.
\<close>

text \<open>What Consul documents of a list request: the pairs below the prefix, each once.\<close>

definition ck_lists :: "'kv consul_kv \<Rightarrow> ('kv \<Rightarrow> string \<Rightarrow> string option) \<Rightarrow> bool" where
  "ck_lists K get \<longleftrightarrow> (\<forall>p kv pairs. ck_list K p kv = Inr pairs \<longrightarrow>
     distinct (map fst pairs) \<and> (\<forall>k v. (k, v) \<in> set pairs \<longleftrightarrow> get kv k = Some v \<and> has_prefix k p))"

text \<open>The errors of the Consul client are not the repository's own sentinel.\<close>

definition cas_errors_foreign :: "'kv consul_kv \<Rightarrow> bool" where
  "cas_errors_foreign K \<longleftrightarrow> (\<forall>k v kv e. snd (ck_cas K k v kv) = Some e \<longrightarrow> \<not> errors_is e cp_ErrUnsupported)"

definition holds_paths ::
    "('kv \<Rightarrow> string \<Rightarrow> string option) \<Rightarrow> string \<Rightarrow> (string list \<times> string) list \<Rightarrow> 'kv \<Rightarrow> bool" where
  "holds_paths get pfx P kv \<longleftrightarrow> consistent P \<and> (\<forall>(p, b) \<in> set P. slash_free p) \<and>
     (\<forall>k v. has_prefix k pfx \<longrightarrow> (get kv k = Some v \<longleftrightarrow> (\<exists>p. (p, v) \<in> set P \<and> k = path_key pfx p)))"

lemma has_prefix_path_key: "has_prefix (path_key pfx p) pfx"
  by (simp add: path_key_def has_prefix_def)

lemma load_holds:
  assumes "ck_lists K get" and "holds_paths get pfx P kv" and "consulProvider_Get K pfx kv = Inr d"
  shows "leaf_at d r = Some x \<longleftrightarrow> (\<exists>v. (r, v) \<in> set P \<and> x = VString v)"
proof -
  obtain pairs where pairs: "ck_list K pfx kv = Inr pairs" "d = convertPairsToObject pfx pairs"
    using assms(3) by (auto simp: consulProvider_Get_def consul_GetConfig_def split: sum.splits)
  have "kb \<in> set pairs \<longleftrightarrow> kb \<in> (\<lambda>(p, b). (path_key pfx p, b)) ` set P" for kb
  proof -
    obtain k b where kb: "kb = (k, b)" by (cases kb)
    have "kb \<in> set pairs \<longleftrightarrow> get kv k = Some b \<and> has_prefix k pfx"
      using assms(1) pairs(1) unfolding ck_lists_def kb by blast
    also have "\<dots> \<longleftrightarrow> (\<exists>p. (p, b) \<in> set P \<and> k = path_key pfx p)"
      using assms(2) has_prefix_path_key unfolding holds_paths_def by metis
    also have "\<dots> \<longleftrightarrow> kb \<in> (\<lambda>(p, b). (path_key pfx p, b)) ` set P"
      by (force simp: kb image_iff)
    finally show ?thesis .
  qed
  then have "set pairs = (\<lambda>(p, b). (path_key pfx p, b)) ` set P" by blast
  with assms(2) show ?thesis
    unfolding pairs(2) holds_paths_def by (intro convertPairs_paths) blast+
qed

subsection \<open>The paths after a save\<close>

definition merged_paths :: "('f \<Rightarrow> string) \<Rightarrow> 'f config_data \<Rightarrow> (string list \<times> string) list \<Rightarrow> (string list \<times> string) list" where
  "merged_paths fmt m old = old @ filter (\<lambda>(p, b). p \<notin> fst ` set old) (entry_paths fmt m)"

lemma set_merged_paths:
  assumes "wf_entries m"
  shows "(p, b) \<in> set (merged_paths fmt m old) \<longleftrightarrow>
    (p, b) \<in> set old \<or> p \<notin> fst ` set old \<and> (\<exists>v. leaf_at m p = Some v \<and> anyToBytes fmt v = Inr b)"
  using entry_paths_leaf(2) [OF assms, of p b fmt] by (auto simp: merged_paths_def)

lemma leaf_prefix:
  "leaf_at m p = Some v \<Longrightarrow> leaf_at m q = Some w \<Longrightarrow> prefix p q \<Longrightarrow> p = q"
  using value_at_below [of m p _ q] by (force simp: leaf_at_def strict_prefix_def split: option.splits if_splits)

lemma consistent_merged_paths:
  assumes "wf_entries m" and "consistent old" and cover: "\<forall>(p, b) \<in> set old. leaf_at m p \<noteq> None"
  shows "consistent (merged_paths fmt m old)"
proof -
  have leaf: "leaf_at m p \<noteq> None" if "(p, b) \<in> set (merged_paths fmt m old)" for p b
    using that cover unfolding set_merged_paths [OF assms(1)] by auto
  have same: "b = c" if "(p, b) \<in> set (merged_paths fmt m old)" "(p, c) \<in> set (merged_paths fmt m old)" for p b c
    using that assms(2) unfolding set_merged_paths [OF assms(1)] consistent_def
    by (auto simp: image_iff)
  show ?thesis
    unfolding consistent_def
  proof (clarify, intro conjI ballI)
    fix p b assume p: "(p, b) \<in> set (merged_paths fmt m old)"
    then show "p \<noteq> []" using leaf [OF p] by (auto simp: leaf_at_def)
    show "case qw of (q, w) \<Rightarrow> prefix p q \<longrightarrow> p = q \<and> b = w" if "qw \<in> set (merged_paths fmt m old)" for qw
    proof (clarify)
      fix q w assume q: "qw = (q, w)" "prefix p q"
      then have "p = q" using leaf [OF p] leaf [of q w] that leaf_prefix by blast
      with same p that q(1) show "p = q \<and> b = w" by blast
    qed
  qed
qed

lemma Set_holds:
  assumes "cas_creates K get" and "\<forall>data. mset (schedule data) = mset data"
    and holds: "holds_paths get pfx old kv"
    and wf: "wf_entries m" and cover: "\<forall>(p, b) \<in> set old. leaf_at m p \<noteq> None"
    and run: "consulProvider_Set K fmt schedule pfx (Some m) kv = (kv', None)"
  shows "holds_paths get pfx (merged_paths fmt m old) kv'"
proof -
  obtain data err where c: "convertObjectToKeys fmt pfx (Some m) = (Some data, err)"
    by (auto simp: convertObjectToKeys_def split: prod.splits)
  note data = convertObjectToKeys_set [OF wf c]
  have set: "set (schedule data) = set data" using assms(2) by (metis set_mset_mset)
  have d: "distinct (map fst (schedule data))" using assms(2) data by (metis mset_eq_imp_distinct_iff mset_map)
  have "save_all K (schedule data) None kv = (kv', None)"
    using run c data by (simp add: consulProvider_Set_def)
  note saved = this
  have same: "map_of (schedule data) = map_of data" using set d data by (simp add: map_of_inject_set)
  have get: "get kv' k = (case get kv k of Some v \<Rightarrow> Some v | None \<Rightarrow> map_of data k)" for k
    using save_all_creates [OF assms(1) saved d, of k] unfolding same .
  have free: "slash_free p" if "(p, b) \<in> set (merged_paths fmt m old)" for p b
    using that holds path_keys [OF wf, of p b fmt] by (auto simp: holds_paths_def merged_paths_def)
  have "get kv' k = Some v \<longleftrightarrow> (\<exists>p. (p, v) \<in> set (merged_paths fmt m old) \<and> k = path_key pfx p)"
    if k: "has_prefix k pfx" for k v
  proof -
    have inj: "p = q" if "(p, b) \<in> set old" "(q, c) \<in> set (entry_paths fmt m)" "path_key pfx p = path_key pfx q" for p q b c
      using that holds path_keys [OF wf that(2)] unfolding holds_paths_def consistent_def
      by (intro path_key_inj) blast+
    have old: "get kv k = Some b \<longleftrightarrow> (\<exists>p. (p, b) \<in> set old \<and> k = path_key pfx p)" for b
      using holds k unfolding holds_paths_def by blast
    have new: "map_of data k = Some b \<longleftrightarrow> (\<exists>p. (p, b) \<in> set (entry_paths fmt m) \<and> k = path_key pfx p)" for b
      using data by (force simp: image_iff)
    show ?thesis
    proof (cases "get kv k")
      case None
      then have "\<nexists>p b. (p, b) \<in> set old \<and> k = path_key pfx p" using old by fastforce
      then show ?thesis unfolding get None option.case new by (fastforce simp: merged_paths_def)
    next
      case (Some b)
      then obtain p where p: "(p, b) \<in> set old" "k = path_key pfx p" using old by blast
      have "v = b" if q: "(q, v) \<in> set (merged_paths fmt m old)" "k = path_key pfx q" for q
      proof -
        have "(q, v) \<in> set old"
          using q p inj [OF p(1), of q v] by (force simp: merged_paths_def)
        then show ?thesis using old [of v] q(2) Some by auto
      qed
      moreover have "(p, b) \<in> set (merged_paths fmt m old)" using p(1) by (simp add: merged_paths_def)
      ultimately show ?thesis unfolding get Some option.case using p(2) by blast
    qed
  qed
  then show ?thesis
    using consistent_merged_paths [OF wf _ cover] holds free unfolding holds_paths_def by blast
qed

lemma merged_leaf:
  assumes "wf_entries m" and l: "\<And>x. l = Some x \<longleftrightarrow> (\<exists>v. (path, v) \<in> set old \<and> x = VString v)"
  shows "(\<exists>v. (path, v) \<in> set (merged_paths fmt m old) \<and> x = VString v) \<longleftrightarrow>
    (case l of Some y \<Rightarrow> Some y | None \<Rightarrow> stored_leaf fmt m path) = Some x"
proof (cases l)
  case None
  then have "path \<notin> fst ` set old" using l by fastforce
  then have "(path, v) \<in> set (merged_paths fmt m old) \<longleftrightarrow> (\<exists>w. leaf_at m path = Some w \<and> anyToBytes fmt w = Inr v)" for v
    unfolding set_merged_paths [OF assms(1)] by force
  then show ?thesis using None by (auto simp: stored_leaf_def split: option.splits sum.splits)
next
  case (Some y)
  then have "path \<in> fst ` set old" using l [of y] by force
  then have "(path, v) \<in> set (merged_paths fmt m old) \<longleftrightarrow> (path, v) \<in> set old" for v
    unfolding set_merged_paths [OF assms(1)] by blast
  then show ?thesis using l [of x] Some by simp
qed

subsection \<open>The bootstrap, and the next start\<close>

lemma Set_keeps_or_Unsupported:
  assumes "cas_errors_foreign K" and "save_all K data first kv = (kv', Some err)"
    and "\<forall>e. first = Some e \<longrightarrow> \<not> errors_is e cp_ErrUnsupported"
  shows "\<not> errors_is err cp_ErrUnsupported"
  using assms(2,3)
proof (induction data arbitrary: first kv)
  case (Cons p data)
  obtain k v where p: "p = (k, v)" by (cases p)
  obtain kv1 e where i: "consul_Insert K k v kv = (kv1, e)" by force
  have "\<not> errors_is x cp_ErrUnsupported" if x: "e = Some x" for x
  proof -
    obtain y where "snd (ck_cas K k v kv) = Some y" "x = Wrapped ''failed to create consul config'' y"
      using i x by (auto simp: consul_Insert_def split: prod.splits option.splits)
    with assms(1) show ?thesis by (auto simp: cas_errors_foreign_def cp_ErrUnsupported_def)
  qed
  then show ?case
    using Cons by (cases e) (auto simp: p i SaveError_def cp_ErrUnsupported_def split: option.splits)
qed simp

lemma Bootstrap_holds:
  fixes V :: "('v, 'f) viper_ops"
  assumes "cas_creates K get" and "cas_errors_foreign K" and "\<forall>data. mset (schedule data) = mset data"
    and holds: "holds_paths get pfx old kv"
    and v: "vp_ReadInConfig V [cfg_path c, ''.''] (cfg_file c) False = Inr v"
    and d: "consulProvider_Get K pfx kv = Inr d" and v': "vp_MergeConfigMap V d v = (v', None)"
    and wf: "wf_entries (vp_AllSettings V v')" and cover: "\<forall>(p, b) \<in> set old. leaf_at (vp_AllSettings V v') p \<noteq> None"
    and run: "Bootstrap V (consul_provider K fmt schedule parse_plan pfx) c (kv, cl) = ((kv', cl'), None)"
  shows "holds_paths get pfx (merged_paths fmt (vp_AllSettings V v') old) kv'"
proof -
  let ?m = "vp_AllSettings V v'"
  obtain err where s: "consulProvider_Set K fmt schedule pfx (Some ?m) kv = (kv', err)"
    and err: "err = None \<or> (\<exists>e. err = Some e \<and> errors_is e cp_ErrUnsupported)"
    using run v d v' by (auto simp: Bootstrap_def consul_provider_def split: prod.splits option.splits if_splits)
  have "err = None"
  proof (rule ccontr)
    assume "err \<noteq> None"
    then obtain e where e: "err = Some e" "errors_is e cp_ErrUnsupported" using err by blast
    obtain data err' where c: "convertObjectToKeys fmt pfx (Some ?m) = (Some data, err')"
      by (auto simp: convertObjectToKeys_def split: prod.splits)
    then have "save_all K (schedule data) None kv = (kv', Some e)"
      using s e convertObjectToKeys_set [OF wf c] by (simp add: consulProvider_Set_def)
    from Set_keeps_or_Unsupported [OF assms(2) this] e show False by simp
  qed
  with s Set_holds [OF assms(1,3) holds wf cover] show ?thesis by simp
qed

end
