(* ===== verification/Spec2Isabelle.thy ===== *)
theory Spec2Isabelle
  imports Plural_Cldr Translations Application_Start Config_Watch Kafka_Run Workflow Redis Database S3 Observability Gorm_Metrics Grpc_Streams Swagger_Loader Metrics_Registry Catalogue_Log Consul_Restart
begin

text \<open>
  A model of the backend platform library and what makes it correct.  The library starts a
  service: an \<^verbatim>\<open>Application\<close> is built from options, each of which adds components to a registry; the
  components are initialised and run in the order of the registry, register closers, health checks
  and middlewares, and put the clients they create into a dependency container; a signal closes
  everything.  Around it stand the configuration (files, Consul, Vault), the localisation of messages
  with CLDR plural rules, and the clients of gRPC, Kafka, Redis, S3, databases and a workflow engine.

  \<^bold>\<open>Conventions.\<close>  A Go function is a HOL function that takes the state it reads and returns the state
  it leaves; a pointer that is shared is an index into a store.  \<^verbatim>\<open>error\<close> values are \<open>gerr\<close> with the
  wrapping that \<^verbatim>\<open>errors.Is\<close> sees, \<^verbatim>\<open>nil\<close> is \<open>None\<close>; the type \<open>'a go\<close> has a result, an error or a run-time
  panic.  \<^verbatim>\<open>int64\<close> values are integers with the wrap-around written out (\<open>wrap64\<close>), Go's remainder is
  \<open>go_rem\<close>, a string is its list of bytes.  Where Go iterates over a map, or goroutines race, the order
  is an argument of the definition, and the theorems hold for every order.  A loop that the code does
  not bound is \<open>partial_function (option)\<close>: \<open>None\<close> is a call that does not return, and the theorems say
  when it returns.  Code outside the repository (viper, the Consul client, \<^verbatim>\<open>text/template\<close>, \<^verbatim>\<open>x/text\<close>,
  reflection, gRPC, Kafka, Zeebe) is a record of functions that the definitions take as an argument; what is
  assumed of it is a named predicate (\<open>parents_reach_root\<close>, \<open>aliases_agree\<close>, \<open>cas_creates\<close>, \<open>atomic_calls\<close>, ...);
  a remote call that fails may have been carried out all the same.  Logging and the
  values of metrics are left out, except where a middleware's effect is the metric.

  \<^bold>\<open>Theories.\<close>
  \<^item> \<open>Prelude\<close>: errors, results, 64-bit integers, strings, decimal numbers (Go's standard library).
  \<^item> \<open>Interfaces\<close>: the locales that several components interpret: \<open>keyed_store\<close> (message catalogue, dictionaries,
    keys of an upload, bindings of the container), \<open>handler_chain\<close> (HTTP middlewares, gRPC interceptors, Kafka
    middlewares), \<open>registry\<close> (components, producers of a Kafka client).
  \<^item> \<open>Plural_Operands\<close>, \<open>Plural_Rules\<close>, \<open>Plural_Cldr\<close>: \<^verbatim>\<open>internal/pkg/localize/plural\<close>: the operands of a
    number, the forty generated rules with the lookup of a language's rule, and the CLDR data that the
    comments of \<^verbatim>\<open>rule_gen.go\<close> quote, with the proof that each rule implements its data.
  \<^item> \<open>Icu_Parser\<close>, \<open>Localize_Bundle\<close>, \<open>Localizer\<close>: \<^verbatim>\<open>internal/pkg/localize/localize\<close> and \<^verbatim>\<open>parser\<close>: the parser
    of ICU plural messages, the message catalogue with its templates, and \<^verbatim>\<open>Get\<close>.
  \<^item> \<open>Di_Container\<close>: \<^verbatim>\<open>pkg/di\<close>.  \<open>Infrastructure\<close>: \<^verbatim>\<open>internal/pkg/{closers,health,middleware}\<close>.
    \<open>Components\<close>: \<^verbatim>\<open>application/components.go\<close>.  \<open>Lifecycle\<close>: the goroutines of \<^verbatim>\<open>application.go\<close> as a step
    relation, with the timeout after which \<^verbatim>\<open>Close\<close> returns while its closers still run, and the readiness probe,
    which looks at the channels in two states, since it may wait in between.
  \<^item> \<open>Consul_Config\<close>, \<open>Config_Store\<close>, \<open>App_Config\<close>: \<^verbatim>\<open>internal/pkg/config_provider\<close>, \<^verbatim>\<open>internal/pkg/consul\<close>,
    \<^verbatim>\<open>internal/pkg/config\<close>, \<^verbatim>\<open>pkg/config\<close> and the typed configurations of \<^verbatim>\<open>application\<close>.
  \<^item> \<open>Grpc\<close>, \<open>Http_Handlers\<close>: \<^verbatim>\<open>pkg/grpc\<close>, the HTTP middlewares of \<^verbatim>\<open>application\<close> and \<^verbatim>\<open>pkg/swagger/ui.go\<close>.
  \<^item> \<open>Application\<close>, \<open>Application_Start\<close>: the options and component functions of \<^verbatim>\<open>application/*.go\<close>, \<^verbatim>\<open>New\<close>
    and \<^verbatim>\<open>Run\<close>, and what a start leaves behind.
  \<^item> \<open>Kafka\<close>, \<open>Kafka_Client\<close>, \<open>Kafka_Run\<close>: \<^verbatim>\<open>pkg/kafka\<close>: the health checker, the middlewares and the consumer;
    producers and the client; a run of a registered consumer over a scripted reader.  Consumers and health checker
    share the context of \<^verbatim>\<open>Run\<close>: it ends at the last fetch of the script or later, and the checker may close its
    channel before or after a message in flight is reported (\<open>sw_first\<close>).
  \<^item> \<open>Workflow\<close>: \<^verbatim>\<open>pkg/workflow\<close>.  \<open>Redis\<close>: \<^verbatim>\<open>pkg/redis\<close>, with the goroutines of a subscriber as a step
    relation over rebuilds and closes of the client.  \<open>Translations\<close>: \<^verbatim>\<open>internal/pkg/translations\<close> and the bootstrap of \<^verbatim>\<open>application/localize.go\<close>.
  \<^item> \<open>Catalogue_Log\<close>: the catalogue and the localizer as a refinement of a log of writes.  \<open>Consul_Restart\<close>: a
    bootstrap over the Consul provider and the load of the next start.
  \<^item> \<open>Database\<close>: \<^verbatim>\<open>pkg/db\<close>.  \<open>S3\<close>: \<^verbatim>\<open>pkg/s3client\<close>.
  \<^item> \<open>Config_Sources\<close>, \<open>Config_Watch\<close>: the Consul client's watches, the providers and \<^verbatim>\<open>internal/pkg/vault\<close>; the
    goroutines of \<^verbatim>\<open>internal/pkg/config/watch.go\<close> around the read-write lock as a step relation.
  \<^item> \<open>Observability\<close>, \<open>Gorm_Metrics\<close>, \<open>Metrics_Registry\<close>: \<^verbatim>\<open>logger\<close>, \<^verbatim>\<open>pkg/grpc/logger.go\<close>, \<^verbatim>\<open>pkg/kafka/logger.go\<close>,
    \<^verbatim>\<open>pkg/trace\<close>,
    \<^verbatim>\<open>internal/pkg/gorm_metrics\<close> and \<^verbatim>\<open>pkg/metrics\<close>.
    A line of the log is written when its level and the sampling of the production configuration let it through.
    \<open>Grpc_Streams\<close>, \<open>Swagger_Loader\<close>: the interceptors of streams and of the client, and \<^verbatim>\<open>pkg/swagger/loader.go\<close>.
  \<^bold>\<open>Bounds.\<close>  \<open>fraction_W\<close> and \<open>chain_loop\<close> count down the index of the source's loop; \<open>rule_walk\<close> follows the
  parents of a tag and returns when \<open>parents_reach_root\<close> holds, the measure being the depth of the tag.
  \<open>migrate_loop\<close> and \<open>ping_loop\<close> count the attempts that the source's loops have left.  No definition takes
  fuel beyond a bound of the source.

  \<^bold>\<open>Not modelled.\<close>
  What only renames a library's function or type and keeps no state (\<^verbatim>\<open>pkg/trace/middlewares.go\<close>, the aliases of
  \<^verbatim>\<open>pkg/localize\<close> and \<^verbatim>\<open>pkg/config/watcher.go\<close>), and the mocks, which are test doubles.  The clients that the
  components of an application create are modelled in their own theories; the application itself sees the outcome
  of their construction.  The durations that metrics observe are left out, and so are the log lines that the
  components write.  The keys of HTTP headers are taken to be canonical.  Which entries zap's sampler counts together (its ticks
  and its hash table) is a parameter.
\<close>

section \<open>Plural forms\<close>

text \<open>
  C1. Every plural rule of the code is the CLDR rule that its comment states: for all well-formed
  operands (those of a decimal number) the function of entry \<open>i\<close> of the generated table selects the
  form that the conditions of entry \<open>i\<close> of the CLDR data select, where \<open>n\<close> is read as the rational
  value of the number.
\<close>

theorem plural_rules_follow_cldr: "list_all2 implements default_entries cldr_rules"
  by (rule default_entries_implement)

text \<open>
  C2. When the operands of a decimal literal with an optional sign and exponent are computed without
  error, they are well-formed and their \<open>n\<close> is the absolute value of the literal, the exponent
  applied by moving the decimal point in the digits.  The only exponent excepted is the least
  \<^verbatim>\<open>int64\<close>, whose negation overflows.
\<close>

theorem operands_of_literal:
  assumes "plain sig" and "c = CHR ''e'' \<or> c = CHR ''E''" and "sg = [] \<or> sg = ''-''"
    and "newOperandsString pf (sg @ sig @ (if ex = [] then [] else c # ex)) = Ok ops"
    and "op_C ops \<noteq> min_int64"
  shows "wf_operands ops \<and> n_val ops = dec_rat sig * 10 powi op_C ops"
  by (rule newOperandsString_meaning [OF assms])

text \<open>The operands of \<^verbatim>\<open>"-1.50e1"\<close>, computed.\<close>

definition sample_operands :: "unit operands" where
  "sample_operands = \<lparr>op_N = (), op_I = 15, op_V = 1, op_W = 0, op_F = 0, op_T = 0, op_C = 1\<rparr>"

lemma sample_operands_computed: "newOperandsString (\<lambda>s. Ok ()) ''-1.50e1'' = Ok sample_operands"
  by code_simp

lemma sample_plain: "plain ''1.50''"
  by code_simp

lemma operands_of_literal_witness: "wf_operands sample_operands \<and> n_val sample_operands = dec_rat ''1.50'' * 10"
  using operands_of_literal [OF sample_plain, of "CHR ''e''" "''-''" "\<lambda>s. Ok ()" "''1''" sample_operands]
    sample_operands_computed
  by (simp add: sample_operands_def min_int64_def)

text \<open>
  A decimal literal has operands whenever \<^verbatim>\<open>ParseFloat\<close> accepts it, its exponent is an \<^verbatim>\<open>int64\<close> and,
  the exponent applied, it has an integer part and at most 18 digits on each side of the point.
\<close>

theorem literal_has_operands:
  assumes "plain sig" and "c = CHR ''e'' \<or> c = CHR ''E''" and "sg = [] \<or> sg = ''-''" and "sig \<noteq> []"
    and "pf (sig @ (if ex = [] then [] else c # ex)) = Ok N"
    and "(if ex \<noteq> [] then ParseInt ex else Ok 0) = Ok e" and "e \<noteq> min_int64"
    and "split_dot (applyExponent sig e) = (ip, rest)" and "ip \<noteq> []" and "length ip \<le> 18"
    and "length (case_option [] id rest) \<le> 18"
  shows "\<exists>ops. newOperandsString pf (sg @ sig @ (if ex = [] then [] else c # ex)) = Ok ops \<and> op_C ops = e"
  using assms by (rule newOperandsString_returns)

lemma literal_has_operands_witness:
  "\<exists>ops :: unit operands. newOperandsString (\<lambda>s. Ok ()) ''1.50e-2'' = Ok ops \<and> op_C ops = -2"
proof -
  have "ParseInt ''-2'' = Ok (-2)" "split_dot (applyExponent ''1.50'' (-2)) = (''0'', Some ''0150'')"
    by code_simp+
  with literal_has_operands [OF sample_plain, of "CHR ''e''" "[]" "\<lambda>s. Ok ()" "''-2''" "()" "-2" "''0''" "Some ''0150''"]
  show ?thesis by (simp add: min_int64_def)
qed

text \<open>
  C3. A count gets the form that CLDR gives it in the language of the tag.  Let \<open>t\<close> be the tag of a CLDR
  language id \<open>lid\<close> with the conditions \<open>c\<close>, and \<open>t\<close> the first tag with a rule on the way up from \<open>tag\<close>, or
  the tag of its base language when there is none.  Then, for every integer but the least \<^verbatim>\<open>int64\<close> and every
  decimal literal that \<^verbatim>\<open>NewOperands\<close> takes, the operands stand for its absolute value, the rule found for
  \<open>tag\<close> selects from them the form that \<open>c\<close> selects, and the rule declares this form.  Of the parser of tags
  it is supposed that ids that it identifies have one CLDR rule, of the parents that they end in the root.
\<close>

theorem count_selects_cldr_form:
  fixes rules :: "('tag, 'f) rules"
  assumes "parents_reach_root L depth" and "aliases_agree p" and "DefaultRules p = Ok rules"
    and "lid \<noteq> ''root''" and "cldr_rule_of lid = Some c" and "p lid = Some t" and "rule_tag L (cldr_tag p) tag t"
    and "count_value number q" and "NewOperands f64 pf number = Ok ops"
  shows "\<exists>r. Rule L rules tag = Some (Some r) \<and> n_val ops = q \<and>
    PluralFormFunc r ops = cldr_select c ops \<and> PluralFormFunc r ops \<in> PluralForms r"
proof -
  have dom: "(\<lambda>t. rules t \<noteq> None) = cldr_tag p" using DefaultRules_dom [OF assms(3)] by (intro ext)
  have "rule_tag L (\<lambda>t. rules t \<noteq> None) tag t" unfolding dom by (rule assms(7))
  then have R: "Rule L rules tag = Some (rules t)" by (rule Rule_of_tag [OF assms(1)])
  have "cldr_tag p t" using assms(7) by (simp add: rule_tag_def)
  then obtain r where r: "rules t = Some r" using DefaultRules_dom [OF assms(3), of t] by auto
  have ops: "wf_operands ops" "n_val ops = q" using count_value_operands [OF assms(8,9)] by simp_all
  have "Rule L rules tag = Some (Some r)" using R r by simp
  with DefaultRules_form [OF assms(3,2,5,6) r ops(1)] ops(2) show ?thesis by blast
qed

text \<open>The languages of the examples: tags are strings, every tag has the root as its parent.\<close>

definition flat_tags :: "string lang_ops" where
  "flat_tags = \<lparr>lang_parent = (\<lambda>t. []), lang_is_root = (\<lambda>t. t = []), lang_base_tag = (\<lambda>t. t)\<rparr>"

lemma flat_tags_root: "parents_reach_root flat_tags (\<lambda>t. 0)"
  by (simp add: parents_reach_root_def flat_tags_def)

text \<open>Tags with a region: the parent of \<^verbatim>\<open>ru-RU\<close> is \<^verbatim>\<open>ru\<close>.\<close>

definition region_tags :: "string lang_ops" where
  "region_tags = \<lparr>lang_parent = (\<lambda>t. if t = ''ru-RU'' then ''ru'' else []), lang_is_root = (\<lambda>t. t = []),
     lang_base_tag = (\<lambda>t. takeWhile (\<lambda>c. c \<noteq> CHR ''-'') t)\<rparr>"

lemma region_tags_root: "parents_reach_root region_tags length"
  by (simp add: parents_reach_root_def region_tags_def)

lemma default_rules_exist: "\<exists>rules. DefaultRules Some = Ok rules"
  unfolding DefaultRules_def by (rule add_entries_Ok) simp

lemma cldr_rule_of_ru: "cldr_rule_of ''ru'' = Some cldr_ru"
  by (rule cldr_rule_of_row [of "[''ru'', ''uk'']"]) (simp_all add: cldr_locales_def)

lemma count_selects_cldr_form_witness:
  "\<exists>(rules :: (string, unit) rules) r. DefaultRules Some = Ok rules \<and>
     Rule region_tags rules ''ru-RU'' = Some (Some r) \<and>
     PluralFormFunc r (newOperandsInt64 (\<lambda>i. ()) 22) = Few"
proof -
  obtain rules :: "(string, unit) rules" where rules: "DefaultRules Some = Ok rules"
    using default_rules_exist by blast
  have al: "aliases_agree Some" by (auto simp: aliases_agree_def)
  have t: "rule_tag region_tags (cldr_tag Some) ''ru-RU'' ''ru''"
  proof -
    have "cldr_rule_of ''ru-RU'' = None"
      by (rule cldr_rule_of_None) code_simp
    then have "\<not> cldr_tag Some ''ru-RU''" "cldr_tag Some ''ru''"
      by (simp_all add: cldr_tag_def cldr_rule_of_ru)
    then show ?thesis
      unfolding rule_tag_def by (intro conjI disjI1 exI [of _ "Suc 0"]) (simp_all add: region_tags_def)
  qed
  have v: "count_value (NInt 22) 22" using cv_int [of 22 "NInt 22"] by (simp add: in_int64_def max_int64_def min_int64_def)
  have o: "NewOperands (\<lambda>i. ()) (\<lambda>s. Ok ()) (NInt 22) = Ok (newOperandsInt64 (\<lambda>i. ()) 22)"
    by (simp add: NewOperands_def)
  from count_selects_cldr_form [OF region_tags_root al rules _ cldr_rule_of_ru refl t v o]
  obtain r where r: "Rule region_tags rules ''ru-RU'' = Some (Some r)"
    "PluralFormFunc r (newOperandsInt64 (\<lambda>i. ()) 22) = cldr_select cldr_ru (newOperandsInt64 (\<lambda>i. ()) 22)"
    by auto
  have "cldr_select cldr_ru (newOperandsInt64 (\<lambda>i. ()) 22) = Few" by code_simp
  with r rules show ?thesis by auto
qed

text \<open>
  C4. The lookup of a rule ends for every tag, and its result is this: the rule of the first tag, from the tag
  itself up to the last one below the root, that has one; when none of them has one, whatever the table holds
  for the tag of the base language, a rule or nothing.
\<close>

theorem rule_lookup:
  assumes "parents_reach_root L depth"
  shows "(\<exists>n r. visited L n tag \<and> rules (parents L n tag) = Some r \<and> (\<forall>m < n. rules (parents L m tag) = None) \<and>
       Rule L rules tag = Some (Some r)) \<or>
    ((\<forall>n. visited L n tag \<longrightarrow> rules (parents L n tag) = None) \<and>
       Rule L rules tag = Some (rules (lang_base_tag L tag)))"
  using rule_walk_outcome [OF assms, of tag rules] by (auto simp: Rule_def)

lemma rule_lookup_witness:
  "Rule region_tags [''ru'' \<mapsto> (1::nat)] ''ru-RU'' = Some (Some 1)"
  using rule_lookup [OF region_tags_root, of "''ru-RU''" "[''ru'' \<mapsto> (1::nat)]"]
proof (elim disjE exE conjE)
  fix n r
  assume "[''ru'' \<mapsto> (1::nat)] (parents region_tags n ''ru-RU'') = Some r"
    and "Rule region_tags [''ru'' \<mapsto> (1::nat)] ''ru-RU'' = Some (Some r)"
  then show ?thesis by (simp split: if_splits)
next
  assume "\<forall>n. visited region_tags n ''ru-RU'' \<longrightarrow> [''ru'' \<mapsto> (1::nat)] (parents region_tags n ''ru-RU'') = None"
  from spec [OF this, of "Suc 0"] show ?thesis by (simp add: region_tags_def)
qed

section \<open>Messages in ICU syntax\<close>

text \<open>
  C5. Printing the plural forms of a message in ICU syntax and parsing the result gives the message
  back, for every variable name and every message whose texts need no escaping.
\<close>

theorem icu_round_trip:
  assumes "var_name v" and "plain_message m"
  shows "parseICU (m_ID m) (print_plural v (message_options m)) = Ok m"
  using parseICU_print [OF assms(1) _ message_options_keys [OF assms(2)]] set_options_message [OF assms(2)] assms(2)
  by (simp add: plain_message_def)

definition sample_message :: Message where
  "sample_message = (empty_message ''files'')\<lparr>m_One := ''one file'', m_Other := ''many files''\<rparr>"

lemma icu_round_trip_witness:
  "parseICU ''files'' ''{count, plural, one {one file} other {many files} }'' = Ok sample_message"
proof -
  have "var_name ''count''" "plain_message sample_message" by code_simp+
  from icu_round_trip [OF this] show ?thesis
    by (simp add: sample_message_def empty_message_def print_plural_def message_options_def)
qed

text \<open>
  Whatever the body of a plural message is, when it is split into options every option has a
  key and a text with balanced braces.
\<close>

theorem icu_options_balanced:
  assumes "extractOptions body = Ok opts" and "(k, t) \<in> set opts"
  shows "k \<noteq> [] \<and> balanced t"
  by (rule extractOptions_Ok [OF assms])

lemma icu_options_balanced_witness:
  "extractOptions ''one {a {b} c} =2 {x}'' = Ok [(''one'', ''a {b} c''), (''=2'', ''x'')] \<and> balanced ''a {b} c''"
proof -
  have "extractOptions ''one {a {b} c} =2 {x}'' = Ok [(''one'', ''a {b} c''), (''=2'', ''x'')]" by code_simp
  from icu_options_balanced [OF this, of "''one''" "''a {b} c''"] this show ?thesis by simp
qed

text \<open>
  The conversion of placeholders to template actions is stable: converting a converted text
  changes nothing, whatever text and variable it came from.
\<close>

theorem placeholders_stable:
  "convertPlaceholders (convertPlaceholders s v) [] = convertPlaceholders s v"
  by (rule convertPlaceholders_twice)

section \<open>The message catalogue\<close>

text \<open>
  C6. The catalogue stays well-formed: a new bundle, and every bundle that an operation makes of a
  well-formed one (also when it reports an error), has its default language among its tags, a
  matcher built from exactly these tags, templates under registered tags only, each filed under its
  own message's key and with at least one form.
\<close>

theorem bundle_stays_wf:
  fixes b b' :: "('tag, 'f, 'p) loc_bundle"
  shows "(NewBundle must_parse L English artTag d = Some (Ok b) \<longrightarrow> wf_bundle b) \<and>
    (wf_bundle b \<longrightarrow>
       wf_bundle (SetDelim l r b) \<and>
       (AddMessages L tag ms b = Some (b', e) \<longrightarrow> wf_bundle b') \<and>
       (AddRawMessages L tag raw b = Some (Ok (b', e)) \<longrightarrow> wf_bundle b'))"
  by (blast intro: wf_NewBundle wf_SetDelim wf_AddMessages wf_AddRawMessages)

text \<open>A bundle with the rules of two languages, as the examples use it.\<close>

definition sample_bundle :: "(string, unit, unit) loc_bundle" where
  "sample_bundle =
     \<lparr>b_defaultLanguage = ''en'', b_messageTemplates = Map.empty,
      b_pluralRules = [''en'' \<mapsto> snd rule_ast, ''ru'' \<mapsto> snd rule_ru], b_tags = [''en''],
      b_matcher = [''en''], b_leftDelim = ''{'', b_rightDelim = ''}''\<rparr>"

lemma sample_bundle_wf: "wf_bundle sample_bundle"
  by (simp add: wf_bundle_def sample_bundle_def getMessage_def)

lemma sample_rules:
  "Rule flat_tags (b_pluralRules sample_bundle) ''en'' = Some (Some (snd rule_ast))"
  "Rule flat_tags (b_pluralRules sample_bundle) ''ru'' = Some (Some (snd rule_ru))"
  by (simp_all add: Rule_own sample_bundle_def)

lemma bundle_stays_wf_witness:
  "\<exists>b e. AddMessages flat_tags ''ru'' [sample_message] sample_bundle = Some (b, e) \<and> wf_bundle b"
proof -
  obtain b e where "AddMessages flat_tags ''ru'' [sample_message] sample_bundle = Some (b, e)"
    by (simp add: AddMessages_def sample_rules)
  with bundle_stays_wf [where b = sample_bundle and b' = b and e = e and L = flat_tags and tag = "''ru''" and
      ms = "[sample_message]"] sample_bundle_wf
  show ?thesis by blast
qed

text \<open>
  C7. Adding raw messages that all parse stores them all, and the catalogue that results does not
  depend on the order in which Go iterates over the map of messages: under every key it holds the
  template of that key's message, under all other keys what it held before.
\<close>

theorem raw_messages_in_any_order:
  fixes b :: "('tag, 'f, 'p) loc_bundle"
  assumes "has_rule L tag b" and "distinct (map fst raw)" and "list_all2 parsed_as raw ms"
    and "mset raw' = mset raw"
  shows "\<exists>b1 b2. AddRawMessages L tag raw b = Some (Ok (b1, None)) \<and>
    AddRawMessages L tag raw' b = Some (Ok (b2, None)) \<and>
    (\<forall>tag' key. getMessage tag' key b1 = getMessage tag' key b2) \<and>
    (\<forall>m \<in> set ms. getMessage tag (m_ID m) b1 = newMessageTemplate m (b_leftDelim b) (b_rightDelim b)) \<and>
    (\<forall>tag' key. tag' \<noteq> tag \<or> key \<notin> fst ` set raw \<longrightarrow> getMessage tag' key b1 = getMessage tag' key b)"
proof -
  obtain f where f: "ms = map f raw" "\<And>p. p \<in> set raw \<Longrightarrow> parsed_as p (f p)"
  proof
    show "ms = map (\<lambda>p. case parseICU (fst p) (snd p) of Ok m \<Rightarrow> m) raw"
      using assms(3) by (induction raw ms rule: list_all2_induct) (simp_all add: parsed_as_def)
    show "parsed_as p (case parseICU (fst p) (snd p) of Ok m \<Rightarrow> m)" if "p \<in> set raw" for p
      using assms(3) that by (induction raw ms rule: list_all2_induct) (auto simp: parsed_as_def)
  qed
  have raw': "list_all2 parsed_as raw' (map f raw')"
    using f(2) mset_eq_setD [OF assms(4)] by (simp add: list.rel_map list_all2_same)
  have ids: "map m_ID ms = map fst raw" by (rule parsed_as_ID [OF assms(3)])
  have d: "distinct (map m_ID ms)" using assms(2) by (simp only: ids)
  have perm: "mset ms = mset (map f raw')" unfolding f(1) by (simp add: assms(4))
  have added: "AddRawMessages L tag rs b = Some (Ok (put_templates tag ns (ensure_tag tag b), None))"
    if "list_all2 parsed_as rs ns" for rs ns
    using assms(1) that by (auto simp: AddRawMessages_def has_rule_def put_raw_all)
  define b1 b2 where "b1 = put_templates tag ms (ensure_tag tag b)"
    and "b2 = put_templates tag (map f raw') (ensure_tag tag b)"
  have "AddRawMessages L tag raw b = Some (Ok (b1, None))" "AddRawMessages L tag raw' b = Some (Ok (b2, None))"
    using added [OF assms(3)] added [OF raw'] by (simp_all add: b1_def b2_def)
  moreover have "getMessage tag' key b1 = getMessage tag' key b2" for tag' key
    unfolding b1_def b2_def by (rule put_templates_permute [OF d perm])
  moreover have "getMessage tag (m_ID m) b1 = newMessageTemplate m (b_leftDelim b) (b_rightDelim b)"
    if "m \<in> set ms" for m
    unfolding b1_def getMessage_put_templates [OF d that] by (simp add: frame_simps)
  moreover have "getMessage tag' key b1 = getMessage tag' key b" if "tag' \<noteq> tag \<or> key \<notin> fst ` set raw" for tag' key
    using getMessage_put_templates_other [of tag' tag key ms "ensure_tag tag b"] that arg_cong [OF ids, of set]
    by (simp add: b1_def frame_simps)
  ultimately show ?thesis by blast
qed

lemma raw_messages_in_any_order_witness:
  "\<exists>b1 b2. AddRawMessages flat_tags ''en'' [(''a'', ''x''), (''b'', ''y'')] sample_bundle = Some (Ok (b1, None)) \<and>
     AddRawMessages flat_tags ''en'' [(''b'', ''y''), (''a'', ''x'')] sample_bundle = Some (Ok (b2, None)) \<and>
     getMessage ''en'' ''a'' b1 = getMessage ''en'' ''a'' b2"
proof -
  have r: "has_rule flat_tags ''en'' sample_bundle" by (simp add: has_rule_def sample_rules)
  have "parseICU ''a'' ''x'' = Ok ((empty_message ''a'')\<lparr>m_Other := ''x''\<rparr>)"
    "parseICU ''b'' ''y'' = Ok ((empty_message ''b'')\<lparr>m_Other := ''y''\<rparr>)" by code_simp+
  then have "list_all2 parsed_as [(''a'', ''x''), (''b'', ''y'')]
      [(empty_message ''a'')\<lparr>m_Other := ''x''\<rparr>, (empty_message ''b'')\<lparr>m_Other := ''y''\<rparr>]"
    by (simp add: parsed_as_def)
  from raw_messages_in_any_order [OF r _ this, of "[(''b'', ''y''), (''a'', ''x'')]"] show ?thesis by auto
qed

section \<open>Translations\<close>

text \<open>
  C8. A message added to the catalogue is translated: \<^verbatim>\<open>Get\<close> in its language returns the text of
  the form that the plural rule of the language selects for the count (\<open>Other\<close> without a count), and
  leaves the catalogue as it is.  The text is one without template actions, which \<^verbatim>\<open>text/template\<close>
  is not asked to execute.
\<close>

theorem message_is_translated:
  fixes b b0 :: "('tag, 'f, 'p) loc_bundle"
  assumes "wf_bundle b0" and "AddMessages (le_lang env) tag ms b0 = Some (b, None)"
    and "distinct (map m_ID ms)" and "m \<in> set ms"
    and "getLangTag env ctx lc b = Ok (tag, None)" and "count_operands env lc = Ok ops"
    and "pluralForm (le_lang env) tag ops b = Some (Ok f)"
    and "message_source m f \<noteq> []" and "\<not> contains (message_source m f) (b_leftDelim b0)"
  shows "GetWithParams env ctx (m_ID m) lc b = Some (Ok (message_source m f, b))"
proof -
  have b: "b = put_templates tag ms (ensure_tag tag b0)"
    using assms(2) by (auto simp: AddMessages_def split: option.splits)
  let ?l = "b_leftDelim b0" and ?r = "b_rightDelim b0"
  have lr: "?l \<noteq> []" "?r \<noteq> []" using assms(1) by (simp_all add: wf_bundle_def)
  obtain mt :: "'p message_template" where mt: "newMessageTemplate m ?l ?r = Some mt"
    using assms(8) newMessageTemplate_None [of m ?l ?r, where ?'a = 'p]
    by (cases "newMessageTemplate m ?l ?r :: 'p message_template option") auto
  have "getMessage tag (m_ID m) b = Some mt"
    unfolding b getMessage_put_templates [OF assms(3,4)] by (simp add: frame_simps mt)
  note found = localizeWithTag_found [OF assms(5,6) GetMessageTemplate_own [OF this assms(7)]]
  show ?thesis
    by (rule GetWithParams_Ok) (simp add: found execute_with_fallback_form [OF mt assms(8) lr assms(9)])
qed

text \<open>The environment of the examples; its template engine is never reached.\<close>

definition sample_env :: "(string, unit, unit, unit) loc_env" where
  "sample_env =
     \<lparr>le_lang = flat_tags, le_match = (\<lambda>tags prefs. 0), le_Parse = (\<lambda>s. (s, None)),
      le_ParseAcceptLanguage = (\<lambda>s. Inr [s]), le_float64 = (\<lambda>i. ()), le_ParseFloat = (\<lambda>s. Ok ()),
      le_engine = \<lparr>eng_parse = (\<lambda>opt l r src. Inr ()), eng_exec = (\<lambda>p d. Inr [])\<rparr>, le_any = (\<lambda>n. ())\<rparr>"

lemma sample_env_simps [simp]:
  "le_lang sample_env = flat_tags" "le_Parse sample_env s = (s, None)" "le_float64 sample_env i = ()"
  by (simp_all add: sample_env_def)

text \<open>The call \<^verbatim>\<open>Get(ctx, key, WithPlural(n), WithLang(lang))\<close>.\<close>

definition sample_call :: "int \<Rightarrow> string \<Rightarrow> unit localize_params" where
  "sample_call n lang = \<lparr>TemplateData = None, PluralCount = Some (NInt n), Lang = lang\<rparr>"

lemma sample_call_tag: "lang \<noteq> [] \<Longrightarrow> getLangTag sample_env ctx (sample_call n lang) b = Ok (lang, None)"
  by (simp add: getLangTag_def sample_call_def)

lemma sample_call_operands: "count_operands sample_env (sample_call n lang) = Ok (Some (newOperandsInt64 (\<lambda>i. ()) n))"
  by (simp add: count_operands_def sample_call_def NewOperands_def sample_env_def)

definition sample_russian :: Message where
  "sample_russian = (empty_message ''files'')\<lparr>m_One := ''fail'', m_Few := ''faila'', m_Many := ''failov''\<rparr>"

lemma message_is_translated_witness:
  "\<exists>b. AddMessages flat_tags ''ru'' [sample_russian] sample_bundle = Some (b, None) \<and>
     GetWithParams sample_env None ''files'' (sample_call 22 ''ru'') b = Some (Ok (''faila'', b))"
proof -
  obtain b where b: "AddMessages flat_tags ''ru'' [sample_russian] sample_bundle = Some (b, None)"
    and "b_pluralRules b = b_pluralRules sample_bundle"
    using AddMessages_key [of flat_tags "''ru''" sample_bundle sample_russian] sample_rules
    by (auto simp: has_rule_def)
  then have "pluralForm (le_lang sample_env) ''ru'' (Some (newOperandsInt64 (\<lambda>i. ()) 22)) b =
      Some (Ok (PluralFormFunc (snd rule_ru) (newOperandsInt64 (\<lambda>i. ()) 22)))"
    by (simp add: pluralForm_def sample_rules)
  moreover have "PluralFormFunc (snd rule_ru) (newOperandsInt64 (\<lambda>i. ()) 22) = Few" by code_simp
  ultimately have "pluralForm (le_lang sample_env) ''ru'' (Some (newOperandsInt64 (\<lambda>i. ()) 22)) b = Some (Ok Few)"
    by simp
  from message_is_translated [OF sample_bundle_wf _ _ _ sample_call_tag sample_call_operands this, of "[sample_russian]" sample_russian None] b
  show ?thesis by (simp add: sample_russian_def empty_message_def sample_bundle_def has_prefix_def)
qed

text \<open>
  A message that the requested language lacks and the default language has is translated with the
  default language's text, in the form that the rule of the requested language selects.
\<close>

theorem default_language_text:
  assumes "getLangTag env ctx lc b = Ok (tag, None)" and "count_operands env lc = Ok ops"
    and "getMessage tag key b = None" and "tag \<noteq> b_defaultLanguage b"
    and "getMessage (b_defaultLanguage b) key b = Some mt"
    and "pluralForm (le_lang env) tag ops b = Some (Ok f)"
    and "newMessageTemplate m l r = Some mt" and "message_source m f \<noteq> []"
    and "l \<noteq> []" and "r \<noteq> []" and "\<not> contains (message_source m f) l"
  shows "GetWithParams env ctx key lc b = Some (Ok (message_source m f, b))"
  by (rule GetWithParams_Ok)
    (simp add: localizeWithTag_found [OF assms(1,2) GetMessageTemplate_default [OF assms(3-6)]]
      execute_with_fallback_form [OF assms(7-11)])

text \<open>A bundle with one message in one language.\<close>

definition sample_catalogue :: "string \<Rightarrow> (string, unit, unit) loc_bundle" where
  "sample_catalogue lang = put_template lang sample_message sample_bundle"

lemma sample_catalogue_messages:
  "getMessage tag key (sample_catalogue lang) =
     (if tag = lang \<and> key = ''files'' then newMessageTemplate sample_message ''{'' ''}'' else None)"
proof -
  have "getMessage t k sample_bundle = None" for t k by (simp add: getMessage_def sample_bundle_def)
  then show ?thesis
    by (simp add: sample_catalogue_def getMessage_put_template)
      (simp add: sample_message_def empty_message_def sample_bundle_def)
qed

lemma sample_catalogue_frame:
  "b_pluralRules (sample_catalogue lang) = b_pluralRules sample_bundle"
  "b_defaultLanguage (sample_catalogue lang) = ''en''"
  "b_leftDelim (sample_catalogue lang) = ''{''" "b_rightDelim (sample_catalogue lang) = ''}''"
  by (simp_all add: sample_catalogue_def frame_simps) (simp_all add: sample_bundle_def)

lemma sample_template:
  obtains mt :: "unit message_template" where "newMessageTemplate sample_message ''{'' ''}'' = Some mt"
  using newMessageTemplate_None [of sample_message "''{''" "''}''", where ?'a = unit]
  by (cases "newMessageTemplate sample_message ''{'' ''}'' :: unit message_template option")
    (auto simp: sample_message_def elim: allE [of _ One])

lemma russian_form:
  "PluralFormFunc (snd rule_ru) (newOperandsInt64 (\<lambda>i. ()) n) = f \<Longrightarrow>
     pluralForm (le_lang sample_env) ''ru'' (Some (newOperandsInt64 (\<lambda>i. ()) n)) (sample_catalogue lang) = Some (Ok f)"
  by (simp add: pluralForm_def sample_catalogue_frame sample_rules)

lemma default_language_text_witness:
  "GetWithParams sample_env None ''files'' (sample_call 21 ''ru'') (sample_catalogue ''en'') =
     Some (Ok (''one file'', sample_catalogue ''en''))"
proof -
  obtain mt :: "unit message_template" where mt: "newMessageTemplate sample_message ''{'' ''}'' = Some mt"
    by (rule sample_template)
  have "PluralFormFunc (snd rule_ru) (newOperandsInt64 (\<lambda>i. ()) 21) = One" by code_simp
  from default_language_text [where key = "''files''" and ctx = None, OF sample_call_tag sample_call_operands _ _ _ russian_form [OF this, of "''en''"] mt]
  show ?thesis
    by (simp add: sample_catalogue_messages sample_catalogue_frame mt) (simp add: sample_message_def has_prefix_def)
qed

text \<open>
  A call with a plural count in a language for which no rule is found panics: the code calls the
  function of a nil rule.
\<close>

theorem count_without_rule_panics:
  assumes "getLangTag env ctx lc b = Ok (tag, None)" and "count_operands env lc = Ok (Some ops)"
    and "Rule (le_lang env) (b_pluralRules b) tag = Some None"
  shows "GetWithParams env ctx key lc b = Some (Panic ''nil pointer dereference'')"
  by (simp add: GetWithParams_def localizeWithTag_no_rule [OF assms])

lemma count_without_rule_panics_witness:
  "GetWithParams sample_env None ''files'' (sample_call 1 ''tlh'') (sample_catalogue ''en'') =
     Some (Panic ''nil pointer dereference'')"
proof -
  have "Rule (le_lang sample_env) (b_pluralRules (sample_catalogue ''en'')) ''tlh'' = Some None"
    by (simp add: Rule_def flat_tags_def sample_catalogue_frame sample_bundle_def rule_walk.simps)
  from count_without_rule_panics [OF sample_call_tag sample_call_operands this] show ?thesis by simp
qed

text \<open>
  C9. When the form that the rule selects is missing from the message, the \<open>Other\<close> text is rendered
  but never returned: the error of the first attempt is kept, so \<^verbatim>\<open>Get\<close> returns the key, and stores
  the key as the message's text in this language in place of the message that was there.
\<close>

theorem missing_form_loses_message:
  assumes "getLangTag env ctx lc b = Ok (tag, None)" and "count_operands env lc = Ok (Some ops)"
    and "Rule (le_lang env) (b_pluralRules b) tag = Some (Some rule)"
    and "getMessage tag key b = Some mt" and "newMessageTemplate m l r = Some mt"
    and "message_source m (PluralFormFunc rule ops) = []" and "PluralFormFunc rule ops \<noteq> Other"
    and "m_Other m \<noteq> []" and "l \<noteq> []" and "r \<noteq> []" and "\<not> contains (m_Other m) l"
  shows "TryGetWithParams env ctx key lc b =
      Some (Ok (m_Other m, Some (pluralFormNotFoundError (PluralFormFunc rule ops) (m_ID m)))) \<and>
    (\<exists>b'. GetWithParams env ctx key lc b = Some (Ok (key, b')) \<and>
      getMessage tag key b' = newMessageTemplate (key_message key) (b_leftDelim b) (b_rightDelim b))"
proof -
  have f: "pluralForm (le_lang env) tag (Some ops) b = Some (Ok (PluralFormFunc rule ops))"
    by (simp add: pluralForm_def assms(3))
  note found = localizeWithTag_found [OF assms(1,2) GetMessageTemplate_own [OF assms(4) f],
      unfolded execute_with_fallback_other [OF assms(5-11)] fst_conv snd_conv]
  then have "TryGetWithParams env ctx key lc b =
      Some (Ok (m_Other m, Some (pluralFormNotFoundError (PluralFormFunc rule ops) (m_ID m))))"
    by (simp add: TryGetWithParams_def)
  moreover
  have "has_rule (le_lang env) tag b" using assms(3) by (simp add: has_rule_def)
  then obtain b' where b': "AddMessages (le_lang env) tag [key_message key] b = Some (b', None)"
      "getMessage tag key b' = newMessageTemplate (key_message key) (b_leftDelim b) (b_rightDelim b)"
    using AddMessages_key [of "le_lang env" tag b "key_message key"] by auto
  with GetWithParams_error [OF found b'(1)] have "\<exists>b'. GetWithParams env ctx key lc b = Some (Ok (key, b')) \<and>
      getMessage tag key b' = newMessageTemplate (key_message key) (b_leftDelim b) (b_rightDelim b)" by blast
  ultimately show ?thesis ..
qed

lemma missing_form_loses_message_witness:
  "\<exists>b'. GetWithParams sample_env None ''files'' (sample_call 22 ''ru'') (sample_catalogue ''ru'') = Some (Ok (''files'', b'))"
proof -
  obtain mt :: "unit message_template" where mt: "newMessageTemplate sample_message ''{'' ''}'' = Some mt"
    by (rule sample_template)
  have f: "PluralFormFunc (snd rule_ru) (newOperandsInt64 (\<lambda>i. ()) 22) = Few" by code_simp
  have r: "Rule (le_lang sample_env) (b_pluralRules (sample_catalogue ''ru'')) ''ru'' = Some (Some (snd rule_ru))"
    by (simp add: sample_catalogue_frame sample_rules)
  have "getMessage ''ru'' ''files'' (sample_catalogue ''ru'') = Some mt" by (simp add: sample_catalogue_messages mt)
  from missing_form_loses_message [where ctx = None, OF sample_call_tag sample_call_operands [where n = 22] r this mt] f show ?thesis
    by (auto simp: sample_message_def empty_message_def has_prefix_def)
qed

text \<open>
  A key that no language has is returned as it is, and remembered: after the first call, calls
  without a plural count return the key with no error and change nothing.
\<close>

theorem missing_key_is_learned:
  assumes "wf_bundle b" and "getLangTag env ctx lc b = Ok (tag, None)" and "PluralCount lc = None"
    and "has_rule (le_lang env) tag b" and "getMessage tag key b = None"
    and "getMessage (b_defaultLanguage b) key b = None" and "Lang lc \<noteq> []"
    and "key \<noteq> []" and "\<not> contains key (b_leftDelim b)"
  shows "\<exists>b'. GetWithParams env ctx key lc b = Some (Ok (key, b')) \<and>
    TryGetWithParams env ctx key lc b' = Some (Ok (key, None)) \<and>
    GetWithParams env ctx key lc b' = Some (Ok (key, b'))"
proof -
  have "pluralForm (le_lang env) tag None b = Some (Ok Other)" by (simp add: pluralForm_def)
  note missing = localizeWithTag_missing [OF assms(2) _ GetMessageTemplate_missing [OF assms(5,6) this]]
  have c: "count_operands env lc = Ok None" using assms(3) by (simp add: count_operands_def)
  obtain b' where b': "AddMessages (le_lang env) tag [key_message key] b = Some (b', None)"
      "getMessage tag key b' = newMessageTemplate (key_message key) (b_leftDelim b) (b_rightDelim b)"
    using AddMessages_key [OF assms(4), of "key_message key"] by auto
  have tag: "getLangTag env ctx lc b' = Ok (tag, None)" using assms(2,7) by (simp add: getLangTag_def)
  have lr: "b_leftDelim b \<noteq> []" "b_rightDelim b \<noteq> []" using assms(1) by (simp_all add: wf_bundle_def)
  note known = localizeWithTag_key [OF tag assms(3) b'(2) assms(8) lr assms(9)]
  show ?thesis
    using GetWithParams_error [OF missing [OF c] b'(1)] GetWithParams_Ok [OF known] known
    by (auto simp: TryGetWithParams_def)
qed

lemma missing_key_is_learned_witness:
  "\<exists>b'. GetWithParams sample_env None ''title'' (no_params\<lparr>Lang := ''en''\<rparr>) sample_bundle = Some (Ok (''title'', b')) \<and>
     GetWithParams sample_env None ''title'' (no_params\<lparr>Lang := ''en''\<rparr>) b' = Some (Ok (''title'', b'))"
proof -
  let ?lc = "no_params\<lparr>Lang := ''en''\<rparr> :: unit localize_params"
  have "getLangTag sample_env None ?lc sample_bundle = Ok (''en'', None)" "PluralCount ?lc = None" "Lang ?lc \<noteq> []"
    by (simp_all add: getLangTag_def no_params_def)
  moreover have "has_rule (le_lang sample_env) ''en'' sample_bundle" by (simp add: has_rule_def sample_rules)
  moreover have "getMessage t k sample_bundle = None" for t k by (simp add: getMessage_def sample_bundle_def)
  moreover have "\<not> contains ''title'' (b_leftDelim sample_bundle)" by (simp add: sample_bundle_def has_prefix_def)
  ultimately have "\<exists>b'. GetWithParams sample_env None ''title'' ?lc sample_bundle = Some (Ok (''title'', b')) \<and>
      TryGetWithParams sample_env None ''title'' ?lc b' = Some (Ok (''title'', None)) \<and>
      GetWithParams sample_env None ''title'' ?lc b' = Some (Ok (''title'', b'))"
    by (intro missing_key_is_learned [OF sample_bundle_wf]) simp_all
  then show ?thesis by blast
qed

text \<open>
  C10. The message catalogue implements a log of writes: for every sequence of \<^verbatim>\<open>SetDelim\<close>, \<^verbatim>\<open>AddMessages\<close>,
  \<^verbatim>\<open>AddRawMessages\<close>, \<^verbatim>\<open>GetWithParams\<close> and \<^verbatim>\<open>TryGetWithParams\<close> on a new bundle, the answers and errors are those of the
  log, where a key says its latest write, with the delimiters of that time, else that of the default language; one
  returns or panics just when the other does.\<close>

theorem localizer_refines_log:
  assumes "NewBundle must_parse L English artTag d = Some (Ok b)"
  shows "case (run_ops (bundle_op env) ops b, run_ops (log_op env) ops (empty_log d (b_pluralRules b))) of
      (Some (Ok (b', answers)), Some (Ok (s', answers'))) \<Rightarrow> answers = answers' \<and> represents b' s'
    | (Some (Panic p), Some (Panic q)) \<Rightarrow> p = q
    | (Some (Err e), Some (Err f)) \<Rightarrow> e = f
    | (None, None) \<Rightarrow> True
    | _ \<Rightarrow> False"
proof -
  note sim = catalogue_simulation [OF represents_NewBundle [OF assms], of env ops]
  then show ?thesis
    by (cases rule: option.rel_cases) (auto elim!: go.rel_cases split: prod.splits)
qed

lemma localizer_refines_log_witness:
  "\<exists>(b :: (string, unit, unit) loc_bundle) b'. NewBundle Some flat_tags ''en'' ''art'' ''en'' = Some (Ok b) \<and>
     run_ops (bundle_op sample_env) [OpDelim ''<'' ''>'', OpTryGet None ''hello'' no_params] b =
       Some (Ok (b', [Returned None, Said [] (Some (MessageNotFoundErr ''en'' ''hello''))]))"
proof -
  obtain rules :: "(string, unit) rules" where r: "DefaultRules Some = Ok rules"
    using default_rules_exist by blast
  obtain x where x: "Rule flat_tags rules ''en'' = Some x" using Rule_terminates [OF flat_tags_root] by blast
  obtain b :: "(string, unit, unit) loc_bundle" where b: "NewBundle Some flat_tags ''en'' ''art'' ''en'' = Some (Ok b)"
    by (simp add: NewBundle_def r x)
  have "run_ops (log_op sample_env) [OpDelim ''<'' ''>'', OpTryGet None ''hello'' no_params] (empty_log ''en'' (b_pluralRules b)) =
      Some (Ok (empty_log ''en'' (b_pluralRules b)\<lparr>cl_delims := (''<'', ''>'')\<rparr>,
        [Returned None, Said [] (Some (MessageNotFoundErr ''en'' ''hello''))]))"
    by (simp add: log_localize_def log_say_def log_lookup_def log_message_def empty_log_def no_params_def Let_def)
  with localizer_refines_log [OF b, of sample_env "[OpDelim ''<'' ''>'', OpTryGet None ''hello'' no_params]"] b
  show ?thesis by (auto split: option.splits go.splits prod.splits)
qed

section \<open>The dependency container\<close>

text \<open>
  C11. In every container that calls of \<^verbatim>\<open>Register\<close> and \<^verbatim>\<open>Build\<close> can make (succeeding, failing or
  panicking), each service is a pointer, and a service that is marked as injected, or any service once
  the container is initialised, has had its \<^verbatim>\<open>ResolveDeps\<close> called successfully with exactly the services
  registered for its parameter types.
\<close>

theorem container_wires_services:
  assumes "di_reachable ops c" and "c_dependencies c key = Some dep"
  shows "sv_is_ptr ops (dep_service dep) \<and>
    (dep_injected dep \<or> c_initialized c \<longrightarrow>
       (case sv_method ops (dep_service dep) of
          None \<Rightarrow> True
        | Some ps \<Rightarrow> \<exists>args. (dep_service dep, args) \<in> set (c_calls c) \<and>
            list_all2 (\<lambda>p a. \<exists>d. c_dependencies c (getTypeName p) = Some d \<and> dep_service d = a) ps args \<and>
            sv_call ops (dep_service dep) args = Ok ()))"
  using wf_di_reachable [OF assms(1)] assms(2)
  unfolding wf_container_def wired_def arguments_def by blast

text \<open>Two services, of which \<^verbatim>\<open>1\<close> needs \<^verbatim>\<open>0\<close>.\<close>

definition sample_type :: "nat \<Rightarrow> gotype" where
  "sample_type n = TNamed ''app'' (if n = 0 then ''Repo'' else ''Service'')"

definition sample_ops :: "nat svc_ops" where
  "sample_ops =
     \<lparr>sv_is_ptr = (\<lambda>s. True), sv_type = (\<lambda>s. ''service''),
      sv_method = (\<lambda>s. if s = 0 then None else Some [sample_type 0]), sv_call = (\<lambda>s args. Ok ()),
      sv_implements = (\<lambda>s t. t = sample_type s)\<rparr>"

definition sample_container :: "nat container" where
  "sample_container =
     fst (Build sample_ops [''app.Service'', ''app.Repo'']
       (fst (register sample_ops (sample_type 0) 0 (fst (register sample_ops (sample_type 1) 1 di_New)))))"

lemma sample_container_reachable: "di_reachable sample_ops sample_container"
proof -
  obtain c1 r1 where c1: "register sample_ops (sample_type 1) 1 di_New = (c1, r1)" by force
  obtain c2 r2 where c2: "register sample_ops (sample_type 0) 0 c1 = (c2, r2)" by force
  obtain c3 r3 where c3: "Build sample_ops [''app.Service'', ''app.Repo''] c2 = (c3, r3)" by force
  have keys: "getTypeName (sample_type 0) = ''app.Repo''" "getTypeName (sample_type 1) = ''app.Service''"
    by (simp_all add: sample_type_def getTypeName_def)
  have "dom (c_dependencies c2) \<subseteq> set [''app.Service'', ''app.Repo'']"
    using register_dom [OF c1] register_dom [OF c2] unfolding keys by (simp add: di_New_def) blast
  from reachable_Build [OF reachable_register [OF reachable_register [OF reachable_New c1] c2] this c3]
  show ?thesis by (simp only: sample_container_def c1 c2 c3 fst_conv)
qed

lemma container_wires_services_witness:
  "(1, [0]) \<in> set (c_calls sample_container)"
proof -
  have "c_dependencies sample_container ''app.Service'' = Some \<lparr>dep_service = 1, dep_injected = False\<rparr>"
    "c_initialized sample_container" "c_dependencies sample_container ''app.Repo'' = Some \<lparr>dep_service = 0, dep_injected = True\<rparr>"
    by code_simp+
  with container_wires_services [OF sample_container_reachable this(1)] show ?thesis
    by (auto simp: sample_ops_def sample_type_def getTypeName_def list_all2_Cons1)
qed

text \<open>
  Whether \<^verbatim>\<open>Build\<close> succeeds depends on the registrations alone and not on the order in which Go
  iterates over the map: it succeeds exactly when every pending service can be injected, whatever
  was injected before it.
\<close>

theorem build_ignores_map_order:
  assumes "\<not> c_initialized c" and "set order = set order'"
  shows "(snd (Build ops order c) = Ok () \<longleftrightarrow> snd (Build ops order' c) = Ok ()) \<and>
    (snd (Build ops order c) = Ok () \<longleftrightarrow>
       (\<forall>name \<in> set order. \<forall>dep. c_dependencies c name = Some dep \<longrightarrow>
          dep_injected dep \<or> snd (inject ops (dep_service dep) c) = Ok ()))"
  using Build_Ok_iff [OF assms(1), of ops order] Build_Ok_iff [OF assms(1), of ops order'] assms(2) by simp

lemma build_ignores_map_order_witness:
  "snd (Build sample_ops [''a'', ''b''] di_New) = Ok () \<and> snd (Build sample_ops [''b'', ''a''] di_New) = Ok ()"
proof -
  have "\<not> c_initialized di_New" "set [''a'', ''b''] = set [''b'', ''a'']" by (auto simp: di_New_def)
  note r = build_ignores_map_order [OF this, of sample_ops]
  then have "snd (Build sample_ops [''a'', ''b''] di_New) = Ok ()" by (simp add: di_New_def)
  with r show ?thesis by blast
qed

text \<open>
  A registration binds its type once: after a successful \<^verbatim>\<open>Register\<close> the type resolves to the
  instance registered, and registering the type again, or a pointer to it, panics and leaves the
  binding as it is.
\<close>

theorem type_is_bound_once:
  assumes "di_Register ops ctx (TNamed pkg name) inst w = (w', Ok x)" and "sv_implements ops inst (TNamed pkg name)"
    and "ty \<in> {TNamed pkg name, TPtr (TNamed pkg name)}"
  shows "di_Resolve ops ctx (TNamed pkg name) w' = Ok inst \<and>
    (\<exists>w''. di_Register ops ctx ty other w' = (w'', Panic ''already registered'') \<and>
       di_Resolve ops ctx (TNamed pkg name) w'' = Ok inst)"
proof -
  let ?k = "getTypeName (TNamed pkg name)"
  have k: "getTypeName ty = ?k" using assms(3) getTypeName_pointer by auto
  obtain p f where p: "getContainer ctx w' = Ok p"
    and d: "c_dependencies (dw_heap w' p) ?k = Some \<lparr>dep_service = inst, dep_injected = f\<rparr>"
    using di_Register_Ok [OF assms(1)] by blast
  have res: "di_Resolve ops ctx (TNamed pkg name) v = Ok inst"
    if "getContainer ctx v = Ok p" "dw_heap v p = dw_heap w' p" for v
    using that d assms(2) by (simp add: di_Resolve_def resolve_def getDependency_def)
  have "register ops ty other (dw_heap w' p) = (dw_heap w' p, Panic ''already registered'')"
    by (rule register_present) (simp add: k d)
  then have "di_Register ops ctx ty other w' = (w', Panic ''already registered'')"
    by (simp add: di_Register_def p)
  then show ?thesis using res p by blast
qed

lemma type_is_bound_once_witness:
  "\<exists>w. di_Resolve sample_ops (Some 0) (sample_type 0) w = Ok 0 \<and>
     (\<exists>w''. di_Register sample_ops (Some 0) (TPtr (sample_type 0)) 5 w = (w'', Panic ''already registered''))"
proof -
  let ?w0 = "\<lparr>dw_heap = (\<lambda>p. di_New), dw_global = None\<rparr> :: nat di_world"
  obtain w where "di_Register sample_ops (Some 0) (TNamed ''app'' ''Repo'') 0 ?w0 = (w, Ok 0)"
    by (simp add: di_Register_def getContainer_def register_def exist_def di_New_def inject_def sample_ops_def)
  from type_is_bound_once [OF this, of "TPtr (sample_type 0)" 5] show ?thesis
    by (auto simp: sample_ops_def sample_type_def)
qed

section \<open>Closers, health checks and middlewares\<close>

text \<open>
  C12. \<^verbatim>\<open>Close\<close> runs the closers in the reverse order of their registration, each on what its predecessors
  left, whatever they return.  If its context does not end, it has run all of them when it returns, its error
  is nil exactly when all returned nil and contains every error that one of them returned.  If the context
  ends first, it returns the context's error with only the first \<open>k\<close> of them run, for any \<open>k\<close>, while the
  goroutine it started goes on with the rest and so ends in the same world.
\<close>

theorem closers_close_all:
  fixes w :: 'w and fs :: "'w closer_func list"
  defines "c \<equiv> fold closers_Add fs closers_New"
  shows "\<exists>err. closers_Close None c w = (run_closers (rev fs) w, err, []) \<and>
    length (close_errors (rev fs) w) = length fs \<and>
    (err = None \<longleftrightarrow> (\<forall>e \<in> set (close_errors (rev fs) w). e = None)) \<and>
    (\<forall>t. errors_Is err (Sentinel t) \<longleftrightarrow> (\<exists>e \<in> set (close_errors (rev fs) w). errors_Is e (Sentinel t))) \<and>
    (\<forall>e k. \<exists>w' rest. closers_Close (Some (e, k)) c w = (w', Some e, rest) \<and>
       w' = run_closers (take k (rev fs)) w \<and> rest = drop k (rev fs) \<and>
       run_closers rest w' = run_closers (rev fs) w)"
proof -
  have c: "c = rev fs" by (simp add: c_def fold_Add closers_New_def)
  have rest: "run_closers (drop k (rev fs)) (run_closers (take k (rev fs)) w) = run_closers (rev fs) w" for k
    by (simp flip: run_closers_append)
  let ?err = "foldl (\<lambda>a e. errors_Join [a, e]) None (close_errors (rev fs) w)"
  have "closers_Close None c w = (run_closers (rev fs) w, ?err, [])"
    by (simp add: closers_Close_def c closeAll_run)
  moreover have "?err = None \<longleftrightarrow> (\<forall>e \<in> set (close_errors (rev fs) w). e = None)"
    unfolding fold_Join_None by simp
  moreover have "errors_Is ?err (Sentinel t) \<longleftrightarrow> (\<exists>e \<in> set (close_errors (rev fs) w). errors_Is e (Sentinel t))" for t
    unfolding fold_Join_Is [OF refl] by simp
  moreover have "closers_Close (Some (e, k)) c w =
      (run_closers (take k (rev fs)) w, Some e, drop k (rev fs))" for e k
    by (simp add: closers_Close_def c closeAll_run)
  ultimately show ?thesis using rest by (simp add: length_close_errors)
qed

lemma closers_close_all_witness:
  "fst (closers_Close None (fold closers_Add [logging_closer ''db'' None, logging_closer ''http'' (Some ErrPanic)] closers_New) []) =
     [''http'', ''db''] \<and>
   closers_Close (Some (Sentinel ''deadline'', 1))
     (fold closers_Add [logging_closer ''db'' None, logging_closer ''http'' (Some ErrPanic)] closers_New) [] =
     ([''http''], Some (Sentinel ''deadline''), [logging_closer ''db'' None])"
  using closers_close_all [of "[logging_closer ''db'' None, logging_closer ''http'' (Some ErrPanic)]" "[]"]
  by (auto simp: logging_closer_def run_closers_def dest: spec2 [of _ "Sentinel ''deadline''" 1])

text \<open>
  However the goroutines of a health check are scheduled, the check returns nil exactly when all
  registered checks pass, and otherwise the error of one failing check with that check's name.
\<close>

theorem health_check_result:
  assumes "mset (schedule checks) = mset checks"
  shows "(health_Check cancelled schedule checks = None \<longleftrightarrow> (\<forall>c \<in> set checks. ck_Func c cancelled = None)) \<and>
    (\<forall>e. health_Check cancelled schedule checks = Some e \<longrightarrow>
       (\<exists>c \<in> set checks. \<exists>err. ck_Func c cancelled = Some err \<and> e = CheckError (ck_Name c) err))"
proof (intro conjI allI impI)
  show "health_Check cancelled schedule checks = None \<longleftrightarrow> (\<forall>c \<in> set checks. ck_Func c cancelled = None)"
    using assms by (rule health_Check_None_iff)
  fix e assume "health_Check cancelled schedule checks = Some e"
  then have "errgroup_run cancelled None (schedule checks) = Some e"
    by (simp add: health_Check_def split: if_splits)
  moreover have "set (schedule checks) = set checks" using assms by (rule mset_eq_setD)
  ultimately show "\<exists>c \<in> set checks. \<exists>err. ck_Func c cancelled = Some err \<and> e = CheckError (ck_Name c) err"
    using errgroup_Some_from by metis
qed

lemma health_check_result_witness:
  "health_Check False rev (health_Add ''redis'' (\<lambda>c. Some ErrPanic) (health_Add ''db'' (\<lambda>c. None) health_New)) =
     Some (CheckError ''redis'' ErrPanic)"
proof -
  let ?cs = "health_Add ''redis'' (\<lambda>c. Some ErrPanic) (health_Add ''db'' (\<lambda>c. None) health_New)"
  have "mset (rev ?cs) = mset ?cs" by simp
  note r = health_check_result [of rev ?cs False, OF this]
  then have "health_Check False rev ?cs \<noteq> None" by (simp add: health_Add_def health_New_def)
  then obtain e where e: "health_Check False rev ?cs = Some e" by blast
  with r show ?thesis by (auto simp: health_Add_def health_New_def)
qed

text \<open>
  The first middleware added is the outermost: the chain is the composition of the middlewares in
  the order of registration around the final handler.
\<close>

theorem middlewares_in_order:
  "Chain (fold middlewares_Add ms middlewares_New) h = foldr (\<lambda>m h. m h) ms h"
proof -
  have "fold middlewares_Add ms ms' = ms' @ ms" for ms'
    by (induction ms arbitrary: ms') (simp_all add: middlewares_Add_def)
  then show ?thesis by (simp add: middlewares_New_def http_chain.chain_foldr)
qed

section \<open>Components\<close>

text \<open>
  Whatever components are added to a registry with \<^verbatim>\<open>add\<close>, a name keeps the functions it got first.
\<close>

theorem first_component_wins:
  "functions_of (fold (\<lambda>(k, f). (case f of (i, r) \<Rightarrow> \<lambda>e. fst (components_add (NewComponent k i r) e))) kvs e) k =
     (case functions_of e k of Some v \<Rightarrow> Some v | None \<Rightarrow> map_of kvs k)"
  using last_added.entry_adds [of kvs e k] by (simp add: case_prod_unfold)

text \<open>
  The components are initialised in the order of the registry, each on the state its predecessors
  left; the first error stops the initialisation, is wrapped with the failed component's name and
  comes after the success of all components before it.
\<close>

theorem components_init_in_order:
  assumes "wf_components e"
  shows "components_init e a = run_seq (ordered cm_init e) ''failed init '' a \<and>
    (\<forall>a' err. components_init e a = (a', Err err) \<longrightarrow>
       (\<exists>before name f after b cause. ordered cm_init e = before @ (name, f) # after \<and>
          run_seq before ''failed init '' a = (b, Ok ()) \<and> f b = (a', Err cause) \<and>
          err = Wrapped (''failed init '' @ name) cause))"
  using run_seq_Err [of "ordered cm_init e" "''failed init ''" a]
  unfolding components_init_seq [OF assms] by blast

lemma components_init_in_order_witness:
  "components_init (fst (components_add (NewComponent ''a'' (\<lambda>s. (Suc s, Err ErrPanic)) Noop) newComponents)) 0 =
     (1, Err (Wrapped ''failed init a'' ErrPanic))"
proof -
  let ?e = "fst (components_add (NewComponent ''a'' (\<lambda>s::nat. (Suc s, Err ErrPanic)) Noop) newComponents)"
  have "wf_components ?e" by (intro wf_intros)
  from components_init_in_order [OF this, of 0] show ?thesis
    by (simp add: ordered_def components_add_def components_has_def newComponents_def NewComponent_def)
qed

section \<open>The life of an application\<close>

text \<open>
  C13. In every reachable state of an application: it is closed only after closing began; \<^verbatim>\<open>Run\<close> has returned
  only if the application was started and is closed; no more closers have run than \<^verbatim>\<open>Close\<close> found, and it
  found no more than were registered; if the application is closed and \<^verbatim>\<open>Close\<close> did not time out, every closer
  that it found has run, those registered before \<^verbatim>\<open>Run\<close> among them; and each place that closes a channel finds
  it open (closing it twice would panic).  When \<^verbatim>\<open>Close\<close> times out, the application can be closed, and \<^verbatim>\<open>Run\<close>
  have returned, with none of its closers run.
\<close>

theorem lifecycle_is_ordered:
  assumes "reachable n s"
  shows "(lc_closed s \<longrightarrow> lc_closing s) \<and> (lc_run s = RunReturned \<longrightarrow> lc_started s \<and> lc_closed s) \<and>
    lc_ran s \<le> lc_to_close s \<and> lc_to_close s \<le> lc_closers s \<and>
    (lc_closed s \<and> \<not> lc_timed_out s \<longrightarrow> lc_ran s = lc_to_close s \<and> n \<le> lc_ran s) \<and>
    (lc_run s = RunComponents \<longrightarrow> \<not> lc_started s) \<and> (lc_finish s = FinishWaiting \<longrightarrow> \<not> lc_closing s) \<and>
    (lc_finish s = FinishReturned \<longrightarrow> \<not> lc_closed s) \<and>
    (\<exists>t. reachable n t \<and> lc_run t = RunReturned \<and> lc_closed t \<and> lc_closers t = n \<and> lc_ran t = 0)"
proof (intro conjI timeout_before_closers)
  show "lc_ran s \<le> lc_to_close s" "lc_to_close s \<le> lc_closers s"
    using lifecycle_inv_reachable [OF assms] by (simp_all add: lifecycle_inv_def closer_inv_def)
  show "lc_closed s \<and> \<not> lc_timed_out s \<longrightarrow> lc_ran s = lc_to_close s \<and> n \<le> lc_ran s"
    using closed_in_time [OF assms] by blast
qed (use channel_inv_reachable [OF assms] in \<open>auto simp: channel_inv_def\<close>)

lemma lifecycle_is_ordered_witness:
  "reachable 2 ((created 2)\<lparr>lc_run := RunComponents\<rparr>) \<and> \<not> lc_closed ((created 2)\<lparr>lc_run := RunComponents\<rparr>)"
proof -
  have r: "reachable 2 ((created 2)\<lparr>lc_run := RunComponents\<rparr>)"
    by (rule reachable_step [OF reachable_created run_call]) (simp add: created_def)
  from lifecycle_is_ordered [OF r] r show ?thesis by (simp add: created_def)
qed

text \<open>
  C14. Once \<^verbatim>\<open>Run\<close> waits, a signal (or a shutdown already begun) leads to its end: there is a run of
  the goroutines after which \<^verbatim>\<open>Run\<close> has returned and the application is closed; and without a signal
  and without a caller of \<^verbatim>\<open>stop\<close> no step begins the shutdown.
\<close>

theorem signal_ends_the_run:
  assumes "reachable n s" and "lc_run s = RunWaiting"
  shows "(lc_shutdown s \<or> lc_closing s \<longrightarrow> (\<exists>t. step\<^sup>*\<^sup>* s t \<and> lc_run t = RunReturned \<and> lc_closed t)) \<and>
    (\<not> lc_shutdown s \<and> lc_stopping s = 0 \<longrightarrow> (\<forall>t. step s t \<and> \<not> lc_shutdown t \<longrightarrow> lc_closing t = lc_closing s))"
  using signal_ends_run [OF assms] no_signal_step by blast

definition sample_waiting :: lifecycle where
  "sample_waiting = (created 1)\<lparr>lc_started := True, lc_run := RunWaiting, lc_shutdown := True\<rparr>"

lemma sample_waiting_reachable: "reachable 1 sample_waiting"
proof -
  have "reachable 1 ((created 1)\<lparr>lc_run := RunComponents\<rparr>)"
    by (rule reachable_step [OF reachable_created run_call]) (simp add: created_def)
  from reachable_step [OF reachable_step [OF this run_started] notify] show ?thesis
    by (simp add: sample_waiting_def)
qed

lemma signal_ends_the_run_witness: "\<exists>t. step\<^sup>*\<^sup>* sample_waiting t \<and> lc_run t = RunReturned \<and> lc_closed t"
  using signal_ends_the_run [OF sample_waiting_reachable] by (simp add: sample_waiting_def)

text \<open>
  A signal that arrives while the components are still starting is handled at once, so a closer
  that a component registers afterwards is never closed: \<^verbatim>\<open>Run\<close> can return without error having closed
  \<open>n\<close> of \<open>n + 1\<close> closers.
\<close>

theorem early_signal_leaks_closer:
  "\<exists>s. reachable n s \<and> lc_run s = RunReturned \<and> lc_ran s = n \<and> \<not> lc_timed_out s \<and> lc_closers s = Suc n"
  by (rule early_signal)

text \<open>
  The readiness probe answers 200 only if the application had not begun to shut down when the probe began,
  had started when it looked for the start, and passed its health checks; every other answer is 503; and it
  answers at the latest when its context ends.
\<close>

theorem readiness_is_honest:
  assumes "reachable n s" and "reachable n t"
  shows "(\<forall>r. checkReadiness s t ctx_done pick healthy = Some r \<longrightarrow>
      (hr_Code r = 200 \<longrightarrow> lc_finish s = FinishWaiting \<and> lc_run t \<in> {RunWaiting, RunReturned} \<and> healthy = None) \<and>
      (hr_Code r \<noteq> 200 \<longrightarrow> hr_Code r = 503)) \<and>
    checkReadiness s t True pick healthy \<noteq> None"
  using checkReadiness_200 [OF assms] checkReadiness_code checkReadiness_answers by blast

lemma readiness_is_honest_witness:
  "map_option hr_Code (checkReadiness sample_waiting sample_waiting False False (Some ErrPanic)) = Some 503"
proof -
  have "\<exists>r. checkReadiness sample_waiting sample_waiting False False (Some ErrPanic) = Some r"
    by (simp add: readiness_defs sample_waiting_def created_def)
  with readiness_is_honest [OF sample_waiting_reachable sample_waiting_reachable, of False False "Some ErrPanic"]
  show ?thesis by auto
qed

section \<open>Starting an application\<close>

text \<open>
  With any selection of the seven optional components in any order, none twice, and an environment in
  which every client can be created, \<^verbatim>\<open>New\<close> succeeds; the keys bound in the container are exactly those of
  the configuration and of the clients of Kafka, Redis, S3 and the localizer where they are selected.
\<close>

theorem new_binds_selected_clients:
  assumes "healthy_env E" and "distinct ns" and "set ns \<subseteq> set optional_names"
  shows "\<exists>a bindings. app_new E (map (with_option E) ns) w p = ((a, registry_http E ns), Ok ()) \<and>
    bindings_of a = Some bindings \<and>
    dom bindings = service_key ` ({SvcConfigurer} \<union> {s. \<exists>n \<in> set ns. service_of n = Some s}) \<and>
    (\<forall>s \<in> {SvcConfigurer} \<union> {s. \<exists>n \<in> set ns. service_of n = Some s}.
       bindings (service_key s) = Some \<lparr>dep_service = s, dep_injected = True\<rparr>)"
proof -
  obtain a where a: "app_new E (map (with_option E) ns) w p = ((a, registry_http E ns), Ok ())"
      "bindings_of a = Some (binds_all ns (binds (Some SvcConfigurer) Map.empty))"
    using app_new_optional [OF assms] by blast
  have conf: "service_of n \<noteq> Some SvcConfigurer" for n by simp
  have c: "SvcConfigurer \<in> platform" by (simp add: platform_def)
  have "binds_all ns (binds (Some SvcConfigurer) Map.empty) (service_key SvcConfigurer) =
      Some \<lparr>dep_service = SvcConfigurer, dep_injected = True\<rparr>"
    using binds_all_lookup [OF c, of ns "binds (Some SvcConfigurer) Map.empty"] conf by (simp add: binds_def)
  moreover have "binds_all ns (binds (Some SvcConfigurer) Map.empty) (service_key s) = Some \<lparr>dep_service = s, dep_injected = True\<rparr>"
    if "\<exists>n \<in> set ns. service_of n = Some s" for s
    using that binds_all_lookup [of s ns] service_of_platform by (auto simp del: service_of.simps)
  ultimately show ?thesis
    using a by (intro exI conjI) (assumption+, auto simp: dom_binds_all dom_binds simp del: service_of.simps)
qed

definition sample_app_env :: app_env where
  "sample_app_env =
     \<lparr>ae_conf = \<lparr>cf_GetString = (\<lambda>k. []), cf_GetInt = (\<lambda>k. 0), cf_GetBool = (\<lambda>k. False),
        cf_GetDuration = (\<lambda>k. 0), cf_GetStringSlice = (\<lambda>k. [])\<rparr>,
      ae_ops = \<lparr>sv_is_ptr = (\<lambda>s. True), sv_type = (\<lambda>s. ''service''), sv_method = (\<lambda>s. None),
        sv_call = (\<lambda>s args. Ok ()), sv_implements = (\<lambda>s t. True)\<rparr>,
      ae_build_order = [], ae_NewPostgresManager = None, ae_DB_is_Manager = True, ae_DB_Connect = None,
      ae_DB_Migrate = None, ae_NewKafkaClient = None, ae_Kafka_Run = None, ae_NewRedis = None,
      ae_NewS3Client = None, ae_S3_Ping = None, ae_GetTracingConfig = None, ae_InitProvider = None,
      ae_LoadTranslations = None, ae_Listen = (\<lambda>a. None), ae_Dial = (\<lambda>a. None)\<rparr>"

lemma sample_app_env_healthy: "healthy_env sample_app_env"
  by (simp add: healthy_env_def plain_services_def sample_app_env_def)

definition fresh_world :: "app_service di_world" where
  "fresh_world = \<lparr>dw_heap = (\<lambda>p. di_New), dw_global = None\<rparr>"

lemma new_binds_selected_clients_witness:
  "\<exists>a bindings. app_new sample_app_env (map (with_option sample_app_env) [''redis'', ''kafka'']) fresh_world 0 =
     ((a, registry_http sample_app_env [''redis'', ''kafka'']), Ok ()) \<and> bindings_of a = Some bindings \<and>
     bindings (service_key SvcS3) = None"
proof -
  have "distinct [''redis'', ''kafka'']" "set [''redis'', ''kafka''] \<subseteq> set optional_names"
    by (simp_all add: optional_names_def)
  from new_binds_selected_clients [OF sample_app_env_healthy this, of fresh_world 0]
  obtain a bindings where a: "app_new sample_app_env (map (with_option sample_app_env) [''redis'', ''kafka'']) fresh_world 0 =
     ((a, registry_http sample_app_env [''redis'', ''kafka'']), Ok ())" "bindings_of a = Some bindings"
    "dom bindings = service_key ` ({SvcConfigurer} \<union> {s. \<exists>n \<in> set [''redis'', ''kafka'']. service_of n = Some s})"
    by blast
  have "service_key SvcS3 \<notin> dom bindings"
    unfolding a(3) using service_key_inj [of SvcS3] by (auto simp: platform_def split: if_splits)
  with a show ?thesis by (auto simp: dom_def)
qed

text \<open>
  C15. With the database option first, in a fresh process, \<^verbatim>\<open>New\<close> panics whatever optional components
  follow: the database component goes to the front of the registry, so its initialisation registers
  the client before the container component has created the container.
\<close>

theorem new_with_database_panics:
  assumes "dw_global w = None" and "ae_NewPostgresManager E = None" and "set ns \<subseteq> set optional_names"
  shows "snd (app_new E (WithDB E # map (with_option E) ns) w p) = Panic ''container not found''"
  by (rule app_new_WithDB [OF assms])

lemma new_with_database_panics_witness:
  "snd (app_new sample_app_env [WithDB sample_app_env] fresh_world 0) = Panic ''container not found''"
  using new_with_database_panics [of fresh_world sample_app_env "[]" 0]
  by (simp add: fresh_world_def sample_app_env_def)

text \<open>
  When a private and a public gRPC server are both configured, the initialisation of either one
  fails and changes nothing if their addresses are equal, and otherwise succeeds and builds a server
  whose chain starts with recovery and metrics; with the default ports the addresses differ.
\<close>

theorem grpc_servers_need_two_addresses:
  assumes "ap_PrivateGrpc a = Some m" and "ap_PublicGrpc a = Some m'"
  shows "(if sm_addr m = sm_addr m'
      then \<exists>e. initPrivateGrpcServer a = (a, Err e) \<and> initPublicGrpcServer a = (a, Err e)
      else \<exists>a1 a2 m1 m2 g1 g2.
        initPrivateGrpcServer a = (a1, Ok ()) \<and> ap_PrivateGrpc a1 = Some m1 \<and> sm_grpc m1 = Some g1 \<and>
        gsv_unaryChain g1 = IRecovery # IMetrics # sm_unary m \<and>
        initPublicGrpcServer a = (a2, Ok ()) \<and> ap_PublicGrpc a2 = Some m2 \<and> sm_grpc m2 = Some g2 \<and>
        gsv_unaryChain g2 = IRecovery # IMetrics # sm_unary m')"
proof (cases "sm_addr m = sm_addr m'")
  case True
  with shared_address [OF assms] show ?thesis by simp
next
  case False
  then show ?thesis
    using assms by (simp add: initPrivateGrpcServer_def initPublicGrpcServer_def server_Initialize_def add_closer_def)
qed

definition sample_servers :: app where
  "sample_servers =
     (let m = server_New (server_config_of (GetGrpcPrivateServerConfig (ae_conf sample_app_env)))
      in (empty_app fresh_world 0)\<lparr>ap_PrivateGrpc := Some m, ap_PublicGrpc := Some m\<rparr>)"

lemma grpc_servers_need_two_addresses_witness: "\<exists>e. initPrivateGrpcServer sample_servers = (sample_servers, Err e)"
  using grpc_servers_need_two_addresses [of sample_servers] by (auto simp: sample_servers_def Let_def)

section \<open>Configuration\<close>

text \<open>
  A configuration written to Consul and read back is the same: for well-formed nested
  configurations and any order in which the pairs come back, the value at every path is the printed
  form of the value that was saved there, and nothing where none was (or one of an unsupported type).
\<close>

theorem consul_save_load:
  assumes "wf_entries m" and "convertObjectToKeys fmt pfx (Some m) = (Some res, err)" and "set pairs = set res"
  shows "leaf_at (convertPairsToObject pfx pairs) path = stored_leaf fmt m path"
  by (rule save_load [OF assms])

definition sample_config :: "unit config_data" where
  "sample_config = [(''db'', VMap [(''host'', VString ''pg''), (''port'', VInt 5432)]), (''debug'', VBool True)]"

definition sample_pairs :: "(string \<times> string) list" where
  "sample_pairs = [(''shop/db/host'', ''pg''), (''shop/db/port'', ''5432''), (''shop/debug'', ''true'')]"

lemma sample_port: "show_int 5432 = ''5432''"
  by (simp add: show_int_def digit_char_def show_nat.simps) code_simp

lemma sample_config_pairs:
  "convertObjectToKeys (\<lambda>x. []) ''shop'' (Some sample_config) = (Some sample_pairs, None)"
  by (simp add: convertObjectToKeys_def sample_config_def sample_pairs_def show_bool_def sample_port)

lemma consul_save_load_witness:
  "leaf_at (convertPairsToObject ''shop'' (rev sample_pairs)) [''db'', ''port''] = Some (VString ''5432'' :: unit cval)"
proof -
  have "wf_entries sample_config" by code_simp
  from consul_save_load [OF this sample_config_pairs set_rev]
  have "leaf_at (convertPairsToObject ''shop'' (rev sample_pairs)) [''db'', ''port''] =
      stored_leaf (\<lambda>x. []) sample_config [''db'', ''port'']" .
  moreover have "stored_leaf (\<lambda>x. []) sample_config [''db'', ''port''] = Some (VString ''5432'')"
    by (simp add: stored_leaf_def leaf_at_def sample_config_def is_map_def sample_port)
  ultimately show ?thesis by (simp only:)
qed

text \<open>
  C16. What a bootstrap does to Consul, whatever order the goroutines of \<^verbatim>\<open>Set\<close> run in and whichever of their
  requests fail or lose their reply: a key that was there keeps its value, and a key that is new is the path of
  a leaf of the configuration below the prefix and has that leaf's printed value.  When \<^verbatim>\<open>Set\<close> returns nil, every
  leaf of a type that it can print is there, under its old value if it had one.  A leaf of another type (a list
  that a file holds, read as \<^verbatim>\<open>[]interface{}\<close>) is left out without an error.  Keys are supposed to have no slash
  of their own, and nobody else writes meanwhile.
\<close>

theorem consul_bootstrap_keeps_values:
  assumes "cas_creates K get" and "wf_entries m" and "\<forall>data. mset (schedule data) = mset data"
    and "consulProvider_Set K fmt schedule pfx (Some m) kv = (kv', err)"
  shows "(\<forall>key v. get kv key = Some v \<longrightarrow> get kv' key = Some v) \<and>
    (\<forall>key. get kv' key \<noteq> get kv key \<longrightarrow>
       (\<exists>p v b. key = path_key pfx p \<and> leaf_at m p = Some v \<and> anyToBytes fmt v = Inr b \<and> get kv' key = Some b)) \<and>
    (err = None \<longrightarrow> (\<forall>p v. leaf_at m p = Some v \<longrightarrow>
       (case anyToBytes fmt v of
          Inr b \<Rightarrow> get kv' (path_key pfx p) = Some (case get kv (path_key pfx p) of Some u \<Rightarrow> u | None \<Rightarrow> b)
        | Inl e \<Rightarrow> get kv' (path_key pfx p) = get kv (path_key pfx p))))"
proof -
  obtain data e where c: "convertObjectToKeys fmt pfx (Some m) = (Some data, e)"
    by (auto simp: convertObjectToKeys_def split: prod.splits)
  note data = convertObjectToKeys_set [OF assms(2) c]
  have run: "save_all K (schedule data) None kv = (kv', err)"
    using assms(4) c data by (simp add: consulProvider_Set_def)
  have set: "set (schedule data) = set data" using assms(3) by (metis set_mset_mset)
  have d: "distinct (map fst (schedule data))" using assms(3) data by (metis mset_eq_imp_distinct_iff mset_map)
  have same: "map_of (schedule data) = map_of data" using set d data by (simp add: map_of_inject_set)
  have leaf: "(key, b) \<in> set data \<longleftrightarrow> (\<exists>p v. key = path_key pfx p \<and> leaf_at m p = Some v \<and> anyToBytes fmt v = Inr b)" for key b
  proof -
    have "(key, b) \<in> set data \<longleftrightarrow> (\<exists>p. key = path_key pfx p \<and> (p, b) \<in> set (entry_paths fmt m))"
      using data by force
    then show ?thesis unfolding entry_paths_leaf(2) [OF assms(2)] by blast
  qed
  have change: "get kv' k = get kv k \<or> get kv k = None \<and> (\<exists>v. (k, v) \<in> set data \<and> get kv' k = Some v)" for k
    using save_all_changes [OF assms(1) run, of k] unfolding set .
  show ?thesis
  proof (intro conjI allI impI)
    show "get kv' key = Some v" if "get kv key = Some v" for key v using change [of key] that by auto
    show "\<exists>p v b. key = path_key pfx p \<and> leaf_at m p = Some v \<and> anyToBytes fmt v = Inr b \<and> get kv' key = Some b"
      if "get kv' key \<noteq> get kv key" for key using change [of key] that leaf by blast
    fix p v assume "err = None" and v: "leaf_at m p = Some v"
    then have "save_all K (schedule data) None kv = (kv', None)" using run by simp
    from save_all_creates [OF assms(1) this d]
    have get: "get kv' k = (case get kv k of Some v \<Rightarrow> Some v | None \<Rightarrow> map_of data k)" for k unfolding same .
    show "case anyToBytes fmt v of
          Inr b \<Rightarrow> get kv' (path_key pfx p) = Some (case get kv (path_key pfx p) of Some u \<Rightarrow> u | None \<Rightarrow> b)
        | Inl e \<Rightarrow> get kv' (path_key pfx p) = get kv (path_key pfx p)"
    proof (cases "anyToBytes fmt v")
      case (Inr b)
      then have "map_of data (path_key pfx p) = Some b" using data leaf v by auto
      then show ?thesis by (simp add: Inr get split: option.splits)
    next
      case (Inl e)
      have "(path_key pfx p, b) \<notin> set data" for b
        unfolding leaf using leaf_key_unique [OF assms(2) v] Inl by fastforce
      then have "map_of data (path_key pfx p) = None" by (auto simp: map_of_eq_None_iff)
      then show ?thesis by (simp add: Inl get split: option.splits)
    qed
  qed
qed

text \<open>A store of keys with the check-and-set of index 0.\<close>

definition sample_kv :: "(string \<rightharpoonup> string) consul_kv" where
  "sample_kv =
     \<lparr>ck_list = (\<lambda>p kv. Inr []), ck_cas = (\<lambda>k v kv. (if kv k = None then kv(k \<mapsto> v) else kv, None))\<rparr>"

lemma sample_kv_creates: "cas_creates sample_kv (\<lambda>kv. kv)"
  by (auto simp: cas_creates_def sample_kv_def)

definition sample_listed :: "unit config_data" where
  "sample_listed = [(''hosts'', VOther ''[]interface {}''), (''debug'', VBool True), (''db'', VMap [(''port'', VInt 5432)])]"

lemma consul_bootstrap_keeps_values_witness:
  "\<exists>kv'. consulProvider_Set sample_kv (\<lambda>x. []) rev ''shop'' (Some sample_listed) [''shop/debug'' \<mapsto> ''false''] = (kv', None) \<and>
     kv' ''shop/debug'' = Some ''false'' \<and> kv' ''shop/db/port'' = Some ''5432'' \<and> kv' ''shop/hosts'' = None"
proof -
  obtain kv' where
    run: "consulProvider_Set sample_kv (\<lambda>x. []) rev ''shop'' (Some sample_listed) [''shop/debug'' \<mapsto> ''false''] = (kv', None)"
    by (simp add: consulProvider_Set_def convertObjectToKeys_def sample_listed_def sample_port consul_Insert_def sample_kv_def)
  have wf: "wf_entries sample_listed" by code_simp
  have leaf: "leaf_at sample_listed [''hosts''] = Some (VOther ''[]interface {}'')"
      "leaf_at sample_listed [''debug''] = Some (VBool True)" "leaf_at sample_listed [''db'', ''port''] = Some (VInt 5432)"
    by (simp_all add: leaf_at_def sample_listed_def is_map_def)
  have perm: "\<forall>data. mset (rev data) = mset data" by simp
  note R = consul_bootstrap_keeps_values [OF sample_kv_creates wf perm run, THEN conjunct2, THEN conjunct2, rule_format, OF refl]
  from R [OF leaf(1)] R [OF leaf(2)] R [OF leaf(3)] run show ?thesis
    by (auto simp: path_key_def sample_port)
qed

text \<open>
  After a provider is loaded, a key that the provider's data set is answered from it, whatever
  was loaded before, and every other key as before.
\<close>

theorem last_provider_wins:
  assumes "LoadFromProvider V p w c = (c', None)"
  shows "\<exists>v. (case pr_Get p w of
        Inl e \<Rightarrow> False
      | Inr None \<Rightarrow> v = vp_New V
      | Inr (Some d) \<Rightarrow> vp_MergeConfigMap V d (vp_New V) = (v, None)) \<and>
    (\<forall>key. GetString V key c' = (if vp_IsSet V key v then Ok (vp_GetString V key v) else GetString V key c)) \<and>
    (\<forall>key. GetInt V key c' = (if vp_IsSet V key v then Ok (vp_GetInt V key v) else GetInt V key c))"
proof -
  obtain d where d: "pr_Get p w = Inr d" using assms by (auto simp: LoadFromProvider_def split: sum.splits)
  let ?r = "case d of None \<Rightarrow> (vp_New V, None) | Some d \<Rightarrow> vp_MergeConfigMap V d (vp_New V)"
  obtain v where r: "?r = (v, None)" and c': "c' = c\<lparr>cfg_storages := \<lparr>st_provider = p, st_viper = v\<rparr> # cfg_storages c\<rparr>"
    using assms d by (cases ?r) (auto simp: LoadFromProvider_def split: option.splits)
  show ?thesis
    using d r unfolding GetString_def GetInt_def c' with_viper_loaded by (auto split: option.splits)
qed

definition sample_viper :: "((string \<times> unit cval) list, unit) viper_ops" where
  "sample_viper =
     \<lparr>vp_New = [], vp_ReadInConfig = (\<lambda>ps n e. Inr []), vp_MergeConfigMap = (\<lambda>d v. (d @ v, None)),
      vp_AllSettings = (\<lambda>v. v), vp_IsSet = (\<lambda>k v. map_of v k \<noteq> None),
      vp_GetString = (\<lambda>k v. case map_of v k of Some (VString s) \<Rightarrow> s | _ \<Rightarrow> []), vp_GetBool = (\<lambda>k v. False),
      vp_GetInt = (\<lambda>k v. 0), vp_GetInt32 = (\<lambda>k v. 0), vp_GetInt64 = (\<lambda>k v. 0), vp_GetStringSlice = (\<lambda>k v. []),
      vp_GetIntSlice = (\<lambda>k v. []), vp_GetDuration = (\<lambda>k v. 0), vp_GetFloat64 = (\<lambda>k v. ())\<rparr>"

definition sample_provider :: "string \<Rightarrow> (unit, unit) cfg_provider" where
  "sample_provider host =
     \<lparr>pr_Get = (\<lambda>w. Inr (Some [(''host'', VString host)])), pr_Set = (\<lambda>d w. (w, None)), pr_Watch = None,
      pr_Close = (\<lambda>w. (w, None))\<rparr>"

lemma last_provider_wins_witness:
  "\<exists>c c'. LoadFromProvider sample_viper (sample_provider ''shared'') () (config_New [] ''config'') = (c, None) \<and>
     LoadFromProvider sample_viper (sample_provider ''app'') () c = (c', None) \<and> GetString sample_viper ''host'' c' = Ok ''app''"
proof -
  obtain c where c: "LoadFromProvider sample_viper (sample_provider ''shared'') () (config_New [] ''config'') = (c, None)"
    by (simp add: LoadFromProvider_def sample_viper_def sample_provider_def)
  obtain c' where c': "LoadFromProvider sample_viper (sample_provider ''app'') () c = (c', None)"
    by (simp add: LoadFromProvider_def sample_viper_def sample_provider_def)
  from last_provider_wins [OF c'] have "GetString sample_viper ''host'' c' = Ok ''app''"
    by (auto simp: sample_provider_def sample_viper_def)
  with c c' show ?thesis by blast
qed

text \<open>
  A component's configuration is replaced only by one that its callback accepted: \<^verbatim>\<open>TryUpdate\<close>
  leaves it alone when nothing changed, when the callback refuses the new one and when it panics (then
  reporting an update together with the error), and otherwise stores exactly what \<open>create\<close> made.
\<close>

theorem try_update_outcomes:
  assumes "cw_create c cfg = Ok d"
  shows "(equal d (cw_data c) = Ok True \<longrightarrow> TryUpdate equal cfg c = Ok (c, False, None)) \<and>
    (equal d (cw_data c) = Ok False \<longrightarrow>
       (case cw_onRefresh c of
          None \<Rightarrow> TryUpdate equal cfg c = Ok (c\<lparr>cw_data := d\<rparr>, True, None)
        | Some cb \<Rightarrow>
            (cb d = Ok None \<longrightarrow> TryUpdate equal cfg c = Ok (c\<lparr>cw_data := d\<rparr>, True, None)) \<and>
            (\<forall>err. cb d = Ok (Some err) \<longrightarrow> TryUpdate equal cfg c = Ok (c, False, Some err)) \<and>
            (\<forall>p. cb d = Panic p \<longrightarrow> TryUpdate equal cfg c = Ok (c, True, Some ErrPanic))))"
  using assms by (simp add: TryUpdate_def split: option.splits)

lemma try_update_outcomes_witness:
  "TryUpdate (\<lambda>a b. Ok (a = b)) (5::nat)
     (OnRefresh (\<lambda>d. Panic ''boom'') \<lparr>cw_data = 0, cw_onRefresh = None, cw_create = Ok, cw_name = ''s3''\<rparr>) =
   Ok (OnRefresh (\<lambda>d. Panic ''boom'') \<lparr>cw_data = 0, cw_onRefresh = None, cw_create = Ok, cw_name = ''s3''\<rparr>, True, Some ErrPanic)"
  (is "TryUpdate ?eq 5 ?c = _")
proof -
  have "cw_create ?c 5 = Ok 5" by (simp add: OnRefresh_def)
  from try_update_outcomes [OF this, of ?eq] show ?thesis by (simp add: OnRefresh_def)
qed







section \<open>Servers\<close>

text \<open>
  C18. No panic of a handler or an interceptor gets past the chain that a gRPC server is initialised with.  What the
  chain does to a request is settled by the added interceptors around the handler, the first one added outermost:
  when they return, the request is counted once, with their error as its status, and their response and error
  are the answer; when one of them or the handler panics, even an interceptor after the handler has returned,
  the request is not counted, since recovery is outside the metrics, and the answer is the internal error.\<close>

theorem grpc_chain_recovers:
  assumes "sm_grpc (fst (server_Initialize m)) = Some g"
  shows "snd (server_chain inc (gsv_unaryChain g) h s) \<noteq> Panic p \<and>
    server_chain inc (gsv_unaryChain g) h s =
      (case foldr (apply_interceptor inc) (sm_unary m) h s of
         (s', Ok (resp, err)) \<Rightarrow> (inc err s', Ok (resp, err))
       | (s', Err e) \<Rightarrow> (s', Err e)
       | (s', Panic p) \<Rightarrow> (s', Ok (None, Some ErrInternal)))"
  unfolding initialized_chain [OF assms] using server_chain_recovers
  by (auto simp: server_chain_def RecoveryUnaryInterceptor_def MetricsUnaryInterceptor_def
      split: prod.splits go.splits)

text \<open>A server with one added interceptor, which panics after its handler has returned.\<close>

definition sample_server :: "(nat, unit) server_manager" where
  "sample_server =
     AddUnaryInterceptor (ICustom (\<lambda>h s. case h s of (s', r) \<Rightarrow> (s', Panic ''boom'')))
       (server_New (server_config_of (GetGrpcPrivateServerConfig (ae_conf sample_app_env))))"

lemma grpc_chain_recovers_witness:
  "\<exists>g. sm_grpc (fst (server_Initialize sample_server)) = Some g \<and>
     server_chain (\<lambda>e s. Suc s) (gsv_unaryChain g) (\<lambda>s. (s, Ok (Some (), None))) 0 = (0, Ok (None, Some ErrInternal))"
proof -
  obtain g where g: "sm_grpc (fst (server_Initialize sample_server)) = Some g" by (simp add: server_Initialize_def)
  from grpc_chain_recovers [OF g] g show ?thesis
    by (simp add: sample_server_def AddUnaryInterceptor_def server_New_def)
qed

text \<open>
  The metrics of a request record the status that \<^verbatim>\<open>net/http\<close> sends, for every handler that writes
  its header at most once and before its body; the requests of the probes and of the metrics page are
  not recorded.
\<close>

theorem http_metrics_record_sent_status:
  assumes "next r w = (w', es)" and "header_first False es"
  shows "httpMetricsMiddleware observe next r w =
    (if isMetricPath (rq_Path r) then (w', es)
     else (observe (rq_Method r) (rq_Path r) (show_int (int (sent_status es))) w', es))"
  using assms by (simp add: httpMetricsMiddleware_def normalizePath_def recorded_sent)

lemma http_metrics_record_sent_status_witness:
  "httpMetricsMiddleware (\<lambda>m p st w. w @ [st]) (\<lambda>r w. (w, [WriteHeader 404, Write ''no''])) \<lparr>rq_Path = ''/x'', rq_Method = ''GET''\<rparr> [] =
     ([''404''], [WriteHeader 404, Write ''no''])"
proof -
  have "show_int (int (sent_status [WriteHeader 404, Write ''no''])) = ''404''"
    by (simp add: sent_status_def show_int_def digit_char_def show_nat.simps) code_simp
  then show ?thesis
    using http_metrics_record_sent_status [of "\<lambda>r w. (w, [WriteHeader 404, Write ''no''])" "\<lparr>rq_Path = ''/x'', rq_Method = ''GET''\<rparr>"
        "[]" "[]" "[WriteHeader 404, Write ''no'']" "\<lambda>m p st w. w @ [st]"]
    by (simp add: isMetricPath_def has_prefix_def)
qed

text \<open>
  C19. Below the three paths of the Swagger page the gateway's answer is relayed as it is: status, body and all the
  values of every header, which replace what the header held before; headers that the gateway did not set stay;
  only an answer that is empty or 404 is dropped, and the next handler answers instead.\<close>

theorem swagger_relays_gateway:
  assumes "rq_Path r \<notin> {''/swagger'', ''/swagger/'', ''/swagger/openapi.json''}" and "gw r w = (w', es)"
    and "WriteHeader 0 \<notin> set es"
  shows "if sent_from None es \<in> {None, Some 404} then swagger_handler uiHTML now gw spec next r w = next r w'
    else \<exists>es'. swagger_handler uiHTML now gw spec next r w = (w', es') \<and> sent_status es' = sent_status es \<and>
      filter is_body es' = filter is_body es \<and>
      (\<forall>k before. header_from k before es' = (case header_from k None es of None \<Rightarrow> before | Some vs \<Rightarrow> Some vs))"
proof -
  let ?cw = "capture es"
  have st: "case sent_from None es of None \<Rightarrow> cw_status ?cw = 0 | Some s \<Rightarrow> cw_status ?cw = s"
    unfolding capture_def by (rule capture_sent) (simp_all add: capture_new_def)
  have nz: "sent_from None es \<noteq> Some 0" using sent_from_not_zero [of es None] assms(3) by simp
  have body: "cw_body ?cw = filter is_body es" by (simp add: capture_def capture_body capture_new_def)
  have hd: "header_from k before (copyHeader (cw_header ?cw)) =
      (case header_from k None es of None \<Rightarrow> before | Some vs \<Rightarrow> Some vs)" for k before
    using capture_headers [of capture_new es k] capture_values [of capture_new es]
    by (simp add: capture_def capture_new_def header_from_copyHeader)
  let ?es' = "copyHeader (cw_header ?cw) @ [WriteHeader (cw_status ?cw)] @ cw_body ?cw"
  show ?thesis
  proof (cases "sent_from None es \<in> {None, Some 404}")
    case True
    then show ?thesis using st assms(1,2) by (auto simp: swagger_handler_def Let_def)
  next
    case False
    then obtain c where c: "sent_from None es = Some c" "c \<noteq> 404" "c \<noteq> 0" using nz by auto
    then have run: "swagger_handler uiHTML now gw spec next r w = (w', ?es')"
      using st assms(1,2) by (simp add: swagger_handler_def Let_def)
    have "sent_status ?es' = sent_status es"
      using st c by (simp add: sent_status_def sent_from_copyHeader sent_from_Some)
    moreover have "filter is_body ?es' = filter is_body es" by (simp add: body)
    moreover have "header_from k before ?es' = (case header_from k None es of None \<Rightarrow> before | Some vs \<Rightarrow> Some vs)" for k before
      using header_from_bodies [of "cw_body ?cw" k] by (simp add: body hd)
    ultimately show ?thesis using run False by auto
  qed
qed

lemma swagger_relays_gateway_witness:
  "\<exists>es'. swagger_handler [] (\<lambda>w. []) (\<lambda>r w. (w, [SetHeader ''A'' ''1'', AddHeader ''A'' ''2'', WriteHeader 201, Write ''x''])) [] noopHandler
       \<lparr>rq_Path = ''/v1'', rq_Method = ''GET''\<rparr> () = ((), es') \<and>
     sent_status es' = 201 \<and> filter is_body es' = [Write ''x''] \<and>
     header_from ''A'' (Some [''0'']) es' = Some [''1'', ''2''] \<and> header_from ''B'' (Some [''0'']) es' = Some [''0'']"
  using swagger_relays_gateway [of "\<lparr>rq_Path = ''/v1'', rq_Method = ''GET''\<rparr>"
      "\<lambda>r w. (w, [SetHeader ''A'' ''1'', AddHeader ''A'' ''2'', WriteHeader 201, Write ''x''])" "()" "()"
      "[SetHeader ''A'' ''1'', AddHeader ''A'' ''2'', WriteHeader 201, Write ''x'']" "[]" "\<lambda>w. []" "[]" noopHandler]
  by (auto simp: sent_status_def)

section \<open>Kafka\<close>

text \<open>
  C20. A registered consumer, with a handler that returns and does not panic, runs on the context of \<^verbatim>\<open>Run\<close>, which is
  also that of the health checker, and ends when that context is done.  By then the handler was given every fetched message once and in order, each counted once, as
  handled or as failed; failures of the fetch, of the handler and of the commit only go on to the next message.
  Committed is each message for which the handler returned nil and the broker took the commit, with one exception:
  when the context ends while the last message is in flight, its handler returns nil and the health checker
  has already closed its channel, the report panics, and that message is handled and counted but not committed.\<close>

theorem consumer_commits_what_was_handled:
  assumes "RegisterConsumer script_ops topic (Some (script_handler outcome)) opts k w0 = ((k', w1), None)"
    and "shared_ctx w"
  shows "\<exists>w'. consumer_Run (script_reader refused) (last (kc_consumers k')) w =
      Some (w', if interrupted outcome w then Panic ''send on closed channel'' else Err (Sentinel ''context canceled'')) \<and>
    sw_handled w' = sw_handled w @ fetched (sw_script w) \<and>
    sw_commits w' = sw_commits w @ filter (committable outcome refused)
      (if interrupted outcome w then butlast (fetched (sw_script w)) else fetched (sw_script w)) \<and>
    sw_metrics w' = sw_metrics w @ concat (map (consume_metrics outcome) (fetched (sw_script w)))"
proof -
  obtain c where c: "kc_consumers k' = kc_consumers k @ [c]"
      and r: "registered_consumer script_ops topic (script_handler outcome) c"
    using RegisterConsumer_registers [OF assms(1)] by blast
  obtain h where h: "consumer_loop (script_reader refused) c w =
    Some (w\<lparr>sw_script := [], sw_handled := sw_handled w @ fetched (sw_script w),
        sw_commits := sw_commits w @ filter (committable outcome refused) (reported outcome w),
        sw_metrics := sw_metrics w @ concat (map (consume_metrics outcome) (fetched (sw_script w))),
        sw_health := h\<rparr>, run_result outcome w)"
    using consumer_loop_script [OF r assms(2), of refused] by blast
  then have "consumer_Run (script_reader refused) (last (kc_consumers k')) w = consumer_loop (script_reader refused) c w"
    using r by (simp add: c consumer_Run_def registered_consumer_def)
  with h show ?thesis by (simp add: run_result_def reported_def)
qed

definition sample_kafka_message :: "nat \<Rightarrow> int \<Rightarrow> message" where
  "sample_kafka_message p i =
     \<lparr>km_Topic = ''orders'', km_Partition = p, km_Offset = i, km_Key = [], km_Value = [], km_Headers = []\<rparr>"

definition sample_script_world :: "bool \<Rightarrow> script_world" where
  "sample_script_world early =
     \<lparr>sw_script = [Inr (sample_kafka_message 0 7), Inl (Sentinel ''timeout''), Inr (sample_kafka_message 0 8)],
      sw_handled = [], sw_commits = [], sw_metrics = [],
      sw_health = newHealthChecker 0 30, sw_first = early\<rparr>"

lemma sample_script_world_shared: "shared_ctx (sample_script_world early)"
  by (simp add: shared_ctx_def sample_script_world_def newHealthChecker_def updateState_def)

definition fails_first :: "message \<Rightarrow> gerror" where
  "fails_first m = (if km_Offset m = 7 then Some (Sentinel ''no stock'') else None)"

definition sample_client :: "'w kafka_client" where
  "sample_client =
     \<lparr>kc_dialer = newDialer None None, kc_brokers = [''b1''], kc_consumers = [], kc_producers = Map.empty,
      kc_consumerGroup = ''shop''\<rparr>"

lemma sample_registration:
  "\<exists>k' w1. RegisterConsumer script_ops ''orders'' (Some h) [] sample_client w0 = ((k', w1), None)"
  by (simp add: RegisterConsumer_def newConsumer_def)

lemma consumer_commits_what_was_handled_witness:
  "\<exists>k' w1 w'. RegisterConsumer script_ops ''orders'' (Some (script_handler (\<lambda>m. None))) [] sample_client
        (sample_script_world True) = ((k', w1), None) \<and>
     consumer_Run (script_reader (\<lambda>m. None)) (last (kc_consumers k')) (sample_script_world True) =
       Some (w', Panic ''send on closed channel'') \<and>
     sw_handled w' = [sample_kafka_message 0 7, sample_kafka_message 0 8] \<and> sw_commits w' = [sample_kafka_message 0 7]"
proof -
  obtain k' w1 where r: "RegisterConsumer script_ops ''orders'' (Some (script_handler (\<lambda>m. None))) []
      sample_client (sample_script_world True) = ((k', w1), None)" using sample_registration by blast
  let ?w = "sample_script_world True"
  have i: "interrupted (\<lambda>m. None) ?w" by (simp add: interrupted_def sample_script_world_def)
  have f: "fetched (sw_script ?w) = [sample_kafka_message 0 7, sample_kafka_message 0 8]"
    "sw_handled ?w = []" "sw_commits ?w = []" by (simp_all add: sample_script_world_def)
  have "filter (committable (\<lambda>m. None) (\<lambda>m. None)) [sample_kafka_message 0 7] = [sample_kafka_message 0 7]"
    by (simp add: committable_def)
  with consumer_commits_what_was_handled [OF r sample_script_world_shared [of True], of "\<lambda>m. None"] r i f show ?thesis
    by fastforce
qed

text \<open>
  C21. A failed message is lost by a later success: with the offsets of each partition increasing, the
  group's position is past a message that the handler refused exactly when a later message of the same
  partition was handled and committed, so that only a failure with no later success is delivered again.
  Every message fetched gets as far as the commit (\<open>reported\<close>), except one in flight on which the end of the
  context interrupts the run.
\<close>

theorem failed_message_is_skipped:
  assumes "RegisterConsumer script_ops topic (Some (script_handler outcome)) opts k w0 = ((k', w1), None)"
    and "shared_ctx w" and "sw_commits w = []" and "offsets_increase (fetched (sw_script w))"
    and "m \<in> set (fetched (sw_script w))" and "outcome m \<noteq> None"
  shows "\<exists>w' r. consumer_Run (script_reader refused) (last (kc_consumers k')) w = Some (w', r) \<and>
    ((\<exists>n. next_offset (km_Partition m) (sw_commits w') = Some n \<and> km_Offset m < n) \<longleftrightarrow>
     (\<exists>later \<in> set (reported outcome w). km_Partition later = km_Partition m \<and>
        km_Offset m < km_Offset later \<and> committable outcome refused later)) \<and>
    (\<not> interrupted outcome w \<longrightarrow> reported outcome w = fetched (sw_script w))"
proof -
  obtain c where c: "kc_consumers k' = kc_consumers k @ [c]"
      and r: "registered_consumer script_ops topic (script_handler outcome) c"
    using RegisterConsumer_registers [OF assms(1)] by blast
  let ?ms = "filter (committable outcome refused) (reported outcome w)"
  have sub: "set (reported outcome w) \<subseteq> set (fetched (sw_script w))"
    by (auto simp: reported_def dest: in_set_butlastD)
  have "\<exists>w' r. consumer_Run (script_reader refused) (last (kc_consumers k')) w = Some (w', r) \<and> sw_commits w' = ?ms"
    using consumer_loop_script [OF r assms(2), of refused] r assms(3)
    by (auto simp: c consumer_Run_def registered_consumer_def)
  moreover have "offsets_increase (reported outcome w)"
    using assms(4) by (simp add: reported_def offsets_increase_butlast)
  then have "(\<exists>n. next_offset (km_Partition m) ?ms = Some n \<and> km_Offset m < n) \<longleftrightarrow>
      (\<exists>later \<in> set ?ms. km_Partition later = km_Partition m \<and> km_Offset m \<le> km_Offset later)"
    by (intro next_offset_past offsets_increase_filter)
  moreover have "km_Offset m < km_Offset later"
    if "later \<in> set ?ms" "km_Partition later = km_Partition m" "km_Offset m \<le> km_Offset later" for later
  proof -
    have "later \<noteq> m" using that(1) assms(6) by (auto simp: committable_def)
    then have "km_Offset later \<noteq> km_Offset m"
      using offsets_distinct [OF assms(4) _ assms(5), of later] that sub by auto
    with that(3) show ?thesis by simp
  qed
  ultimately show ?thesis by (fastforce simp: less_imp_le reported_def)
qed

lemma failed_message_is_skipped_witness:
  "\<exists>k' w1 w' r. RegisterConsumer script_ops ''orders'' (Some (script_handler fails_first)) [] sample_client
        (sample_script_world False) = ((k', w1), None) \<and>
     consumer_Run (script_reader (\<lambda>m. None)) (last (kc_consumers k')) (sample_script_world False) = Some (w', r) \<and>
     (\<exists>n. next_offset 0 (sw_commits w') = Some n \<and> 7 < n)"
proof -
  obtain k' w1 where r: "RegisterConsumer script_ops ''orders'' (Some (script_handler fails_first)) []
      sample_client (sample_script_world False) = ((k', w1), None)" using sample_registration by blast
  let ?w = "sample_script_world False" and ?m = "sample_kafka_message 0 7"
  have s: "sw_commits ?w = []"
    and o: "offsets_increase (fetched (sw_script ?w))" and m: "?m \<in> set (fetched (sw_script ?w))"
    and f: "fails_first ?m \<noteq> None"
    by (simp_all add: sample_script_world_def sample_kafka_message_def offsets_increase_def fails_first_def)
  have l: "\<exists>later \<in> set (reported fails_first ?w). km_Partition later = km_Partition ?m \<and>
      km_Offset ?m < km_Offset later \<and> committable fails_first (\<lambda>m. None) later"
    by (simp add: reported_def interrupted_def sample_script_world_def sample_kafka_message_def committable_def fails_first_def)
  from failed_message_is_skipped [OF r sample_script_world_shared s o m f, of "\<lambda>m. None"] l r show ?thesis
    by (auto simp: sample_kafka_message_def)
qed

text \<open>
  C22. After the end of the context of \<^verbatim>\<open>Run\<close>, when the health checker has closed its channel, a producer that the
  client has registered is no longer safe to use: every call that writes its messages then panics in its report, after the
  messages are written and counted.  The channel stays closed, so this holds of every later call as well;
  only a call that fails to write returns, with the writer's error.\<close>

theorem closed_health_checker_crashes_producers:
  assumes "RegisterProducer script_ops N topic opts k w0 = ((k', w1), Ok p)"
    and "kc_brokers k \<noteq> []" and "kc_producers k topic = None"
    and "health_Run (script_over w) HealthDone h = Some h'" and "sw_health w = h'"
    and "kn_WriteMessages N (map (message_of topic) ms) w = (w2, err)" and "sw_health w2 = sw_health w"
  shows "\<exists>w3. Produce N p ms w = (w3, case err of None \<Rightarrow> Panic ''send on closed channel'' | Some e \<Rightarrow> Err e) \<and>
    script_over w \<and> w3 = w2\<lparr>sw_metrics := sw_metrics w3\<rparr> \<and> sw_health w3 = h' \<and>
    (err = None \<and> ms \<noteq> [] \<longrightarrow> sw_metrics w3 = sw_metrics w2 @
       [LatencySeconds topic ''produce'', MessagesTotal topic ''produce'' (length ms)]) \<and>
    (\<forall>d ev. health_Run d ev h' = None)"
proof -
  have closed: "hc_closed h'" "script_over w" using assms(4) by (auto simp: health_Run_def split: if_splits)
  obtain config where p: "p = built_producer script_ops topic config k"
    using RegisterProducer_client [OF assms(2,1)] assms(3) by auto
  have carrier: "(\<lambda>m. m\<lparr>km_Headers := km_Headers m @ carrier_headers (ko_carrier script_ops w)\<rparr>) = (\<lambda>m. m)"
    by (simp add: script_ops_def carrier_headers_def)
  have label: "(case map (message_of topic) ms of [] \<Rightarrow> [] | m # _ \<Rightarrow> km_Topic m) = (if ms = [] then [] else topic)"
    by (cases ms) (simp_all add: message_of_def)
  have now: "checker_now v = sw_health v" if "sw_health v = h'" for v
    using that closed by (simp add: checker_now_closed)
  show ?thesis
    using assms(5-7) closed
    by (cases err)
      (auto simp: Produce_def p createProduceChain_built convertSlice_map traceProduceMiddleware_def carrier
        healthCheckProducerMiddleware_def metricsProduceMiddleware_def write_messages_def label Let_def
        go_of_error_def now health_Update_closed closed_stays)
qed

definition sample_script_net :: "script_world kafka_net" where
  "sample_script_net =
     \<lparr>kn_dial = (\<lambda>d b. None), kn_Controller = (\<lambda>b. Inr (''c'', 9092)), kn_CreateTopics = (\<lambda>b t w. (w, None)),
      kn_WriteMessages = (\<lambda>ms w. (w, None))\<rparr>"

lemma closed_health_checker_crashes_producers_witness:
  "\<exists>k' w1 p w3. RegisterProducer script_ops sample_script_net ''orders'' [] sample_client (sample_script_world True) = ((k', w1), Ok p) \<and>
     Produce sample_script_net p [\<lparr>pm_Key = ''k'', pm_Value = ''v''\<rparr>]
       ((sample_script_world True)\<lparr>sw_script := [], sw_health := (newHealthChecker 0 30)\<lparr>hc_closed := True\<rparr>\<rparr>) =
     (w3, Panic ''send on closed channel'')"
proof -
  let ?w = "(sample_script_world True)\<lparr>sw_script := [], sw_health := (newHealthChecker 0 30)\<lparr>hc_closed := True\<rparr>\<rparr>"
  obtain k' w1 p where r: "RegisterProducer script_ops sample_script_net ''orders'' [] sample_client (sample_script_world True) =
      ((k', w1), Ok p)"
    by (simp add: RegisterProducer_def sample_client_def zero_producer_config_def newProducer_def
        createWriter_def Let_def)
  have b: "kc_brokers (sample_client :: script_world kafka_client) \<noteq> []" "kc_producers sample_client ''orders'' = None"
    by (simp_all add: sample_client_def)
  have d: "health_Run (script_over ?w) HealthDone (newHealthChecker 0 30) = Some ((newHealthChecker 0 30)\<lparr>hc_closed := True\<rparr>)"
    by (simp add: health_Run_def script_over_def newHealthChecker_def updateState_def)
  have "kn_WriteMessages sample_script_net (map (message_of ''orders'') [\<lparr>pm_Key = ''k'', pm_Value = ''v''\<rparr>]) ?w = (?w, None)"
    by (simp add: sample_script_net_def)
  from closed_health_checker_crashes_producers [OF r b d _ this] r show ?thesis by auto
qed

text \<open>
  In every client that the program can build, each producer is registered under its own non-empty topic
  and writes to the client's brokers without creating topics on its own, every consumer has a reader,
  registering a producer never panics, and the first producer of a topic stays, whatever is registered
  afterwards.
\<close>

theorem first_producer_stays:
  assumes "client_reachable K N k"
  shows "wf_client k \<and>
    (\<forall>topic opts w p. snd (RegisterProducer K N topic opts k w) \<noteq> Panic p) \<and>
    (\<forall>topic opts w k' w' p rs w2. RegisterProducer K N topic opts k w = ((k', w'), Ok p) \<longrightarrow>
       GetProducer topic (fst (register_producers K N rs k' w2)) = Some p)"
proof (intro conjI allI impI)
  show wf: "wf_client k" using assms by (rule wf_client_reachable)
  then have b: "kc_brokers k \<noteq> []" by (simp add: wf_client_def)
  show "snd (RegisterProducer K N topic opts k w) \<noteq> Panic p" for topic opts w p
    using RegisterProducer_client [OF b, of K N topic opts w] by (metis go.distinct(4,6) prod.collapse)
  show "GetProducer topic (fst (register_producers K N rs k' w2)) = Some p"
    if R: "RegisterProducer K N topic opts k w = ((k', w'), Ok p)" for topic opts w k' w' p rs w2
  proof -
    have "kc_producers k' topic = Some p"
      using RegisterProducer_client [OF b R] by (auto simp: producers.entry_add)
    with register_producers_keep [OF wf_RegisterProducer [OF wf R]] show ?thesis
      by (simp add: GetProducer_def)
  qed
qed

definition sample_net :: "unit kafka_net" where
  "sample_net =
     \<lparr>kn_dial = (\<lambda>d b. if b = ''b1'' then Some (Sentinel ''refused'') else None),
      kn_Controller = (\<lambda>b. Inr (''c'', 9092)), kn_CreateTopics = (\<lambda>b t w. (w, None)),
      kn_WriteMessages = (\<lambda>ms w. (w, None))\<rparr>"

definition sample_kafka_ops :: "unit kafka_ops" where
  "sample_kafka_ops = \<lparr>ko_update = (\<lambda>e w. (w, Ok ())), ko_metric = (\<lambda>m w. w), ko_carrier = (\<lambda>w. [])\<rparr>"

lemma first_producer_stays_witness:
  "\<exists>k k' w' p. NewKafkaClient [''b1''] ''shop'' [WithTLS (Some 1)] = Inr k \<and>
     RegisterProducer sample_kafka_ops sample_net ''orders'' [] k () = ((k', w'), Ok p) \<and>
     GetProducer ''orders'' (fst (register_producers sample_kafka_ops sample_net
       [(''orders'', [WithBatchTimeout 9]), (''mail'', [])] k' ())) = Some p"
proof -
  obtain k :: "unit kafka_client" where k: "NewKafkaClient [''b1''] ''shop'' [WithTLS (Some 1)] = Inr k"
    by (simp add: NewKafkaClient_def)
  then have "client_reachable sample_kafka_ops sample_net k" by (rule cr_new [rotated]) simp
  note P = first_producer_stays [OF this]
  have kp: "kc_producers k = Map.empty" "kc_brokers k = [''b1'']"
    using k by (auto simp: NewKafkaClient_def WithTLS_def)
  obtain k' w' p where "RegisterProducer sample_kafka_ops sample_net ''orders'' [] k () = ((k', w'), Ok p)"
    by (simp add: RegisterProducer_def kp zero_producer_config_def newProducer_def createWriter_def Let_def)
  with P k show ?thesis by blast
qed

text \<open>
  The forced health check is nil exactly when some broker can be dialled and names its controller;
  otherwise the error tells what failed at every broker.
\<close>

theorem force_check_result:
  "(forceHealthCheck N k = None \<longleftrightarrow>
      (\<exists>b \<in> set (kc_brokers k). kn_dial N (kc_dialer k) b = None \<and> (\<exists>c. kn_Controller N b = Inr c))) \<and>
   (forceHealthCheck N k \<noteq> None \<longrightarrow>
      (\<forall>b \<in> set (kc_brokers k). \<forall>n.
         (kn_dial N (kc_dialer k) b = Some (Sentinel n) \<or>
          (kn_dial N (kc_dialer k) b = None \<and> kn_Controller N b = Inl (Sentinel n))) \<longrightarrow>
         errors_Is (forceHealthCheck N k) (Sentinel n)))"
  unfolding forceHealthCheck_def using force_loop_None_iff force_loop_reports [OF refl] by metis

lemma force_check_result_witness:
  "forceHealthCheck sample_net (sample_client\<lparr>kc_brokers := [''b1'', ''b2'']\<rparr>) = None \<and>
   errors_Is (forceHealthCheck sample_net sample_client) (Sentinel ''refused'')"
proof -
  have dial: "kn_dial sample_net d ''b1'' = Some (Sentinel ''refused'')" "kn_dial sample_net d ''b2'' = None"
    "kn_Controller sample_net b = Inr (''c'', 9092)" for d b by (simp_all add: sample_net_def)
  note P = force_check_result [of sample_net sample_client]
    and Q = force_check_result [of sample_net "sample_client\<lparr>kc_brokers := [''b1'', ''b2'']\<rparr>"]
  have "forceHealthCheck sample_net sample_client \<noteq> None" using P by (simp add: sample_client_def dial)
  with P have "errors_Is (forceHealthCheck sample_net sample_client) (Sentinel ''refused'')"
    by (simp add: sample_client_def dial)
  moreover have "forceHealthCheck sample_net (sample_client\<lparr>kc_brokers := [''b1'', ''b2'']\<rparr>) = None"
    using Q by (simp add: dial)
  ultimately show ?thesis by blast
qed

text \<open>
  A registered producer writes the caller's messages in order, each with the producer's topic and the
  headers of the trace, and counts the call once: as a failure with the writer's error, or as the
  number of messages together with a report to the health checker.
\<close>

theorem produce_writes_to_topic:
  assumes "kc_brokers k \<noteq> []" and "kc_producers k topic = None"
    and "RegisterProducer K N topic opts k w0 = ((k', w1), Ok p)"
    and "kn_WriteMessages N (map (\<lambda>m. (message_of topic m)\<lparr>km_Headers := carrier_headers (ko_carrier K w)\<rparr>) ms) w = (w2, err)"
  shows "Produce N p ms w =
    (let label = (if ms = [] then [] else topic);
         latency = ko_metric K (LatencySeconds label ''produce'') w2
     in case err of
       Some e \<Rightarrow> (ko_metric K (ErrorsTotal label ''produce'' 1) latency, Err e)
     | None \<Rightarrow>
         (case ko_update K None (ko_metric K (MessagesTotal label ''produce'' (length ms)) latency) of
            (w3, Panic x) \<Rightarrow> (w3, Panic x)
          | (w3, _) \<Rightarrow> (w3, Ok ())))"
proof -
  obtain config where p: "p = built_producer K topic config k"
    using RegisterProducer_client [OF assms(1,3)] assms(2) by auto
  have label: "(case map f ms of [] \<Rightarrow> [] | m # _ \<Rightarrow> km_Topic m) = (if ms = [] then [] else topic)"
    if "\<And>m. km_Topic (f m) = topic" for f
    using that by (cases ms) auto
  show ?thesis
    using assms(4)
    by (cases err)
      (auto simp: Produce_def p createProduceChain_built convertSlice_map traceProduceMiddleware_def
        message_of_def healthCheckProducerMiddleware_def metricsProduceMiddleware_def write_messages_def
        comp_def label Let_def go_of_error_def split: prod.splits go.splits)
qed

lemma produce_writes_to_topic_witness:
  "\<exists>k' w1 p. RegisterProducer sample_kafka_ops sample_net ''orders'' [] sample_client () = ((k', w1), Ok p) \<and>
     Produce sample_net p [\<lparr>pm_Key = ''k'', pm_Value = ''v''\<rparr>] () = ((), Ok ())"
proof -
  have b: "kc_brokers sample_client \<noteq> []" and n: "kc_producers sample_client ''orders'' = None"
    by (simp_all add: sample_client_def)
  obtain k' w1 p where
    r: "RegisterProducer sample_kafka_ops sample_net ''orders'' [] sample_client () = ((k', w1), Ok p)"
    by (simp add: RegisterProducer_def sample_client_def zero_producer_config_def newProducer_def
        createWriter_def Let_def)
  have "kn_WriteMessages sample_net ms () = ((), None)" for ms by (simp add: sample_net_def)
  from produce_writes_to_topic [OF b n r this] have
    "Produce sample_net p [\<lparr>pm_Key = ''k'', pm_Value = ''v''\<rparr>] () = ((), Ok ())"
    by (simp add: sample_kafka_ops_def Let_def)
  with r show ?thesis by blast
qed

section \<open>Workflows\<close>

text \<open>
  C23. A task whose handler keeps failing ends in an incident: with \<open>r\<close> retries on the job when it is first
  activated and the limit \<open>m\<close> of its configuration the handler runs exactly \<open>max 1 (m - r)\<close> times, so
  that a job with Zeebe's three retries and the default limit of five is tried twice; an error made by
  \<^verbatim>\<open>MakeIncident\<close> and a panic stop it after one run.
\<close>

theorem failing_task_attempts:
  assumes "jb_Variables job = Inr vars"
    and "\<And>t w. \<exists>w' e. handler t w = (w', Err e) \<and> \<not> errors_Is (Some e) ErrWorkflowIncident"
    and "0 \<le> sint (jb_Retries job)" and "sint (jb_Retries job) < 2147483647"
  shows "(\<exists>w' cmds e. task_runs (taskHandlerWrapper name handler config) job w = Some (w', cmds) \<and>
      length cmds = nat (max 1 (sint (th_IncidentMaxRetries config) - sint (jb_Retries job))) \<and>
      last cmds = Some (Incident (jb_Key job) e)) \<and>
    (\<exists>cmd. task_runs (taskHandlerWrapper name (\<lambda>t w. (w, Err (the (MakeIncidentErr err)))) config) job w =
        Some (w, [Some (Incident (jb_Key job) cmd)])) \<and>
    task_runs (taskHandlerWrapper name (\<lambda>t w. (w, Panic p)) config) job w =
      Some (w, [Some (Incident (jb_Key job) (Sentinel p))])"
proof (intro conjI)
  show "\<exists>w' cmds e. task_runs (taskHandlerWrapper name handler config) job w = Some (w', cmds) \<and>
      length cmds = nat (max 1 (sint (th_IncidentMaxRetries config) - sint (jb_Retries job))) \<and>
      last cmds = Some (Incident (jb_Key job) e)"
    by (rule task_runs_failing [OF assms])
  have "errors_Is (Some (the (MakeIncidentErr err))) ErrWorkflowIncident"
    using MakeIncidentErr_Is [of err] by (cases "MakeIncidentErr err") auto
  then show "\<exists>cmd. task_runs (taskHandlerWrapper name (\<lambda>t w. (w, Err (the (MakeIncidentErr err)))) config) job w =
      Some (w, [Some (Incident (jb_Key job) cmd)])"
    by (subst task_runs.simps)
      (simp add: taskHandlerWrapper_def assms(1) handleIncidentTask_def zeebe_after_def)
  show "task_runs (taskHandlerWrapper name (\<lambda>t w. (w, Panic p)) config) job w =
      Some (w, [Some (Incident (jb_Key job) (Sentinel p))])"
    by (subst task_runs.simps)
      (simp add: taskHandlerWrapper_def assms(1) handleIncidentTask_def zeebe_after_def)
qed

definition sample_job :: "unit job" where
  "sample_job = \<lparr>jb_Key = 1, jb_ProcessDefinitionKey = 2, jb_Retries = 3, jb_Variables = Inr Map.empty\<rparr>"

definition out_of_stock :: "(unit, nat) task_handler" where
  "out_of_stock t w = (Suc w, Err (Sentinel ''out of stock''))"

lemma failing_task_attempts_witness:
  "\<exists>w' cmds. task_runs (taskHandlerWrapper ''pay'' out_of_stock (fillDefaults zero_config)) sample_job 0 = Some (w', cmds) \<and>
     length cmds = 2"
proof -
  have v: "jb_Variables sample_job = Inr Map.empty" by (simp add: sample_job_def)
  have h: "\<exists>w' e. out_of_stock t w = (w', Err e) \<and> \<not> errors_Is (Some e) ErrWorkflowIncident" for t w
    by (simp add: out_of_stock_def ErrWorkflowIncident_def)
  have r: "0 \<le> sint (jb_Retries sample_job)" "sint (jb_Retries sample_job) < 2147483647"
    by (simp_all add: sample_job_def)
  from conjunct1 [OF failing_task_attempts [where name = "''pay''" and handler = out_of_stock and config = "fillDefaults zero_config" and w = 0
      and err = None and p = "[]", OF v h r]]
  obtain w' cmds where "task_runs (taskHandlerWrapper ''pay'' out_of_stock (fillDefaults zero_config)) sample_job 0 = Some (w', cmds)"
      "length cmds = nat (max 1 (sint (th_IncidentMaxRetries (fillDefaults zero_config)) - sint (jb_Retries sample_job)))"
    by blast
  then show ?thesis by (simp add: sample_job_def fillDefaults_def zero_config_def maxRetryCountBeforeIncident_def)
qed

text \<open>
  No task handler ever runs: the map of handlers is never made, so that on every builder the program
  can build \<^verbatim>\<open>WithHandler\<close> panics, and \<^verbatim>\<open>runWorkflow\<close>, which subscribes only when the map is empty, leaves the
  service without workers, however it ends.
\<close>

theorem no_handler_is_subscribed:
  assumes "builder_reachable b"
  shows "(\<exists>p. WithHandler taskName handler config b = Panic p) \<and>
    (\<forall>svc w' r. builder_runWorkflow Z b (builder_service b) w = Some (svc, w', r) \<longrightarrow> ws_taskWorkers svc = [])"
  using builder_reachable_no_handlers [OF assms]
  by (auto simp: WithHandler_def Let_def builder_service_def dest: builder_runWorkflow_workers)

definition sample_zeebe :: "(unit, string list) zeebe_ops" where
  "sample_zeebe =
     \<lparr>zb_Done = (\<lambda>w. False), zb_Wait = (\<lambda>w. (w, False)), zb_NewClient = (\<lambda>h w. (w, None)),
      zb_Deploy = (\<lambda>p w. (w @ [p], None)), zb_OpenWorker = (\<lambda>k w. w @ [wk_JobType k]), zb_Encode = (\<lambda>v. None),
      zb_CreateInstance = (\<lambda>n v w. (w @ [n], Inr \<lparr>wi_ProcessName = n, wi_ProcessVersion = 1, wi_ProcessInstanceId = 7\<rparr>)),
      zb_Publish = (\<lambda>m c t v w. (w @ [m], None)), zb_CloseWorker = (\<lambda>k w. w), zb_CloseClient = (\<lambda>w. (w, None))\<rparr>"

definition sample_builder :: "(unit, string list) workflow_builder" where
  "sample_builder = WithProcess ''pay.bpmn'' (NewWorkflowBuilder ''shop'' ''zeebe:26500'' [] [])"

lemma sample_run_workflow:
  "builder_runWorkflow sample_zeebe sample_builder (builder_service sample_builder) [] =
     Some (\<lparr>ws_serviceName = ''shop'', ws_client = True, ws_taskWorkers = [], ws_readyToWork = True\<rparr>,
       [''pay.bpmn''], Ok ())"
proof -
  have "connect_loop sample_zeebe host w = Some (w, True)" for host w
    by (subst connect_loop.simps) (simp add: sample_zeebe_def)
  then show ?thesis
    by (simp add: builder_runWorkflow_def sample_zeebe_def sample_builder_def WithProcess_def
      NewWorkflowBuilder_def builder_service_def SetClient_def ReadyToWork_def DeployBpmn_def
      builder_handlers_def Let_def)
qed

lemma no_handler_is_subscribed_witness:
  "(\<exists>p. WithHandler ''pay'' (\<lambda>t w. (w, Ok ())) [] sample_builder = Panic p) \<and>
   (\<exists>svc w' r. builder_runWorkflow sample_zeebe sample_builder (builder_service sample_builder) [] = Some (svc, w', r) \<and>
      ws_taskWorkers svc = [])"
proof -
  have "builder_reachable sample_builder" unfolding sample_builder_def by (intro br_process br_new)
  from no_handler_is_subscribed [OF this, of "''pay''" "\<lambda>t w. (w, Ok ())" "[]" sample_zeebe "[]"] sample_run_workflow
  show ?thesis by blast
qed

text \<open>
  A workflow service is never used before it has its client: whatever \<^verbatim>\<open>runWorkflow\<close> did before it
  ended, starting a process, sending an event and closing never dereference a nil client; before the
  processes are deployed the first two send nothing and answer that the client is not ready, and closing is
  nil.
\<close>

theorem workflow_waits_for_client:
  assumes "svc = builder_service b \<or> builder_runWorkflow Z b (builder_service b) w0 = Some (svc, w1, r)"
  shows "snd (StartProcess Z name vars svc w) \<noteq> Panic p \<and> snd (SendEvent Z key cor vars svc w) \<noteq> Panic p \<and>
    snd (workflow_Close Z svc w) \<noteq> Panic p \<and>
    (\<not> ws_readyToWork svc \<longrightarrow>
       StartProcess Z name vars svc w = (w, Err ErrWorkflowIsNotReady) \<and>
       SendEvent Z key cor vars svc w = (w, Err ErrWorkflowIsNotReady) \<and> workflow_Close Z svc w = (w, Ok ()))"
proof -
  have "wf_service svc" using assms wf_builder_runWorkflow wf_builder_service by metis
  then show ?thesis
    by (auto simp: wf_service_def StartProcess_def SendEvent_def workflow_Close_def Let_def go_of_error_def
        split: option.splits prod.splits sum.splits)
qed

lemma workflow_waits_for_client_witness:
  "StartProcess sample_zeebe ''pay'' Map.empty (builder_service sample_builder) [] = ([], Err ErrWorkflowIsNotReady)"
proof -
  have "builder_service sample_builder = builder_service sample_builder \<or>
    builder_runWorkflow sample_zeebe sample_builder (builder_service sample_builder) [] =
      Some (builder_service sample_builder, [], Ok ())" by simp
  from workflow_waits_for_client [OF this] show ?thesis by (simp add: builder_service_def)
qed

section \<open>Redis\<close>

text \<open>
  A value that was set is what a get scans: over a server that answers a key with what was last written
  under it, a successful \<^verbatim>\<open>Set\<close> followed by \<^verbatim>\<open>Get\<close> and \<^verbatim>\<open>Scan\<close> gives the value back, another
  key answers as before, and a key without a value is reported as not found by \<^verbatim>\<open>IsNotFound\<close> and as
  the error of \<^verbatim>\<open>Scan\<close>.
\<close>

theorem redis_value_round_trip:
  assumes codec: "\<And>v b. co_Marshal C v = Inr b \<Longrightarrow> co_Unmarshal C b = Inr v"
    and get: "\<And>key w. ro_Get R (universal c) key w =
      (w, case kept w key of Some b \<Rightarrow> (b, None) | None \<Rightarrow> ([], Some ErrNotFound))"
    and set: "\<And>key b ttl w w'. ro_Set R (universal c) key b ttl w = (w', None) \<Longrightarrow> kept w' = (kept w)(key \<mapsto> b)"
    and run: "redis_Set R C key val ttl c w = ((c', w'), None)"
  shows "Scan C (snd (redis_Get R key c' w')) = Inr val \<and>
    (other \<noteq> key \<longrightarrow> snd (redis_Get R other c' w') = snd (redis_Get R other c w)) \<and>
    (kept w absent = None \<longrightarrow> IsNotFound (snd (redis_Get R absent c w)) \<and>
       Scan C (snd (redis_Get R absent c w)) = Inl ErrNotFound)"
proof -
  obtain b where b: "co_Marshal C val = Inr b" using run by (auto simp: redis_Set_def split: sum.splits)
  have s: "ro_Set R (universal c) key b ttl w = (w', None)" and c': "c' = touched R None w' c"
    using run b by (auto simp: redis_Set_def split: prod.splits)
  have u: "universal c' = universal c" by (simp add: c' touched_def touchActivity_def universal_def)
  have "errors_is ErrNotFound ErrNotFound" by (simp add: ErrNotFound_def)
  then show ?thesis
    using set [OF s] codec [OF b]
    by (auto simp: redis_Get_def u get Scan_def IsNotFound_def split: option.splits)
qed

definition sample_redis :: "(string \<rightharpoonup> string) redis_ops" where
  "sample_redis =
     \<lparr>ro_NewUniversalClient = (\<lambda>cfg w. (w, 1)), ro_Ping = (\<lambda>n w. (w, None)), ro_Close = (\<lambda>n w. (w, None)),
      ro_Get = (\<lambda>n key w. (w, case w key of Some b \<Rightarrow> (b, None) | None \<Rightarrow> ([], Some ErrNotFound))),
      ro_Set = (\<lambda>n key b ttl w. (w(key \<mapsto> b), None)), ro_Del = (\<lambda>n ks w. (w |` (- set ks), None)),
      ro_Publish = (\<lambda>n ch b w. (w, None)), ro_Subscribe = (\<lambda>n chs w. (w, n)), ro_Receive = (\<lambda>n w. (w, None)),
      ro_ClosePubSub = (\<lambda>n w. (w, None)), ro_NewContext = (\<lambda>w. (w, 5)), ro_Now = (\<lambda>w. 1000)\<rparr>"

definition sample_codec :: "string codec" where
  "sample_codec = \<lparr>co_Marshal = (\<lambda>v. Inr (''q'' @ v)), co_Unmarshal = (\<lambda>b. Inr (drop 1 b))\<rparr>"

definition sample_redis_config :: redis_config where
  "sample_redis_config =
     \<lparr>rd_Addrs = [''r1''], rd_DB = 0, rd_PoolSize = 10, rd_DialTimeout = 0, rd_ReadTimeout = 0, rd_WriteTimeout = 0,
      rd_Username = [], rd_Password = []\<rparr>"

lemma redis_value_round_trip_witness:
  "\<exists>c' w'. redis_Set sample_redis sample_codec ''k'' ''v'' 0 (empty_client sample_redis_config) Map.empty = ((c', w'), None) \<and>
     Scan sample_codec (snd (redis_Get sample_redis ''k'' c' w')) = Inr ''v''"
proof -
  obtain c' w' where
    r: "redis_Set sample_redis sample_codec ''k'' ''v'' 0 (empty_client sample_redis_config) Map.empty = ((c', w'), None)"
    by (simp add: redis_Set_def sample_codec_def sample_redis_def)
  have "Scan sample_codec (snd (redis_Get sample_redis ''k'' c' w')) = Inr ''v''"
    by (rule conjunct1 [OF redis_value_round_trip [where kept = "\<lambda>w. w" and other = "''k''" and absent = "''x''", OF _ _ _ r]])
      (auto simp: sample_codec_def sample_redis_def)
  with r show ?thesis by blast
qed

text \<open>
  C24. The health check of Redis is the result of the last ping of its loop.  A client that was just created,
  whose connection answered a ping, is unhealthy until the first ping of the loop; an error of another
  dynamic type than an earlier one does not become the result but panics.
\<close>

theorem redis_health_is_last_ping:
  assumes "redis_New R cfg w = (w', Inr c)"
  shows "redis_HealthCheck c = Some (Sentinel ''redis unhealthy'') \<and>
    (\<forall>c'. health_run type_of ticks c = Ok c' \<longrightarrow>
       redis_HealthCheck c' = (if pings c ticks = [] then Some (Sentinel ''redis unhealthy'') else last (pings c ticks))) \<and>
    (\<forall>e e'. Some e \<in> set (pings c ticks) \<and> Some e' \<in> set (pings c ticks) \<and> type_of e \<noteq> type_of e' \<longrightarrow>
       (\<exists>p. health_run type_of ticks c = Panic p))"
proof -
  have fresh: "redis_HealthCheck c = Some (Sentinel ''redis unhealthy'')"
    using redis_New_Inr [OF assms] by (simp add: HealthCheck_health newHealthLoop_def)
  have "\<exists>p. health_run type_of ticks c = Panic p"
    if "Some e \<in> set (pings c ticks)" "Some e' \<in> set (pings c ticks)" "type_of e \<noteq> type_of e'" for e e'
    using that health_run_types [of type_of ticks c _ e e'] health_run_not_Err [of type_of ticks c]
    by (cases "health_run type_of ticks c") auto
  with fresh health_run_last [of type_of ticks c] show ?thesis by metis
qed

lemma redis_health_is_last_ping_witness:
  "\<exists>c c'. redis_New sample_redis sample_redis_config Map.empty = (Map.empty, Inr c) \<and>
     redis_HealthCheck c = Some (Sentinel ''redis unhealthy'') \<and>
     health_run (\<lambda>e. []) [(1500, None, 7)] c = Ok c' \<and> redis_HealthCheck c' = None"
proof -
  obtain c where c: "redis_New sample_redis sample_redis_config Map.empty = (Map.empty, Inr c)" and l: "lastUsed c = 1000"
    by (simp add: redis_New_def rebildClient_def sample_redis_def empty_client_def touchActivity_def lastUsed_def)
  obtain c' where c': "health_run (\<lambda>e. []) [(1500, None, 7)] c = Ok c'"
    using l by (simp add: health_tick_def health_interval_def)
  have "pings c [(1500, None, 7)] = [None]" using l by (simp add: health_interval_def)
  with redis_health_is_last_ping [OF c, of "\<lambda>e. []" "[(1500, None, 7)]"] c' have
    "redis_HealthCheck c = Some (Sentinel ''redis unhealthy'')" "redis_HealthCheck c' = None" by simp_all
  with c c' show ?thesis by blast
qed

text \<open>
  A rebuild of the connection loses nothing it reports and reports nothing it loses: if the new connection
  does not answer, the client is unchanged and the error returned; otherwise the result is nil, the
  client uses the new connection, and each subscriber has a confirmed subscription there or, when it is
  closed or its confirmation failed, still the old one.
\<close>

theorem rebuild_moves_subscribers:
  assumes "rebildClient R cfg c w = ((c', w'), err)"
  shows "(err \<noteq> None \<and> c' = c) \<or>
    (err = None \<and> (\<exists>newcli v1 v2 now. ro_NewUniversalClient R cfg w = (v1, newcli) \<and> ro_Ping R newcli v1 = (v2, None) \<and>
       c' = c\<lparr>rc_subs := rc_subs c', rc_cli := Some newcli, rc_lastActivity := now\<rparr> \<and>
       list_all2 (\<lambda>s s'. s' = s \<or> (\<not> sb_closed s \<and> resubscribed R newcli s s')) (rc_subs c) (rc_subs c')))"
  by (rule rebildClient_outcome [OF assms])

lemma rebuild_moves_subscribers_witness:
  "\<exists>c' w'. rebildClient sample_redis sample_redis_config (empty_client sample_redis_config) Map.empty = ((c', w'), None) \<and>
     rc_cli c' = Some 1"
proof -
  obtain c' w' where r: "rebildClient sample_redis sample_redis_config (empty_client sample_redis_config) Map.empty = ((c', w'), None)"
    by (simp add: rebildClient_def sample_redis_def empty_client_def)
  from rebuild_moves_subscribers [OF r] obtain now where
    "c' = (empty_client sample_redis_config)\<lparr>rc_subs := rc_subs c', rc_cli := Some 1, rc_lastActivity := now\<rparr>"
    by (auto simp: sample_redis_def)
  from arg_cong [OF this, of rc_cli] have "rc_cli c' = Some 1" by simp
  with r show ?thesis by blast
qed

text \<open>
  C25. The goroutine of a subscriber can crash the process when the connection under it goes away.  As long as the
  connection was not rebuilt and the client is not closed, it never panics and is the only one, in every
  interleaving of messages, of the user's close and of the end of the contexts.  But whenever it waits on a
  subscription whose pool is closed, while its subscriber is open, the process can panic on the nil message of
  the closed channel.  That is so after \<^verbatim>\<open>Close\<close> of the client, and after a rebuild whose new subscription was not
  confirmed, which keeps the old one and closes its pool.  A rebuild that resubscribes can end in the same panic,
  when the old goroutine sees its closed channel before its cancelled context, or in two goroutines on the new
  subscription.\<close>

theorem rebuild_can_crash_forwarder:
  "(\<forall>s. forward_reachable s \<and> fs_rebuilds s = 0 \<and> fs_pools s = [] \<longrightarrow> \<not> fs_panicked s \<and> length (fs_waiting s) \<le> 1) \<and>
   (\<forall>s p c. forward_reachable s \<and> \<not> fs_closed s \<and> (p, c) \<in> set (fs_waiting s) \<and> fst p \<in> set (fs_pools s) \<longrightarrow>
      (\<exists>s'. forward_step\<^sup>*\<^sup>* s s' \<and> \<not> fs_closed s' \<and> fs_panicked s')) \<and>
   (\<exists>s. forward_reachable s \<and> fs_rebuilds s = 0 \<and> \<not> fs_closed s \<and> fs_waiting s = [(fs_pubsub s, fs_ctx s)] \<and>
      fst (fs_pubsub s) \<in> set (fs_pools s)) \<and>
   (\<exists>s. forward_reachable s \<and> fs_rebuilds s = 1 \<and> \<not> fs_closed s \<and> fs_waiting s = [(fs_pubsub s, fs_ctx s)] \<and>
      fs_conn s \<notin> set (fs_pools s) \<and> fst (fs_pubsub s) \<in> set (fs_pools s)) \<and>
   (\<exists>s. forward_reachable s \<and> fs_rebuilds s = 1 \<and> fs_pools s = [] \<and> \<not> fs_closed s \<and> fs_panicked s) \<and>
   (\<exists>s. forward_reachable s \<and> fs_waiting s = [((1, 0), 1), ((1, 0), 1)] \<and> fs_pubsub s = (1, 0) \<and> fs_conn s = 1 \<and>
      fs_cancels s = [] \<and> fs_closes s = [])"
proof (intro conjI)
  show "\<forall>s. forward_reachable s \<and> fs_rebuilds s = 0 \<and> fs_pools s = [] \<longrightarrow> \<not> fs_panicked s \<and> length (fs_waiting s) \<le> 1"
    using calm_reachable unfolding calm_def by blast
  show "\<forall>s p c. forward_reachable s \<and> \<not> fs_closed s \<and> (p, c) \<in> set (fs_waiting s) \<and> fst p \<in> set (fs_pools s) \<longrightarrow>
      (\<exists>s'. forward_step\<^sup>*\<^sup>* s s' \<and> \<not> fs_closed s' \<and> fs_panicked s')"
    using closed_pool_crash by blast
  show "\<exists>s. forward_reachable s \<and> fs_rebuilds s = 0 \<and> \<not> fs_closed s \<and> fs_waiting s = [(fs_pubsub s, fs_ctx s)] \<and>
      fst (fs_pubsub s) \<in> set (fs_pools s)"
    using client_closed_reachable by (intro exI [of _ client_closed]) (simp add: client_closed_def forward_init_def)
  show "\<exists>s. forward_reachable s \<and> fs_rebuilds s = 1 \<and> \<not> fs_closed s \<and> fs_waiting s = [(fs_pubsub s, fs_ctx s)] \<and>
      fs_conn s \<notin> set (fs_pools s) \<and> fst (fs_pubsub s) \<in> set (fs_pools s)"
    using kept_back_reachable by (intro exI [of _ kept_back]) (simp add: kept_back_def forward_init_def)
qed (rule forward_crash forward_doubled)+

lemma rebuild_can_crash_forwarder_witness:
  "\<not> fs_panicked (forward_init\<lparr>fs_out := [''m'']\<rparr>) \<and>
   (\<exists>s'. forward_step\<^sup>*\<^sup>* client_closed s' \<and> fs_panicked s')"
proof -
  have "forward_reachable forward_init" by (simp add: forward_reachable_def)
  moreover have "forward_step forward_init (forward_init\<lparr>fs_out := [''m'']\<rparr>)"
    using fw_message [of 0 forward_init "''m''"] by (simp add: forward_init_def)
  ultimately have "forward_reachable (forward_init\<lparr>fs_out := [''m'']\<rparr>)" by (rule forward_step_reachable)
  moreover have "fs_rebuilds (forward_init\<lparr>fs_out := [''m'']\<rparr>) = 0" "fs_pools (forward_init\<lparr>fs_out := [''m'']\<rparr>) = []"
    by (simp_all add: forward_init_def)
  ultimately have "\<not> fs_panicked (forward_init\<lparr>fs_out := [''m'']\<rparr>)"
    using conjunct1 [OF rebuild_can_crash_forwarder] by blast
  moreover have "\<not> fs_closed client_closed" "((0, 0), 0) \<in> set (fs_waiting client_closed)"
    "fst (0, 0) \<in> set (fs_pools client_closed)" by (simp_all add: client_closed_def forward_init_def)
  with client_closed_reachable conjunct1 [OF conjunct2 [OF rebuild_can_crash_forwarder]]
  have "\<exists>s'. forward_step\<^sup>*\<^sup>* client_closed s' \<and> fs_panicked s'" by blast
  ultimately show ?thesis by blast
qed

text \<open>
  The gauge of connections in use is the difference of the pool's totals as long as no more are idle than
  open; when a snapshot of the two counters says otherwise, the difference wraps around, and the guard
  against negative numbers does not catch it.
\<close>

theorem pool_gauge_wraps:
  "snd (snd (pool_gauges conns idle)) =
     (if unat idle \<le> unat conns then unat conns - unat idle else unat conns + 4294967296 - unat idle)"
  by (rule pool_gauges_in_use)



section \<open>Translations\<close>

text \<open>
  C27. What is uploaded to Tolgee is what the file holds: the dictionary read from a file (key, then language) is
  turned into one by language and that into the keys of the import, and in whatever order the maps are
  walked the import has exactly one entry per key, with the configured tags, whose text in each
  language is the file's.
\<close>

theorem upload_matches_file:
  assumes "wf_dictionary file" and "km = keys_map (convertKeysToDictionary file) tags" and "mset (schedule km) = mset km"
  shows "distinct (map ik_Name (convertDictionaryToImportKeys schedule (convertKeysToDictionary file) tags)) \<and>
    (\<forall>k \<in> set (convertDictionaryToImportKeys schedule (convertKeysToDictionary file) tags).
       ik_Tags k = tags \<and> (\<forall>lang. map_of (ik_Translations k) lang = text_at file (ik_Name k) lang)) \<and>
    (\<forall>key lang text. text_at file key lang = Some text \<longrightarrow>
       key \<in> ik_Name ` set (convertDictionaryToImportKeys schedule (convertKeysToDictionary file) tags))"
proof -
  let ?dict = "convertKeysToDictionary file"
  note entries = import_keys_entries [of schedule ?dict tags, OF assms(3) [unfolded assms(2)]]
  have wf: "wf_keys tags (keys_map ?dict tags)" by (rule wf_keys_map)
  have key_text: "key_text (keys_map ?dict tags) (key, lang) = text_at file key lang" for key lang
    by (simp add: key_text_keys_map wf_convertKeys text_at_convertKeys [OF assms(1)])
  have "ik_Tags k = tags \<and> (\<forall>lang. map_of (ik_Translations k) lang = text_at file (ik_Name k) lang)"
    if "k \<in> snd ` set (keys_map ?dict tags)" for k
  proof -
    obtain key where m: "(key, k) \<in> set (keys_map ?dict tags)" using \<open>k \<in> _\<close> by auto
    then have k: "ik_Name k = key" "ik_Tags k = tags" "map_of (keys_map ?dict tags) key = Some k"
      using wf by (auto simp: wf_keys_def intro: map_of_is_SomeI)
    with key_text [of key] show ?thesis by (simp add: key_text_def)
  qed
  moreover have "key \<in> ik_Name ` snd ` set (keys_map ?dict tags)" if "text_at file key lang = Some t" for key lang t
  proof -
    obtain k where "map_of (keys_map ?dict tags) key = Some k"
      using key_text [of key lang] \<open>text_at file key lang = _\<close> by (auto simp: key_text_def bind_eq_Some_conv)
    then have "(key, k) \<in> set (keys_map ?dict tags)" by (rule map_of_SomeD)
    moreover have "ik_Name k = key" using wf calculation by (auto simp: wf_keys_def)
    ultimately show ?thesis by force
  qed
  ultimately show ?thesis using entries by auto
qed

definition sample_file :: dictionary where
  "sample_file = [(''hello'', [(''en'', ''Hello''), (''fr'', ''Bonjour'')]), (''bye'', [(''en'', ''Bye'')])]"

lemma upload_matches_file_witness:
  "distinct (map ik_Name (convertDictionaryToImportKeys rev (convertKeysToDictionary sample_file) [''backend'']))"
proof -
  have "wf_dictionary sample_file" by (simp add: wf_dictionary_def sample_file_def)
  from conjunct1 [OF upload_matches_file [where schedule = rev and tags = "[''backend'']", OF this refl mset_rev]] show ?thesis .
qed

text \<open>
  C28. A load that returns nil has parsed every message of every language and put its template into the
  catalogue under the language's tag, and has left the other languages as they were.
\<close>

theorem load_adds_every_message:
  fixes t :: "('tag, 'f, 'p) manager"
  assumes "manager_Load L parse loader t w = Some (Ok (t', w', None))" and "loader (tm_langs t) w = (w', Inr d)"
    and "wf_dictionary d" and "inj_on parse (fst ` set d)"
  shows "(\<forall>(lang, raw) \<in> set d. \<exists>tag. parse lang = Inr tag \<and> (\<forall>(key, text) \<in> set raw. \<exists>m. parseICU key text = Ok m \<and>
      getMessage tag key (tm_bundler t') =
        newMessageTemplate m (b_leftDelim (tm_bundler t)) (b_rightDelim (tm_bundler t)))) \<and>
    (\<forall>tag key. Inr tag \<notin> parse ` fst ` set d \<longrightarrow> getMessage tag key (tm_bundler t') = getMessage tag key (tm_bundler t))"
proof -
  have "load_langs L parse d (tm_bundler t) = Some (Ok (tm_bundler t', None))"
    using assms(1,2) by (auto simp: manager_Load_def go_bind_Ok_iff split: option.splits)
  from load_langs_None [OF this assms(3,4)] show ?thesis by blast
qed

lemma load_adds_every_message_witness:
  "\<exists>t'. manager_Load flat_tags (\<lambda>l. Inr l) (\<lambda>ls w. (w, Inr [(''en'', [(''a'', ''x'')])])) (translations_NewManager sample_bundle [''en'']) () =
       Some (Ok (t', (), None)) \<and>
     getMessage ''en'' ''a'' (tm_bundler t') =
       newMessageTemplate ((empty_message ''a'')\<lparr>m_Other := ''x''\<rparr>) (b_leftDelim sample_bundle) (b_rightDelim sample_bundle)"
proof -
  let ?t = "translations_NewManager sample_bundle [''en'']" and ?d = "[(''en'', [(''a'', ''x'')])]"
  have p: "parseICU ''a'' ''x'' = Ok ((empty_message ''a'')\<lparr>m_Other := ''x''\<rparr>)" by code_simp
  have r: "has_rule flat_tags ''en'' sample_bundle" by (simp add: has_rule_def sample_rules)
  obtain t' where run: "manager_Load flat_tags (\<lambda>l. Inr l) (\<lambda>ls w. (w, Inr ?d)) ?t () = Some (Ok (t', (), None))"
    using r by (auto simp: manager_Load_def translations_NewManager_def AddRawMessages_def has_rule_def p)
  have wf: "wf_dictionary ?d" by (simp add: wf_dictionary_def)
  have "getMessage ''en'' ''a'' (tm_bundler t') = newMessageTemplate ((empty_message ''a'')\<lparr>m_Other := ''x''\<rparr>)
      (b_leftDelim (tm_bundler ?t)) (b_rightDelim (tm_bundler ?t))"
    using load_adds_every_message [OF run refl wf] p by auto
  with run show ?thesis by (auto simp: translations_NewManager_def)
qed

text \<open>
  Disabling Tolgee does not stop the calls: the bootstrap with a configuration that \<^verbatim>\<open>Validate\<close> rejects as
  disabled still asks the server for its languages first, and uploads the whole dictionary of the file.
\<close>

theorem disabled_tolgee_is_called:
  fixes t :: "('tag, 'f, 'p) manager"
  assumes rec: "\<And>req w. to_Do T req w = (w @ [req], answer req)" and url: "\<And>u. to_parse_url T u = None"
    and "tolgee_Validate (tolgee_NewConfig env) = Some ErrDisabled" and "dict \<noteq> []"
    and run: "initTolgee L parse T env (\<lambda>langs w. (w, Inr dict)) t [] = Some (Ok (t', sent))"
  shows "\<exists>languages import rest. sent = languages # import # rest \<and> hr_Method languages = ''GET'' \<and>
    hr_Method import = ''POST'' \<and>
    hr_Body import = ImportRequest (convertDictionaryToImportKeys (to_schedule T) dict (getTags env))"
proof -
  let ?cfg = "tolgee_NewConfig env"
  define get where "get = \<lparr>hr_Method = ''GET'', hr_URL = tg_Host ?cfg @ ''/v2/projects/'' @ tg_ProjectID ?cfg @ ''/languages'',
      hr_Query = [], hr_APIKey = tg_APIKey ?cfg, hr_Body = NoBody\<rparr>"
  define post where "post = \<lparr>hr_Method = ''POST'', hr_URL = tg_Host ?cfg @ ''/v2/projects/'' @ tg_ProjectID ?cfg @ ''/keys/import'',
      hr_Query = [], hr_APIKey = tg_APIKey ?cfg,
      hr_Body = ImportRequest (convertDictionaryToImportKeys (to_schedule T) dict (getTags env))\<rparr>"
  have langs: "fst (getAvailableLangs T ?cfg []) = [get]"
    by (simp add: getAvailableLangs_def GetLanguages_def Let_def rec url get_def split: sum.splits prod.splits)
  have "tg_Tags ?cfg = getTags env" by (simp add: tolgee_NewConfig_def)
  then have upload: "fst (manager_Upload (\<lambda>langs w. (w, Inr dict)) (UploadTranslations T ?cfg) s w) = w @ [post]" for s :: "('tag, 'f, 'p) manager" and w
    using assms(4)
    by (simp add: manager_Upload_def UploadTranslations_def ImportKeys_def Let_def rec url post_def split: sum.splits prod.splits)
  have got: "\<exists>rest. fst (tolgee_GetTranslations T ?cfg ls w) = w @ rest" for ls w
    by (auto simp: tolgee_GetTranslations_def client_GetTranslations_def Let_def rec url split: sum.splits prod.splits)
  obtain s :: "('tag, 'f, 'p) manager" and ls where "sent = fst (tolgee_GetTranslations T ?cfg ls (fst (manager_Upload (\<lambda>langs w. (w, Inr dict))
      (UploadTranslations T ?cfg) s (fst (getAvailableLangs T ?cfg [])))))"
    using initTolgee_world [OF run] by blast
  then have "\<exists>rest. sent = get # post # rest" using got [of ls "[get, post]"] by (simp add: langs upload)
  moreover have "hr_Method get = ''GET''" "hr_Method post = ''POST''"
    "hr_Body post = ImportRequest (convertDictionaryToImportKeys (to_schedule T) dict (getTags env))"
    by (simp_all add: get_def post_def)
  ultimately show ?thesis by blast
qed

definition sample_configurer :: configurer where
  "sample_configurer =
     \<lparr>cf_GetString = (\<lambda>k. if k = ''app.name'' then ''shop'' else []), cf_GetInt = (\<lambda>k. 0), cf_GetBool = (\<lambda>k. False),
      cf_GetDuration = (\<lambda>k. 0), cf_GetStringSlice = (\<lambda>k. [])\<rparr>"

definition sample_tolgee :: "tolgee_request list tolgee_ops" where
  "sample_tolgee =
     \<lparr>to_parse_url = (\<lambda>u. None), to_Do = (\<lambda>req w. (w @ [req], Inl (Sentinel ''no route to host''))),
      to_Decode = (\<lambda>b. Inr []), to_Languages = (\<lambda>b. Inr []), to_schedule = (\<lambda>m. m)\<rparr>"

lemma disabled_tolgee_is_called_witness:
  "\<exists>t' sent. initTolgee flat_tags (\<lambda>l. Inr l) sample_tolgee sample_configurer (\<lambda>langs w. (w, Inr sample_file))
      (translations_NewManager sample_bundle [''en'']) [] = Some (Ok (t', sent)) \<and> 2 \<le> length sent"
proof -
  have rec: "to_Do sample_tolgee req w = (w @ [req], (\<lambda>r. Inl (Sentinel ''no route to host'')) req)"
    "to_parse_url sample_tolgee u = None" for req w u by (simp_all add: sample_tolgee_def)
  have v: "tolgee_Validate (tolgee_NewConfig sample_configurer) = Some ErrDisabled"
    by (simp add: tolgee_Validate_def tolgee_NewConfig_def sample_configurer_def)
  have f: "sample_file \<noteq> []" by (simp add: sample_file_def)
  let ?r = "initTolgee flat_tags (\<lambda>l. Inr l) sample_tolgee sample_configurer (\<lambda>langs w. (w, Inr sample_file))
      (translations_NewManager sample_bundle [''en'']) []"
  have "\<exists>t' sent. ?r = Some (Ok (t', sent))"
    by (simp add: initTolgee_def Let_def getAvailableLangs_def GetLanguages_def manager_Load_def
        tolgee_GetTranslations_def client_GetTranslations_def translations_NewManager_def rec split: prod.splits)
  then obtain t' sent where r: "?r = Some (Ok (t', sent))" by blast
  from disabled_tolgee_is_called [OF rec v f r] r show ?thesis by fastforce
qed

section \<open>Databases and object stores\<close>

text \<open>
  C29. The migrations are tried until one attempt succeeds, \<^verbatim>\<open>migrateRetries\<close> times at most, with a pause after each
  failure but the last: the result is the number of migrations the first successful attempt applied, or
  the error of the last attempt.  No attempt is made after the decisive one.\<close>

theorem migrations_are_retried:
  assumes "db_migrateRetries (mg_config m) = int n" and "0 < n"
  shows "(\<exists>j applied. j < n \<and> (\<forall>l < j. failed_attempt D m w l) \<and> attempt D m w j = Inr applied \<and>
      Migrate D m w = (fst (runMigration D m (attempt_world D m w j)), applied, None)) \<or>
    ((\<forall>l < n. failed_attempt D m w l) \<and> (\<exists>e. attempt D m w (n - 1) = Inl e \<and>
      Migrate D m w = (fst (runMigration D m (attempt_world D m w (n - 1))), 0, Some e)))"
proof (cases "\<forall>l < n. failed_attempt D m w l")
  case True
  obtain k where n: "n = Suc k" using assms(2) by (cases n) auto
  have "Migrate D m w = migrate_loop D m 0 (Suc k) None (attempt_world D m w 0)"
    using assms(1) by (simp only: Migrate_def n nat_int attempt_world.simps)
  with migrate_loop_failure [of 0 k m D w None] assms(1) True show ?thesis by (simp add: n del: migrate_loop.simps)
next
  case False
  define j where "j = (LEAST l. \<not> failed_attempt D m w l)"
  from False obtain l where l: "l < n" "\<not> failed_attempt D m w l" by blast
  have j: "\<not> failed_attempt D m w j" "j \<le> l" unfolding j_def by (rule LeastI, rule l) (rule Least_le, rule l)
  have before: "\<forall>l < j. failed_attempt D m w l" unfolding j_def using not_less_Least by blast
  obtain applied where applied: "attempt D m w j = Inr applied"
    using j(1) by (auto simp: failed_attempt_def split: sum.splits)
  have "j < n" using j(2) l(1) by simp
  then show ?thesis
    using migrate_loop_success [of 0 j n m D w applied None] assms(1) before applied
    by (auto simp: Migrate_def)
qed

text \<open>A database whose migrations need three attempts; the world counts the attempts and adds up the pauses.\<close>

definition sample_db :: "(nat \<times> int) db_ops" where
  "sample_db =
     \<lparr>do_Open = (\<lambda>dsn lg w. (w, Inr 7)), do_sqlDB = (\<lambda>c. None), do_Ping = (\<lambda>c w. (w, None)),
      do_SetPool = (\<lambda>c i j k w. w), do_Close = (\<lambda>c w. (w, None)), do_print_url = (\<lambda>u. up_Scheme u),
      do_MigrateApply = (\<lambda>dsn (n, t). ((Suc n, t), if n < 2 then Inl (Sentinel ''locked'') else Inr 4)),
      do_Sleep = (\<lambda>d (n, t). (n, t + d)), do_print_error = (\<lambda>e. [])\<rparr>"

definition sample_manager :: db_manager where
  "sample_manager =
     \<lparr>mg_config = DefaultConfig, mg_db = None, mg_healthStatus = False, mg_healthErr = None, mg_stopped = False,
      mg_checking = False\<rparr>"

lemma migrations_are_retried_witness:
  "Migrate sample_db sample_manager (0, 0) = ((3, 6000000000), 4, None)"
proof -
  let ?A = "attempt sample_db sample_manager (0, 0)"
  have worlds: "attempt_world sample_db sample_manager (0, 0) (Suc 0) = (1, 2000000000)"
    "attempt_world sample_db sample_manager (0, 0) (Suc (Suc 0)) = (2, 6000000000)"
    by (simp_all add: runMigration_def sample_db_def)
  have tries: "?A 0 = Inl (Sentinel ''locked'')" "?A (Suc 0) = Inl (Sentinel ''locked'')" "?A (Suc (Suc 0)) = Inr 4"
    unfolding attempt_def worlds by (simp_all add: runMigration_def sample_db_def)
  have "db_migrateRetries (mg_config sample_manager) = int 3" by (simp add: sample_manager_def DefaultConfig_def)
  note T = migrations_are_retried [OF this, of sample_db "(0, 0)", simplified]
  have ok: "\<not> failed_attempt sample_db sample_manager (0, 0) (Suc (Suc 0))"
    by (simp add: failed_attempt_def tries)
  with T obtain j applied where j: "j < 3" "?A j = Inr applied"
    "Migrate sample_db sample_manager (0, 0) =
       (fst (runMigration sample_db sample_manager (attempt_world sample_db sample_manager (0, 0) j)), applied, None)"
    by (auto simp: numeral_3_eq_3)
  from j(1) consider "j = 0" | "j = Suc 0" | "j = Suc (Suc 0)" by linarith
  then show ?thesis
  proof cases
    case 3
    with j(2) tries have "applied = 4" by simp
    with j(3) 3 show ?thesis unfolding 3 worlds by (simp add: runMigration_def sample_db_def)
  qed (use j(2) tries in simp_all)
qed

text \<open>
  C30. When the connection is opened and every attempt to migrate fails, the component's run fails before it
  registers the closer and the health check: the connection stays open, its health check goes on, and
  nothing that the application closes later will close it.\<close>

theorem failed_migration_leaks_connection:
  assumes run: "ap_DB a" "ae_DB_is_Manager E" and "NewPostgresManager cfg = Inr m"
    and connect: "db_Connect D m w = ((m', w'), ae_DB_Connect E)" "ae_DB_Connect E = None"
    and migrate: "Migrate D m' w' = (w'', applied, ae_DB_Migrate E)"
    and retries: "db_migrateRetries cfg = int n" "0 < n" "\<forall>l < n. failed_attempt D m' w' l"
  shows "mg_db m' \<noteq> None \<and> mg_checking m' \<and> \<not> mg_stopped m' \<and>
    (\<exists>e. attempt D m' w' (n - 1) = Inl e \<and> runPostgresClient E a = (a, Err e))"
proof -
  obtain k where n: "n = Suc k" using retries(2) by (cases n) auto
  have m': "mg_db m' \<noteq> None" "mg_checking m'" "\<not> mg_stopped m'" "mg_config m' = cfg"
    using assms(3) connect
    by (auto simp: NewPostgresManager_def db_Connect_def db_connect_def startHealthCheck_def Let_def
        split: prod.splits sum.splits option.splits)
  have "Migrate D m' w' = migrate_loop D m' 0 (Suc k) None (attempt_world D m' w' 0)"
    using retries(1) by (simp only: Migrate_def m'(4) n nat_int attempt_world.simps)
  with migrate_loop_failure [of 0 k m' D w' None] retries(1,3) m'(4) migrate
  obtain e where "attempt D m' w' k = Inl e" "ae_DB_Migrate E = Some e"
    by (auto simp: n simp del: migrate_loop.simps)
  with run connect(2) m' show ?thesis by (simp add: n runPostgresClient_def)
qed

definition stuck_db :: "unit db_ops" where
  "stuck_db =
     \<lparr>do_Open = (\<lambda>dsn lg w. (w, Inr 7)), do_sqlDB = (\<lambda>c. None), do_Ping = (\<lambda>c w. (w, None)),
      do_SetPool = (\<lambda>c i j k w. w), do_Close = (\<lambda>c w. (w, None)), do_print_url = (\<lambda>u. up_Scheme u),
      do_MigrateApply = (\<lambda>dsn w. (w, Inl (Sentinel ''locked''))), do_Sleep = (\<lambda>d w. w),
      do_print_error = (\<lambda>e. [])\<rparr>"

lemma failed_migration_leaks_connection_witness:
  "\<exists>m m'. NewPostgresManager DefaultConfig = Inr m \<and> db_Connect stuck_db m () = ((m', ()), None) \<and>
     mg_db m' \<noteq> None \<and> runPostgresClient (sample_app_env\<lparr>ae_DB_Migrate := Some (Sentinel ''locked'')\<rparr>)
       ((empty_app fresh_world 0)\<lparr>ap_DB := True\<rparr>) =
       ((empty_app fresh_world 0)\<lparr>ap_DB := True\<rparr>, Err (Sentinel ''locked''))"
proof -
  let ?E = "sample_app_env\<lparr>ae_DB_Migrate := Some (Sentinel ''locked'')\<rparr>"
  let ?a = "(empty_app fresh_world 0)\<lparr>ap_DB := True\<rparr>"
  obtain m where m: "NewPostgresManager DefaultConfig = Inr m" by (simp add: NewPostgresManager_def)
  obtain m' where c: "db_Connect stuck_db m () = ((m', ()), ae_DB_Connect ?E)" and cfg: "mg_config m' = DefaultConfig"
    using m by (auto simp: NewPostgresManager_def db_Connect_def db_connect_def db_ping_def startHealthCheck_def
        Let_def stuck_db_def sample_app_env_def)
  have tries: "attempt stuck_db m' () l = Inl (Sentinel ''locked'')" for l
    by (simp add: attempt_def runMigration_def stuck_db_def)
  then have all: "failed_attempt stuck_db m' () l" for l by (simp add: failed_attempt_def)
  have mig: "Migrate stuck_db m' () = ((), 0, ae_DB_Migrate ?E)"
    by (simp add: Migrate_def cfg DefaultConfig_def runMigration_def stuck_db_def numeral_3_eq_3)
  have r: "db_migrateRetries DefaultConfig = int 3" by (simp add: DefaultConfig_def)
  have E: "ae_DB_is_Manager ?E" "ae_DB_Connect ?E = None" by (simp_all add: sample_app_env_def)
  from failed_migration_leaks_connection [OF _ E(1) m c E(2) mig r, of ?a] all tries E(2) m c
  show ?thesis by auto
qed

text \<open>
  C31. What runs inside \<^verbatim>\<open>WithTransaction\<close> and takes its handle from \<^verbatim>\<open>DB(ctx)\<close> is part of the transaction: its
  writes are all there when the function returns nil and none of them is when it returns an error or
  panics.  The hypotheses state what gorm's \<^verbatim>\<open>Transaction\<close> promises and that a write through a
  transaction waits for its commit.\<close>

theorem transaction_is_joined:
  fixes committed :: "'w \<Rightarrow> 'k \<rightharpoonup> 'v" and pending :: "'w \<Rightarrow> 't \<Rightarrow> 'k \<rightharpoonup> 'v"
  assumes commits: "\<And>fn w w' r. transaction conn fn w = (w', r) \<Longrightarrow> \<exists>tx w1 w2. tx \<noteq> conn \<and>
      committed w1 = committed w \<and> pending w1 tx = Map.empty \<and> fn tx w1 = (w2, r) \<and>
      committed w' = (if r = Ok () then committed w2 ++ pending w2 tx else committed w2)"
    and waits: "\<And>tx k v w. tx \<noteq> conn \<Longrightarrow> committed (write tx k v w) = committed w \<and>
      pending (write tx k v w) tx = (pending w tx)(k \<mapsto> v)"
    and run: "WithTransaction transaction conn ctx
      (\<lambda>ctx w. (fold (\<lambda>(k, v). write (DB conn ctx) k v) kvs w, r)) w = (w', r')"
  shows "r' = r \<and> committed w' = (if r = Ok () then committed w ++ map_of (rev kvs) else committed w)"
proof -
  have writes: "committed (fold (\<lambda>(k, v). write tx k v) l v) = committed v \<and>
      pending (fold (\<lambda>(k, v). write tx k v) l v) tx = pending v tx ++ map_of (rev l)" if "tx \<noteq> conn" for tx l v
    using waits [OF that]
    by (induction l arbitrary: v) (auto simp: map_add_def fun_eq_iff split: option.splits)
  from commits [OF run [unfolded WithTransaction_def]]
  obtain tx w1 w2 where tx: "tx \<noteq> conn" "committed w1 = committed w" "pending w1 tx = Map.empty"
    and fn: "(fold (\<lambda>(k, v). write tx k v) kvs w1, r) = (w2, r')"
    and fin: "committed w' = (if r' = Ok () then committed w2 ++ pending w2 tx else committed w2)"
    by (auto simp: DB_def transactionFromContext_def withTransactionContext_def)
  with writes [OF tx(1), of kvs w1] show ?thesis by auto
qed

definition store_pending :: "tx_store \<Rightarrow> nat option \<Rightarrow> string \<rightharpoonup> string" where
  "store_pending w t = (case t of None \<Rightarrow> Map.empty | Some i \<Rightarrow> ts_pending w i)"

definition empty_store :: tx_store where
  "empty_store = \<lparr>ts_committed = Map.empty, ts_pending = (\<lambda>i. Map.empty), ts_next = 0\<rparr>"

lemma store_commits:
  assumes "store_transaction None fn w = (w', r)"
  shows "\<exists>tx w1 w2. tx \<noteq> None \<and> ts_committed w1 = ts_committed w \<and> store_pending w1 tx = Map.empty \<and>
    fn tx w1 = (w2, r) \<and>
    ts_committed w' = (if r = Ok () then ts_committed w2 ++ store_pending w2 tx else ts_committed w2)"
proof -
  let ?i = "ts_next w"
  let ?w1 = "w\<lparr>ts_next := Suc ?i, ts_pending := (ts_pending w)(?i := Map.empty)\<rparr>"
  obtain w2 q where fn: "fn (Some ?i) ?w1 = (w2, q)" by (metis surj_pair)
  with assms have "q = r \<and> ts_committed w' = (if r = Ok () then ts_committed w2 ++ ts_pending w2 ?i else ts_committed w2)"
    by (auto simp: store_transaction_def Let_def split: go.splits)
  with fn show ?thesis by (intro exI [of _ "Some ?i"] exI [of _ ?w1] exI [of _ w2]) (simp add: store_pending_def)
qed

lemma store_waits:
  "tx \<noteq> None \<Longrightarrow> ts_committed (store_write tx k v w) = ts_committed w \<and>
     store_pending (store_write tx k v w) tx = (store_pending w tx)(k \<mapsto> v)"
  by (auto simp: store_write_def store_pending_def)

lemma transaction_is_joined_witness:
  "ts_committed (fst (WithTransaction store_transaction None \<lparr>cx_tx = None\<rparr>
      (writes [(''balance'', ''90''), (''entry'', ''10'')] (Ok ())) empty_store)) =
     [''balance'' \<mapsto> ''90'', ''entry'' \<mapsto> ''10''] \<and>
   ts_committed (fst (WithTransaction store_transaction None \<lparr>cx_tx = None\<rparr>
      (writes [(''balance'', ''90'')] (Err (Sentinel ''no entry''))) empty_store)) = Map.empty"
proof -
  have w: "writes kvs r = (\<lambda>ctx w. (fold (\<lambda>(k, v). store_write (DB None ctx) k v) kvs w, r))" for kvs r
    by (simp add: writes_def fun_eq_iff)
  note T = transaction_is_joined [of store_transaction None ts_committed store_pending store_write, OF store_commits store_waits
      surjective_pairing]
  show ?thesis unfolding w
    by (rule conjI; subst T [THEN conjunct2]; simp add: empty_store_def)
qed

text \<open>
  C32. A transaction inside a transaction is not part of it: \<^verbatim>\<open>WithTransaction\<close> always begins at the connection
  and not at the transaction of its context, so what the inner one wrote stays committed when the outer
  one fails.\<close>

theorem nested_transaction_stays:
  fixes committed :: "'w \<Rightarrow> 'k \<rightharpoonup> 'v" and pending :: "'w \<Rightarrow> 't \<Rightarrow> 'k \<rightharpoonup> 'v"
  assumes commits: "\<And>fn w w' r. transaction conn fn w = (w', r) \<Longrightarrow> \<exists>tx w1 w2. tx \<noteq> conn \<and>
      committed w1 = committed w \<and> pending w1 tx = Map.empty \<and> fn tx w1 = (w2, r) \<and>
      committed w' = (if r = Ok () then committed w2 ++ pending w2 tx else committed w2)"
    and inner: "\<And>ctx tx w. cx_tx ctx = Some tx \<Longrightarrow> tx \<noteq> conn \<Longrightarrow> \<exists>w'. inner ctx w = (w', Ok ()) \<and>
      committed w' = committed w \<and> pending w' tx = pending w tx ++ kvs"
    and run: "WithTransaction transaction conn ctx
      (\<lambda>ctx w. (fst (WithTransaction transaction conn ctx inner w), Err e)) w = (w', r)"
  shows "r = Err e \<and> committed w' = committed w ++ kvs"
proof -
  from commits [OF run [unfolded WithTransaction_def]]
  obtain tx w1 w2 where w1: "committed w1 = committed w" and r: "r = Err e"
    and w2: "w2 = fst (transaction conn (\<lambda>t. inner (withTransactionContext (withTransactionContext ctx tx) t)) w1)"
    and w': "committed w' = committed w2"
    by auto
  obtain r2 where "transaction conn (\<lambda>t. inner (withTransactionContext (withTransactionContext ctx tx) t)) w1 = (w2, r2)"
    using w2 by (metis prod.collapse)
  from commits [OF this] obtain t v1 v2 where t: "t \<noteq> conn" "committed v1 = committed w1" "pending v1 t = Map.empty"
    and "inner (withTransactionContext (withTransactionContext ctx tx) t) v1 = (v2, r2)"
    and w2': "committed w2 = (if r2 = Ok () then committed v2 ++ pending v2 t else committed v2)"
    by blast
  moreover obtain v3 where "inner (withTransactionContext (withTransactionContext ctx tx) t) v1 = (v3, Ok ())"
    "committed v3 = committed v1" "pending v3 t = pending v1 t ++ kvs"
    using inner [of "withTransactionContext (withTransactionContext ctx tx) t" t v1] t(1)
    by (auto simp: withTransactionContext_def)
  ultimately show ?thesis using w1 w' r by simp
qed

lemma nested_transaction_stays_witness:
  "ts_committed (fst (WithTransaction store_transaction None \<lparr>cx_tx = None\<rparr>
      (\<lambda>ctx w. (fst (WithTransaction store_transaction None ctx (writes [(''entry'', ''10'')] (Ok ())) w),
         Err (Sentinel ''failed''))) empty_store)) = [''entry'' \<mapsto> ''10'']"
proof -
  have inner: "\<exists>w'. writes [(''entry'', ''10'')] (Ok ()) ctx w = (w', Ok ()) \<and> ts_committed w' = ts_committed w \<and>
      store_pending w' tx = store_pending w tx ++ [''entry'' \<mapsto> ''10'']"
    if "cx_tx ctx = Some tx" and "tx \<noteq> None" for ctx tx w
    using that by (auto simp: writes_def DB_def transactionFromContext_def store_write_def store_pending_def)
  note T = nested_transaction_stays [of store_transaction None ts_committed store_pending, OF store_commits inner surjective_pairing]
  show ?thesis by (subst T [THEN conjunct2]) (simp_all add: empty_store_def)
qed

text \<open>
  C33. What \<^verbatim>\<open>Move\<close> leaves of the object under the source key, when each call is atomic but a failed one may
  have been carried out.  If it returns nil, the object is under the destination key only.  If it returns an
  error, no key but the two is touched, and the source keeps the object unless the failed removal of the source
  was in fact carried out.  In that case \<^verbatim>\<open>Move\<close> goes on to remove the copy, and if this succeeds the object is
  lost under both keys.\<close>

theorem move_outcomes:
  assumes "atomic_calls O3 m objects" and "objects w src = Some x" and "Move O3 src dst m w = (w', err)"
  shows "(err = None \<longrightarrow> src \<noteq> dst \<and> objects w' = (objects w)(dst := Some x, src := None)) \<and>
    (err \<noteq> None \<longrightarrow> (\<forall>key. key \<noteq> src \<and> key \<noteq> dst \<longrightarrow> objects w' key = objects w key) \<and>
       (objects w' src = Some x \<or> (\<exists>w2. removed_unnoticed O3 m objects src dst w w2))) \<and>
    (\<forall>w2. removed_unnoticed O3 m objects src dst w w2 \<and> snd (Delete O3 dst m w2) = None \<longrightarrow>
       err \<noteq> None \<and> objects w' src = None \<and> objects w' dst = None)"
proof (intro conjI impI)
  show "src \<noteq> dst" "objects w' = (objects w)(dst := Some x, src := None)" if "err = None"
    using Move_Ok [OF assms(1)] assms(2,3) that by simp_all
  show "\<forall>key. key \<noteq> src \<and> key \<noteq> dst \<longrightarrow> objects w' key = objects w key"
    "objects w' src = Some x \<or> (\<exists>w2. removed_unnoticed O3 m objects src dst w w2)" if "err \<noteq> None"
    using Move_Err [OF assms(1), of src dst w w' "the err"] assms(2,3) that by auto
  show "\<forall>w2. removed_unnoticed O3 m objects src dst w w2 \<and> snd (Delete O3 dst m w2) = None \<longrightarrow>
       err \<noteq> None \<and> objects w' src = None \<and> objects w' dst = None"
  proof (intro allI impI)
    fix w2 assume l: "removed_unnoticed O3 m objects src dst w w2 \<and> snd (Delete O3 dst m w2) = None"
    then have d: "Delete O3 dst m w2 = (w', None)" "err \<noteq> None"
      using Move_lost [of O3 m objects src dst w w2] assms(3) by (auto simp: prod_eq_iff)
    have "objects w' = (objects w2)(dst := None)" using Delete_outcome [OF assms(1) d(1)] by simp
    with d(2) l show "err \<noteq> None \<and> objects w' src = None \<and> objects w' dst = None"
      by (auto simp: removed_unnoticed_def)
  qed
qed

text \<open>
  An object store as a map, in which some keys cannot be removed and the replies to the removal of others are
  lost.\<close>

definition map_store :: "string set \<Rightarrow> string set \<Rightarrow> (string \<rightharpoonup> object_info) minio_ops" where
  "map_store kept mute =
     \<lparr>mo_New = (\<lambda>c w. (w, Inr 1)), mo_HealthCheck = (\<lambda>c w. (w, None)), mo_CancelHealthCheck = (\<lambda>c w. w),
      mo_BucketExists = (\<lambda>c b w. (w, Inr True)), mo_MakeBucket = (\<lambda>c b r w. (w, None)),
      mo_IsOnline = (\<lambda>c w. True), mo_PutObject = (\<lambda>c b k x w. (w(k \<mapsto> x), None)),
      mo_GetObject = (\<lambda>c b k w. (w, None)),
      mo_StatObject = (\<lambda>c b k w. (w, case w k of None \<Rightarrow> Inl (Sentinel ''NoSuchKey'') | Some x \<Rightarrow> Inr x)),
      mo_CopyObject = (\<lambda>c b dst src w. case w src of None \<Rightarrow> (w, Some (Sentinel ''NoSuchKey''))
        | Some x \<Rightarrow> (w(dst \<mapsto> x), None)),
      mo_RemoveObject = (\<lambda>c b k w. if k \<in> kept then (w, Some (Sentinel ''AccessDenied''))
        else (w(k := None), if k \<in> mute then Some (Sentinel ''timeout'') else None)),
      mo_Presign = (\<lambda>c b k ttl w. (w, Inr k)), mo_NoSuchKey = (\<lambda>e. e = Sentinel ''NoSuchKey''),
      mo_OnRefresh = (\<lambda>w. w)\<rparr>"

definition sample_s3 :: s3_client where
  "sample_s3 =
     \<lparr>sc_client = 1, sc_config = \<lparr>s3_Endpoint = ''s3'', s3_AccessKeyID = ''id'', s3_SecretAccessKey = ''key'',
        s3_Bucket = ''files'', s3_Region = [], s3_UseSSL = False, s3_CreateBucket = False\<rparr>,
      sc_cancelHealthCheck = Some 1\<rparr>"

definition sample_object :: "string \<Rightarrow> object_info" where
  "sample_object body = \<lparr>oi_Body = body, oi_ContentType = [], oi_Metadata = []\<rparr>"

lemma map_store_atomic: "atomic_calls (map_store kept mute) m (\<lambda>w. w)"
  by (auto simp: atomic_calls_def map_store_def split: option.splits if_splits)

lemma move_outcomes_witness:
  "fst (Move (map_store {} {}) ''a'' ''b'' sample_s3 [''a'' \<mapsto> sample_object ''one'', ''b'' \<mapsto> sample_object ''two'']) =
     [''b'' \<mapsto> sample_object ''one''] \<and>
   fst (Move (map_store {} {''a''}) ''a'' ''b'' sample_s3 [''a'' \<mapsto> sample_object ''one'']) ''a'' = None \<and>
   fst (Move (map_store {} {''a''}) ''a'' ''b'' sample_s3 [''a'' \<mapsto> sample_object ''one'']) ''b'' = None"
proof (intro conjI)
  let ?w = "[''a'' \<mapsto> sample_object ''one'', ''b'' \<mapsto> sample_object ''two'']"
  obtain w' err where r: "Move (map_store {} {}) ''a'' ''b'' sample_s3 ?w = (w', err)" by (metis surj_pair)
  have "err = None" using r by (simp add: Move_def Delete_def map_store_def)
  with move_outcomes [OF map_store_atomic _ r]
  show "fst (Move (map_store {} {}) ''a'' ''b'' sample_s3 ?w) = [''b'' \<mapsto> sample_object ''one'']"
    by (simp add: r fun_eq_iff)
next
  let ?O = "map_store {} {''a''}" and ?w = "[''a'' \<mapsto> sample_object ''one'']"
  obtain w' err where r: "Move ?O ''a'' ''b'' sample_s3 ?w = (w', err)" by (metis surj_pair)
  have l: "removed_unnoticed ?O sample_s3 (\<lambda>w. w) ''a'' ''b'' ?w (?w(''b'' \<mapsto> sample_object ''one'', ''a'' := None))"
    by (simp add: removed_unnoticed_def map_store_def)
  have d: "snd (Delete ?O ''b'' sample_s3 (?w(''b'' \<mapsto> sample_object ''one'', ''a'' := None))) = None"
    by (simp add: Delete_def map_store_def)
  have "?w ''a'' = Some (sample_object ''one'')" by simp
  from move_outcomes [OF map_store_atomic this r, THEN conjunct2, THEN conjunct2, rule_format, OF conjI [OF l d]]
  show "fst (Move ?O ''a'' ''b'' sample_s3 ?w) ''a'' = None" "fst (Move ?O ''a'' ''b'' sample_s3 ?w) ''b'' = None"
    by (simp_all add: r)
qed

text \<open>
  A move whose source cannot be removed deletes what it copied, and with it the object that was under the
  destination key before: both the error and a lost object are the result of a call that failed.\<close>

theorem failed_move_destroys_destination:
  assumes ok: "atomic_calls O3 m objects" and "src \<noteq> []" "dst \<noteq> []" "src \<noteq> dst"
    and copy: "mo_CopyObject O3 (sc_client m) (s3_Bucket (sc_config m)) dst src w = (w1, None)"
    and remove: "mo_RemoveObject O3 (sc_client m) (s3_Bucket (sc_config m)) src w1 = (w2, Some e)"
    and refused: "objects w2 = objects w1"
    and undo: "mo_RemoveObject O3 (sc_client m) (s3_Bucket (sc_config m)) dst w2 = (w3, None)"
  shows "\<exists>err. Move O3 src dst m w = (w3, Some err) \<and> objects w3 = (objects w)(dst := None)"
proof -
  have "objects w3 = (objects w)(dst := None)"
    using atomic_copy [OF ok copy] refused atomic_remove [OF ok undo] by simp
  with assms show ?thesis by (simp add: Move_def Delete_def)
qed

lemma failed_move_destroys_destination_witness:
  "fst (Move (map_store {''a''} {}) ''a'' ''b'' sample_s3
      [''a'' \<mapsto> sample_object ''one'', ''b'' \<mapsto> sample_object ''two'']) = [''a'' \<mapsto> sample_object ''one'']"
proof -
  let ?w = "[''a'' \<mapsto> sample_object ''one'', ''b'' \<mapsto> sample_object ''two'']"
  let ?v = "?w(''b'' \<mapsto> sample_object ''one'')"
  have "mo_CopyObject (map_store {''a''} {}) (sc_client sample_s3) (s3_Bucket (sc_config sample_s3)) ''b'' ''a'' ?w = (?v, None)"
    "mo_RemoveObject (map_store {''a''} {}) (sc_client sample_s3) (s3_Bucket (sc_config sample_s3)) ''a'' ?v =
       (?v, Some (Sentinel ''AccessDenied''))"
    "mo_RemoveObject (map_store {''a''} {}) (sc_client sample_s3) (s3_Bucket (sc_config sample_s3)) ''b'' ?v =
       (?v(''b'' := None), None)"
    by (simp_all add: map_store_def)
  from failed_move_destroys_destination [OF map_store_atomic _ _ _ this(1,2) _ this(3)] show ?thesis by auto
qed

text \<open>
  A ping looks at the state of the client at once and after each of eight ticks; it returns nil exactly when
  one of these looks finds the client online, and otherwise tells that the client is offline, unless
  the context ends first.\<close>

theorem ping_looks_nine_times:
  assumes "\<And>w. over w = None" and "Ping O3 tick over m w = (w', err)"
  shows "(err = None \<and> (\<exists>k \<le> 8. w' = (tick ^^ k) w \<and> mo_IsOnline O3 (sc_client m) w' \<and>
       (\<forall>j < k. \<not> mo_IsOnline O3 (sc_client m) ((tick ^^ j) w)))) \<or>
    (err = Some ErrClientIsOffline \<and> (\<forall>j \<le> 8. \<not> mo_IsOnline O3 (sc_client m) ((tick ^^ j) w)))"
proof (cases "mo_IsOnline O3 (sc_client m) w")
  case True
  with assms(2) show ?thesis by (intro disjI1 conjI exI [of _ 0]) (simp_all add: Ping_def)
next
  case False
  with assms(2) have "ping_loop O3 tick over m 8 w = (w', err)" by (simp add: Ping_def)
  from ping_loop_looks [where over = over, OF assms(1) this] show ?thesis
  proof (elim disjE conjE exE)
    fix k
    assume "err = None" "k < 8" "w' = (tick ^^ Suc k) w" "mo_IsOnline O3 (sc_client m) w'"
      "\<forall>j < k. \<not> mo_IsOnline O3 (sc_client m) ((tick ^^ Suc j) w)"
    with False show ?thesis by (intro disjI1 conjI exI [of _ "Suc k"]) (auto simp: All_less_Suc2)
  next
    assume "err = Some ErrClientIsOffline" "\<forall>j < 8. \<not> mo_IsOnline O3 (sc_client m) ((tick ^^ Suc j) w)"
    moreover have "(\<forall>j \<le> (8::nat). P j) \<longleftrightarrow> P 0 \<and> (\<forall>j < 8. P (Suc j))" for P
      using All_less_Suc2 [of 8 P] unfolding less_Suc_eq_le .
    ultimately show ?thesis using False by simp
  qed
qed

definition slow_s3 :: "nat minio_ops" where
  "slow_s3 =
     \<lparr>mo_New = (\<lambda>c w. (w, Inr 1)), mo_HealthCheck = (\<lambda>c w. (w, None)), mo_CancelHealthCheck = (\<lambda>c w. w),
      mo_BucketExists = (\<lambda>c b w. (w, Inr True)), mo_MakeBucket = (\<lambda>c b r w. (w, None)),
      mo_IsOnline = (\<lambda>c w. 9 \<le> w), mo_PutObject = (\<lambda>c b k x w. (w, None)), mo_GetObject = (\<lambda>c b k w. (w, None)),
      mo_StatObject = (\<lambda>c b k w. (w, Inl (Sentinel ''NoSuchKey''))), mo_CopyObject = (\<lambda>c b d s w. (w, None)),
      mo_RemoveObject = (\<lambda>c b k w. (w, None)), mo_Presign = (\<lambda>c b k ttl w. (w, Inr k)), mo_NoSuchKey = (\<lambda>e. True),
      mo_OnRefresh = (\<lambda>w. w)\<rparr>"

text \<open>A store that comes back at the ninth tick is too late, one that comes back at the eighth is not.\<close>

lemma ping_looks_nine_times_witness:
  "snd (Ping slow_s3 Suc (\<lambda>w. None) sample_s3 0) = Some ErrClientIsOffline \<and>
   Ping slow_s3 Suc (\<lambda>w. None) sample_s3 1 = (9, None)"
proof -
  note T = ping_looks_nine_times [of "\<lambda>w. None", OF refl surjective_pairing, of slow_s3 Suc sample_s3]
  have iter: "(Suc ^^ k) w = k + w" for k w by (induction k) simp_all
  have late: "snd (Ping slow_s3 Suc (\<lambda>w. None) sample_s3 0) = Some ErrClientIsOffline"
    using T [of 0] by (auto simp: slow_s3_def iter)
  let ?r = "Ping slow_s3 Suc (\<lambda>w. None) sample_s3 1"
  have "snd ?r = None \<and> fst ?r = 9"
    using T [of 1]
  proof (elim disjE conjE exE)
    fix k
    assume "snd ?r = None" "k \<le> 8" "fst ?r = (Suc ^^ k) 1" "mo_IsOnline slow_s3 (sc_client sample_s3) (fst ?r)"
    then show ?thesis by (simp add: slow_s3_def iter)
  next
    assume "\<forall>j \<le> 8. \<not> mo_IsOnline slow_s3 (sc_client sample_s3) ((Suc ^^ j) 1)"
    then have "\<not> mo_IsOnline slow_s3 (sc_client sample_s3) ((Suc ^^ 8) 1)" by blast
    then show ?thesis by (simp add: slow_s3_def iter)
  qed
  with late show ?thesis by (metis prod.collapse)
qed

section \<open>Phases, types and watches\<close>

text \<open>
  C34. The goroutines of an application refine what the probes promise: the phases Starting, Serving, Draining and
  Closed are passed in this order (Serving may be left out), in every run of the goroutines.  A readiness probe
  looks twice, first in \<open>s\<close> and then in \<open>t\<close>: if it begins in Serving it is answered by the health checks, whatever
  happens until \<open>t\<close>, if it begins in Draining or Closed it is refused, and it never answers 200 before the start
  (its context is supposed not to end first).  But it can begin in Starting and answer 200 when the application
  is Closed, because it does not look for the shutdown again.\<close>

theorem lifecycle_refines_phases:
  assumes "reachable n s"
  shows "(\<forall>t. step s t \<longrightarrow> phase_of t = phase_of s \<or> phase_step (phase_of s) (phase_of t)) \<and>
    (\<forall>t. step\<^sup>*\<^sup>* s t \<longrightarrow> phase_step\<^sup>*\<^sup>* (phase_of s) (phase_of t)) \<and>
    (\<forall>t r ctx_done pick healthy. step\<^sup>*\<^sup>* s t \<and> (ctx_done \<longrightarrow> pick) \<and>
         checkReadiness s t ctx_done pick healthy = Some r \<longrightarrow>
       (phase_of s = Serving \<longrightarrow> hr_Code r = probe_code Serving healthy) \<and>
       (phase_of s \<in> {Draining, Closed} \<longrightarrow> hr_Code r = 503) \<and>
       (hr_Code r = 200 \<longrightarrow> lc_started t \<and> healthy = None)) \<and>
    (\<exists>t r. phase_of (created n) = Starting \<and> step\<^sup>*\<^sup>* (created n) t \<and> phase_of t = Closed \<and>
       checkReadiness (created n) t False False None = Some r \<and> hr_Code r = 200)"
proof (intro conjI ready_when_closed)
  show "\<forall>t. step s t \<longrightarrow> phase_of t = phase_of s \<or> phase_step (phase_of s) (phase_of t)"
    using step_refines_phase [OF assms] by blast
  show "\<forall>t. step\<^sup>*\<^sup>* s t \<longrightarrow> phase_step\<^sup>*\<^sup>* (phase_of s) (phase_of t)"
    using run_refines_phase [OF _ assms] by blast
qed (use checkReadiness_phase [OF assms] in blast)

lemma lifecycle_refines_phases_witness:
  "\<exists>t r. step\<^sup>*\<^sup>* sample_waiting t \<and> phase_of t = Draining \<and>
     checkReadiness sample_waiting t False False None = Some r \<and> hr_Code r = 200"
proof -
  let ?t = "sample_waiting\<lparr>lc_shutdown := False, lc_closing := True, lc_finish := FinishClosing\<rparr>"
  have p: "phase_of sample_waiting = Serving" by (simp add: phase_of_def sample_waiting_def created_def)
  have "step sample_waiting ?t" by (rule finish_receive) (simp_all add: sample_waiting_def created_def)
  then have st: "step\<^sup>*\<^sup>* sample_waiting ?t" by blast
  obtain r where r: "checkReadiness sample_waiting ?t False False None = Some r"
    by (simp add: readiness_defs sample_waiting_def created_def)
  have "hr_Code r = probe_code Serving None"
    using lifecycle_refines_phases [OF sample_waiting_reachable] st r p by blast
  moreover have "phase_of ?t = Draining" by (simp add: phase_of_def sample_waiting_def created_def)
  ultimately show ?thesis using st r by (auto simp: probe_code_def)
qed

text \<open>
  C35. A container that is filled through \<^verbatim>\<open>Register[T]\<close> gives for a named type an instance of that type or of a pointer
  to it, never one of another named type: the assertion of \<^verbatim>\<open>Resolve\<close> can fail only between a type and its
  pointer.\<close>

theorem resolve_is_typed:
  assumes "di_typed ops (dw_heap w q)" and "getContainer ctx w = Ok q" and "CHR ''.'' \<notin> set n" and "n \<noteq> []"
  shows "di_Resolve ops ctx (TNamed p n) w =
      (case c_dependencies (dw_heap w q) (getTypeName (TNamed p n)) of
         None \<Rightarrow> Panic ''failed to resolve instance''
       | Some dep \<Rightarrow> if sv_implements ops (dep_service dep) (TNamed p n) then Ok (dep_service dep)
                     else Panic ''failed to cast instance'') \<and>
    (\<forall>inst. resolve (dw_heap w q) (TNamed p n) = Ok inst \<longrightarrow>
       sv_implements ops inst (TNamed p n) \<or> sv_implements ops inst (TPtr (TNamed p n)))"
  using di_typed_resolve [OF assms(1) _ assms(3,4)] assms(2)
  by (auto simp: di_Resolve_def resolve_def getDependency_def split: option.splits)

lemma resolve_is_typed_witness:
  "\<exists>c. di_typed sample_ops c \<and>
     di_Resolve sample_ops (Some 0) (sample_type 0) \<lparr>dw_heap = (\<lambda>p. c), dw_global = None\<rparr> = Ok 0"
proof -
  obtain c r where c: "register sample_ops (sample_type 0) 0 di_New = (c, r)" by force
  have "sv_implements sample_ops 0 (sample_type 0)" "dot_free (sample_type 0)"
    by (simp_all add: sample_ops_def sample_type_def)
  from typed_register [OF typed_New this c] have t: "di_typed sample_ops c" .
  have d: "c_dependencies c (getTypeName (TNamed ''app'' ''Repo'')) = Some \<lparr>dep_service = 0, dep_injected = True\<rparr>"
    using c by (auto simp: register_def exist_def di_New_def inject_def sample_ops_def sample_type_def bind_dependency_def Let_def)
  let ?w = "\<lparr>dw_heap = (\<lambda>p. c), dw_global = None\<rparr>"
  have "getContainer (Some 0) ?w = Ok 0" by (simp add: getContainer_def)
  from resolve_is_typed [of sample_ops ?w 0 "Some 0" "''Repo''" "''app''"] this t d show ?thesis
    by (auto simp: sample_type_def sample_ops_def)
qed

text \<open>
  C36. No update of a watched configuration is lost, although a send into the full channel is dropped: whenever the
  subscribers have not read the values as they are, another round of reads is on its way, and when no
  writer waits the goroutines can go on until the subscribers have read them.\<close>

theorem no_update_is_lost:
  assumes "merge_atomic V" and "watch_reachable V c s"
  shows "(ws_seen s \<noteq> cfg_storages (ws_cfg s) \<longrightarrow>
       cfg_watchChan (ws_cfg s) = Some 1 \<or> ws_receiver s = Received \<or> (\<exists>k. ws_receiver s = Reading k)) \<and>
    (ws_writers s = [] \<longrightarrow> (\<exists>t. (watch_step V)\<^sup>*\<^sup>* s t \<and> ws_seen t = cfg_storages (ws_cfg t) \<and>
       cfg_storages (ws_cfg t) = cfg_storages (ws_cfg s)))"
  using watch_inv_reachable [OF assms(2,1)] subscribers_catch_up [of s V]
  by (auto simp: watch_inv_def update_pending_def)

definition sample_watched :: "((string \<times> unit cval) list, unit, unit) cfg_store" where
  "sample_watched = (config_New [] ''config'')
     \<lparr>cfg_storages := [\<lparr>st_provider = sample_provider ''old'', st_viper = [(''host'', VString ''old'')]\<rparr>],
      cfg_subscribes := [''kafka'']\<rparr>"

definition sample_updated :: "((string \<times> unit cval) list, unit, unit) watch_state" where
  "sample_updated = (watch_init sample_watched)
     \<lparr>ws_cfg := on_change sample_viper 0 [(''host'', VString ''new'')] (ws_cfg (watch_init sample_watched))\<rparr>"

lemma sample_updated_reachable: "watch_reachable sample_viper sample_watched sample_updated"
proof -
  let ?s = "watch_init sample_watched"
  have "watch_step sample_viper ?s (?s\<lparr>ws_writers := ws_writers ?s @ [Deliver 0 [(''host'', VString ''new'')]]\<rparr>)"
    by (rule arrive) (simp add: watch_init_def sample_watched_def)
  from watch_reachable_step [OF watch_reachable_init this]
  have r: "watch_reachable sample_viper sample_watched (?s\<lparr>ws_writers := [Deliver 0 [(''host'', VString ''new'')]]\<rparr>)"
    by (simp add: watch_init_def)
  have "watch_step sample_viper (?s\<lparr>ws_writers := [Deliver 0 [(''host'', VString ''new'')]]\<rparr>) sample_updated"
    using commit [of "?s\<lparr>ws_writers := [Deliver 0 [(''host'', VString ''new'')]]\<rparr>" "Deliver 0 [(''host'', VString ''new'')]" "[]" sample_viper]
    by (simp add: sample_updated_def watch_init_def write_section_def)
  with r show ?thesis by (rule watch_reachable_step)
qed

lemma sample_viper_atomic: "merge_atomic sample_viper"
  by (simp add: merge_atomic_def sample_viper_def)

lemma no_update_is_lost_witness:
  "ws_seen sample_updated \<noteq> cfg_storages (ws_cfg sample_updated) \<and> cfg_watchChan (ws_cfg sample_updated) = Some 1 \<and>
   (\<exists>t. (watch_step sample_viper)\<^sup>*\<^sup>* sample_updated t \<and> ws_seen t = cfg_storages (ws_cfg sample_updated))"
proof -
  have s: "cfg_storages (ws_cfg sample_updated) =
      [\<lparr>st_provider = sample_provider ''old'', st_viper = [(''host'', VString ''new''), (''host'', VString ''old'')]\<rparr>]"
    "ws_seen sample_updated = [\<lparr>st_provider = sample_provider ''old'', st_viper = [(''host'', VString ''old'')]\<rparr>]"
    "ws_receiver sample_updated = Waiting" "ws_writers sample_updated = []"
    by (simp_all add: sample_updated_def watch_init_def sample_watched_def on_change_def sample_viper_def config_New_def)
  note T = no_update_is_lost [OF sample_viper_atomic sample_updated_reachable]
  have "ws_seen sample_updated \<noteq> cfg_storages (ws_cfg sample_updated)" by (simp add: s)
  moreover have "cfg_watchChan (ws_cfg sample_updated) = Some 1"
    using T calculation s(3) by auto
  moreover have "\<exists>t. (watch_step sample_viper)\<^sup>*\<^sup>* sample_updated t \<and> ws_seen t = cfg_storages (ws_cfg sample_updated)"
    using T s(4) by metis
  ultimately show ?thesis by blast
qed

text \<open>
  C37. A second update that arrives while a subscriber has yet to read stops the configuration for good: the update
  waits for the read lock that \<^verbatim>\<open>triggerUpdates\<close> holds, the subscriber's own read lock waits for the update, and
  from then on no value changes and no subscriber reads, whatever the goroutines do.\<close>

theorem watch_can_deadlock:
  assumes "cfg_subscribes c \<noteq> []" and "i < length (cfg_storages c)" and "\<not> cfg_closed c"
    and "snd (vp_MergeConfigMap V d (st_viper (cfg_storages c ! i))) = None"
  shows "\<exists>s. watch_reachable V c s \<and> ws_writers s = [Deliver i d'] \<and> ws_seen s = cfg_storages c \<and>
    cfg_storages (ws_cfg s) = cfg_storages (on_change V i d (c\<lparr>cfg_watchChan := Some 0\<rparr>)) \<and>
    (\<forall>t. (watch_step V)\<^sup>*\<^sup>* s t \<longrightarrow> ws_cfg t = ws_cfg s \<and> ws_seen t = ws_seen s \<and> ws_receiver t = ws_receiver s \<and>
       ws_writers t \<noteq> [])"
proof -
  let ?c = "c\<lparr>cfg_watchChan := Some 0\<rparr>" and ?u = "on_change V i d (c\<lparr>cfg_watchChan := Some 0\<rparr>)"
  obtain v' where m: "vp_MergeConfigMap V d (st_viper (cfg_storages c ! i)) = (v', None)"
    using assms(4) by (metis prod.collapse)
  then have u: "cfg_watchChan ?u = Some (Suc 0)" "cfg_subscribes ?u = cfg_subscribes c"
    "length (cfg_storages ?u) = length (cfg_storages c)"
    using assms(3) by (simp_all add: on_change_def Let_def)
  obtain k where k: "length (cfg_subscribes c) = Suc k" using assms(1) by (cases "cfg_subscribes c") auto
  define s0 where "s0 = watch_init c"
  define s1 where "s1 = s0\<lparr>ws_writers := [Deliver i d]\<rparr>"
  define s2 where "s2 = s0\<lparr>ws_cfg := ?u\<rparr>"
  define s3 where "s3 = s0\<lparr>ws_cfg := ?u\<lparr>cfg_watchChan := Some 0\<rparr>, ws_receiver := Received\<rparr>"
  define s4 where "s4 = s3\<lparr>ws_receiver := Reading (Suc k)\<rparr>"
  define s5 where "s5 = s4\<lparr>ws_writers := [Deliver i d']\<rparr>"
  note defs = s0_def s1_def s2_def s3_def s4_def s5_def watch_init_def
  have "watch_step V s0 s1" using arrive [of "Deliver i d" s0 V] assms(2) by (simp add: defs)
  moreover have "watch_step V s1 s2" using commit [of s1 "Deliver i d" "[]" V] by (simp add: defs write_section_def)
  moreover have "watch_step V s2 s3" using receive [of s2 0 V] u(1) by (simp add: defs)
  moreover have "watch_step V s3 s4" using lock [of s3 V] u(2) k by (simp add: defs)
  moreover have "watch_step V s4 s5" using arrive [of "Deliver i d'" s4 V] assms(2) u(3) by (simp add: defs)
  ultimately have r: "watch_reachable V c s5"
    using watch_reachable_init [of V c] unfolding s0_def by (meson watch_reachable_step)
  have "watch_stuck s5" by (simp add: watch_stuck_def defs)
  then have "\<forall>t. (watch_step V)\<^sup>*\<^sup>* s5 t \<longrightarrow> ws_cfg t = ws_cfg s5 \<and> ws_seen t = ws_seen s5 \<and>
      ws_receiver t = ws_receiver s5 \<and> ws_writers t \<noteq> []"
    using stuck_forever by (auto simp: watch_stuck_def)
  with r show ?thesis by (intro exI [of _ s5]) (simp add: defs)
qed

lemma watch_can_deadlock_witness:
  "\<exists>s. watch_reachable sample_viper sample_watched s \<and> ws_seen s \<noteq> cfg_storages (ws_cfg s) \<and>
     (\<forall>t. (watch_step sample_viper)\<^sup>*\<^sup>* s t \<longrightarrow> ws_seen t = ws_seen s)"
proof -
  let ?d = "[(''host'', VString ''new'')]"
  have c: "cfg_subscribes sample_watched \<noteq> []" "0 < length (cfg_storages sample_watched)" "\<not> cfg_closed sample_watched"
    "snd (vp_MergeConfigMap sample_viper ?d (st_viper (cfg_storages sample_watched ! 0))) = None"
    by (simp_all add: sample_watched_def config_New_def sample_viper_def)
  from watch_can_deadlock [OF c, of ?d] obtain s where s: "watch_reachable sample_viper sample_watched s"
    "ws_seen s = cfg_storages sample_watched"
    "cfg_storages (ws_cfg s) = cfg_storages (on_change sample_viper 0 ?d (sample_watched\<lparr>cfg_watchChan := Some 0\<rparr>))"
    "\<forall>t. (watch_step sample_viper)\<^sup>*\<^sup>* s t \<longrightarrow> ws_seen t = ws_seen s" by blast
  have "ws_seen s \<noteq> cfg_storages (ws_cfg s)"
    unfolding s(2,3) by (simp add: on_change_def sample_watched_def config_New_def sample_viper_def)
  with s(1,4) show ?thesis by blast
qed

section \<open>Log lines and files\<close>

text \<open>
  C38. A line that is logged with the context of a list of \<^verbatim>\<open>With\<close> calls holds the fields of all of them, in order, then
  those of the call, then the trace id and the correlation id of the context.  It is written exactly when the level
  of the logger lets it through and the sampling does not drop it; with the logger that \<^verbatim>\<open>init\<close> makes, it is
  dropped when it is neither among the first 100 entries of its level and message in the second nor a hundredth
  after them.  The correlation id is supposed to be a string (any other value panics).\<close>

theorem log_line_carries_context:
  assumes "\<And>n. lx_correlation c \<noteq> Some (CtxOther n)"
  shows "\<exists>ctx. with_all lg (Some c) fss = Ok ctx \<and>
    log_Info core lg ctx msg flds w =
      ((if zl_level (active_logger lg c) \<le> InfoLevel then
          (case zc_count core InfoLevel msg w of
             (w', n) \<Rightarrow> if sampled (zl_sampling (active_logger lg c)) n
               then zc_emit core InfoLevel msg (zl_fields (active_logger lg c) @ concat fss @ flds @ context_fields c) w'
               else w')
        else w),
       Ok (active_logger lg (the ctx))) \<and>
    (lg = logger_init lower env \<and> lx_nested c = None \<longrightarrow>
       (\<forall>n. sampled (zl_sampling (active_logger lg c)) n \<longleftrightarrow> n \<le> 100 \<or> n mod 100 = 0))"
proof -
  obtain c' where c': "with_all lg (Some c) fss = Ok (Some c')" "lx_trace c' = lx_trace c"
    "lx_correlation c' = lx_correlation c" "zl_level (active_logger lg c') = zl_level (active_logger lg c)"
    "zl_sampling (active_logger lg c') = zl_sampling (active_logger lg c)"
    "zl_fields (active_logger lg c') = zl_fields (active_logger lg c) @ concat fss"
    using with_all_context [of lg c fss] by blast
  have "context_fields c' = context_fields c" using c'(2,3) by (simp add: context_fields_def)
  moreover have "zl_sampling (active_logger lg c) = production_sampling" if "lg = logger_init lower env" "lx_nested c = None"
    using that by (simp add: active_logger_def logger_init_def)
  ultimately show ?thesis
    using log_at_context [of c' core InfoLevel lg msg flds w] assms c'
    by (simp add: log_Info_def zap_write_def sampled_production case_prod_beta)
qed

definition sample_logger :: zap_logger where
  "sample_logger = logger_init (\<lambda>s. s) ''info''"

definition sample_log_ctx :: log_ctx where
  "sample_log_ctx = \<lparr>lx_nested = None, lx_correlation = Some (CtxString ''c1''), lx_trace = None\<rparr>"

text \<open>A core with one counter, which has counted \<open>snd w\<close> entries.\<close>

definition sample_core :: "((string \<times> log_field list) list \<times> nat) zap_core" where
  "sample_core = \<lparr>zc_count = (\<lambda>lv m w. ((fst w, Suc (snd w)), Suc (snd w))),
     zc_emit = (\<lambda>lv m fs w. (fst w @ [(m, fs)], snd w))\<rparr>"

lemma log_line_carries_context_witness:
  "\<exists>ctx. with_all sample_logger (Some sample_log_ctx) [[field_Int ''user'' 7]] = Ok ctx \<and>
     fst (log_Info sample_core sample_logger ctx ''login'' [field_Bool ''ok'' True] ([], 99)) =
       ([(''login'', [field_Int ''user'' 7, field_Bool ''ok'' True, field_String ''correlationId'' ''c1''])], 100) \<and>
     fst (log_Info sample_core sample_logger ctx ''login'' [field_Bool ''ok'' True] ([], 100)) = ([], 101)"
proof -
  have "\<And>n. lx_correlation sample_log_ctx \<noteq> Some (CtxOther n)" by (simp add: sample_log_ctx_def)
  note R = log_line_carries_context [OF this, of sample_logger "[[field_Int ''user'' 7]]" sample_core "''login''" "[field_Bool ''ok'' True]"
    _ "\<lambda>s. s" "''info''"]
  have l: "sample_logger = logger_init (\<lambda>s. s) ''info''" "lx_nested sample_log_ctx = None"
    "zl_level sample_logger = InfoLevel" "zl_fields sample_logger = []" "zl_sampling sample_logger = production_sampling"
    by (simp_all add: sample_logger_def sample_log_ctx_def logger_init_def zap_getLogLevel_def)
  have a: "active_logger sample_logger sample_log_ctx = sample_logger" by (simp add: active_logger_def l(2))
  have e: "context_fields sample_log_ctx = [field_String ''correlationId'' ''c1'']"
    by (simp add: context_fields_def sample_log_ctx_def)
  obtain ctx where ctx: "with_all sample_logger (Some sample_log_ctx) [[field_Int ''user'' 7]] = Ok ctx"
    using R by blast
  show ?thesis
    using R [of "([], 99)"] R [of "([], 100)"] unfolding ctx
    by (intro exI [of _ ctx]) (simp add: a l(3-5) e sample_core_def sampled_production)
qed

text \<open>
  Logging with the nil context panics before the guards for it are reached, and asking a logger for its level
  never returns.\<close>

theorem nil_context_panics:
  "snd (log_Error core lg None msg flds w) = Panic ''nil pointer dereference'' \<and>
   log_With lg None flds = Panic ''nil pointer dereference'' \<and> logger_Level lg = None"
  using logger_Level_diverges by (simp add: log_Error_def log_at_def log_With_def resolveActiveLogger_def)

text \<open>
  The search for the directory of a marker file ends, at the nearest directory above the working directory that has
  it, or with an error when none has; the document is read relative to the working directory if it can
  be, and below that directory otherwise.\<close>

theorem spec_is_found_upwards:
  assumes "fo_Abs F = Inr cwd"
  shows "(\<forall>d. findUpward F marker = Inr d \<longleftrightarrow>
      suffix d cwd \<and> fo_Stat F d marker \<and> (\<forall>d'. suffix d' cwd \<and> fo_Stat F d' marker \<longrightarrow> suffix d' d)) \<and>
    (findUpward F marker = Inl fs_ErrNotExist \<longleftrightarrow> (\<forall>d. suffix d cwd \<longrightarrow> \<not> fo_Stat F d marker)) \<and>
    (path \<noteq> [] \<longrightarrow> (\<forall>b. LoadOpenAPISpec F path = Inr b \<longleftrightarrow> fo_ReadFile F None path = Inr b \<or>
       (\<exists>e d. fo_ReadFile F None path = Inl e \<and> findUpward F rootMarker = Inr d \<and> fo_ReadFile F (Some d) path = Inr b)))"
proof -
  have "findUpward F m = find_up F m cwd" for m by (simp add: findUpward_def assms)
  then show ?thesis using find_up_Inr [of F marker cwd] find_up_Inl [of F marker cwd]
    by (auto simp: LoadOpenAPISpec_def Let_def split: sum.splits)
qed

definition sample_files :: file_ops where
  "sample_files =
     \<lparr>fo_Abs = Inr [''cmd'', ''shop'', ''home''], fo_Stat = (\<lambda>d m. m = ''go.mod'' \<and> d = [''shop'', ''home'']),
      fo_ReadFile = (\<lambda>d p. if d = Some [''shop'', ''home''] then Inr ''{}'' else Inl fs_ErrNotExist)\<rparr>"

lemma spec_is_found_upwards_witness:
  "findUpward sample_files ''go.mod'' = Inr [''shop'', ''home''] \<and> LoadOpenAPISpec sample_files ''api.json'' = Inr ''{}''"
proof -
  have "fo_Abs sample_files = Inr [''cmd'', ''shop'', ''home'']" by (simp add: sample_files_def)
  note T = spec_is_found_upwards [OF this]
  have "suffix [''shop'', ''home''] [''cmd'', ''shop'', ''home'']" by (simp add: suffix_Cons)
  then have f: "findUpward sample_files ''go.mod'' = Inr [''shop'', ''home'']"
    using T [of "''go.mod''" "[]"] by (auto simp: sample_files_def)
  then show ?thesis
    using T [of "''go.mod''" "''api.json''"] by (auto simp: sample_files_def rootMarker_def)
qed

text \<open>
  A client's stream is counted in the metrics at the end and not before, but at every receive that fails: one that
  is asked again after its end is counted again.\<close>

theorem stream_is_counted_at_its_end:
  "snd (recv_times count_call (eof_stream method) k (n, [])) = replicate (k - n) (method, Some (Sentinel ''EOF''))"
  by (simp add: recv_times_counts)

text \<open>
  No panic of a stream handler or of an added interceptor gets past the chain of a server's streams; without added
  interceptors a stream is counted once when its handler returns, with its status, and not when it panics.\<close>

theorem stream_chain_recovers_panics:
  "snd (stream_chain inc added h s) \<noteq> Panic p \<and>
   stream_chain inc [] h s =
     (case h s of
        (s, Ok _) \<Rightarrow> (inc None s, Ok ())
      | (s, Err e) \<Rightarrow> (inc (Some e) s, Err e)
      | (s, Panic p) \<Rightarrow> (s, Err ErrInternal))"
  by (intro conjI stream_chain_recovers stream_chain_result)

text \<open>
  The callbacks of the gorm plugin count no query: they set and read the start time on the handle they were
  registered with, and when gorm's \<^verbatim>\<open>Set\<close> stores the value in the handle it returns and not in the one it is
  called on, the start time is never found.\<close>

theorem gorm_metrics_count_nothing:
  assumes "\<And>key t k w. gd_Get G db k (snd (gd_Set G db key t w)) = gd_Get G db k w" and "\<And>k. gd_Get G db k w = None"
  shows "snd (run_callbacks G db cs (w, c)) = c"
  by (rule run_callbacks_counts [OF assms])

text \<open>Handles are numbers; a value is stored in a new one.\<close>

definition sample_gorm :: "(nat, nat \<Rightarrow> string \<rightharpoonup> int) gorm_db" where
  "sample_gorm =
     \<lparr>gd_Set = (\<lambda>d k t w. (Suc d, w(Suc d := (w d)(k \<mapsto> t)))), gd_Get = (\<lambda>d k w. w d k), gd_Error = (\<lambda>d w. None),
      gd_Statement = (\<lambda>d w. None), gd_sqlDB = (\<lambda>d. None), gd_Register = (\<lambda>p b a n d w. w), gd_Use = (\<lambda>d w. (w, None))\<rparr>"

lemma gorm_metrics_count_nothing_witness:
  "snd (run_callbacks sample_gorm 0 [(''query'', True, 3, 10), (''query'', False, 3, 15)]
      ((\<lambda>d. Map.empty), \<lparr>gn_total = [], gn_duration = [], gn_errors = []\<rparr>)) =
     \<lparr>gn_total = [], gn_duration = [], gn_errors = []\<rparr>"
  by (rule gorm_metrics_count_nothing) (simp_all add: sample_gorm_def)

section \<open>Start of the configuration and of the metrics\<close>

text \<open>
  C39. \<^verbatim>\<open>Init\<close> with Consul and Vault reads the file and the environment, then loads the shared and the application's
  section of Consul, bootstraps the application's section, and loads the shared and the application's secrets as they
  are after the bootstrap, each source merged into an instance of its own (\<open>loaded\<close>).  A value then comes from the
  application's secrets, else from the shared secrets, else from the application's section in Consul, else from the
  shared section, and only then from the file and the environment.\<close>

theorem init_precedence:
  assumes "init_config V R env opts w = Ok (cfg, w')"
    and "getConsulConfig env = Ok (Some cc)" and "getVaultConfig env = Ok (Some vc)"
  shows "\<exists>e c0 c1 qa qs pa ps ca cs va vs.
    (let o' = applyInitOptions env opts in
       vp_ReadInConfig V [io_ConfigPath o', ''.'', ''./configs''] (io_FileName o') True = Inr e \<and>
       c0 = (config_New (io_ConfigPath o') (io_FileName o'))\<lparr>cfg_envViper := Some e\<rparr>) \<and>
    vp_GetString V ''app.name'' e \<noteq> [] \<and>
    GetStringOrDefault V ''consul.app_prefix'' (vp_GetString V ''app.name'' e) c0 = Ok qa \<and>
    GetStringOrDefault V ''consul.shared_prefix'' ''shared'' c0 = Ok qs \<and>
    loaded V (rc_consul_provider R cc qs) w cs \<and> loaded V (rc_consul_provider R cc qa) w ca \<and>
    c1 = c0\<lparr>cfg_storages := [\<lparr>st_provider = rc_consul_provider R cc qa, st_viper = ca\<rparr>,
                             \<lparr>st_provider = rc_consul_provider R cc qs, st_viper = cs\<rparr>]\<rparr> \<and>
    Bootstrap V (rc_consul_provider R cc qa) c1 w = (w', None) \<and>
    GetStringOrDefault V ''vault.app_path'' (vp_GetString V ''app.name'' e) c1 = Ok pa \<and>
    GetStringOrDefault V ''vault.shared_path'' ''shared'' c1 = Ok ps \<and>
    loaded V (rc_vault_provider R vc ps (getVaultMount env)) w' vs \<and>
    loaded V (rc_vault_provider R vc pa (getVaultMount env)) w' va \<and>
    cfg = c1\<lparr>cfg_storages := [\<lparr>st_provider = rc_vault_provider R vc pa (getVaultMount env), st_viper = va\<rparr>,
                              \<lparr>st_provider = rc_vault_provider R vc ps (getVaultMount env), st_viper = vs\<rparr>] @ cfg_storages c1\<rparr> \<and>
    (\<forall>key. GetString V key cfg = Ok (vp_GetString V key
       (if vp_IsSet V key va then va else if vp_IsSet V key vs then vs
        else if vp_IsSet V key ca then ca else if vp_IsSet V key cs then cs else e)))"
proof -
  define o' where "o' = applyInitOptions env opts"
  from init_config_loads [OF assms o'_def] obtain e c0 c1 w1 where
    e: "vp_ReadInConfig V [io_ConfigPath o', ''.'', ''./configs''] (io_FileName o') True = Inr e"
      "c0 = (config_New (io_ConfigPath o') (io_FileName o'))\<lparr>cfg_envViper := Some e\<rparr>"
      "vp_GetString V ''app.name'' e \<noteq> []"
    and l: "load_consul V R cc (vp_GetString V ''app.name'' e) c0 w = Ok (c1, w1)"
      "load_vault V R env vc (vp_GetString V ''app.name'' e) c1 w1 = Ok (cfg, w')"
    by blast
  from e(2) have st: "cfg_storages c0 = []" "cfg_envViper c0 = Some e" by (simp_all add: config_New_def)
  from load_vault_storages [OF l(2)] have ww: "w1 = w'" by blast
  from load_consul_storages [OF l(1)] obtain qa qs cs ca where
    "GetStringOrDefault V ''consul.app_prefix'' (vp_GetString V ''app.name'' e) c0 = Ok qa"
    "GetStringOrDefault V ''consul.shared_prefix'' ''shared'' c0 = Ok qs"
    "loaded V (rc_consul_provider R cc qs) w cs" "loaded V (rc_consul_provider R cc qa) w ca"
    "Bootstrap V (rc_consul_provider R cc qa) c1 w = (w', None)"
    and c1: "c1 = c0\<lparr>cfg_storages := [\<lparr>st_provider = rc_consul_provider R cc qa, st_viper = ca\<rparr>,
                             \<lparr>st_provider = rc_consul_provider R cc qs, st_viper = cs\<rparr>]\<rparr>"
    using st ww by auto
  moreover from load_vault_storages [OF l(2)] obtain pa ps vs va where
    "GetStringOrDefault V ''vault.app_path'' (vp_GetString V ''app.name'' e) c1 = Ok pa"
    "GetStringOrDefault V ''vault.shared_path'' ''shared'' c1 = Ok ps"
    "loaded V (rc_vault_provider R vc ps (getVaultMount env)) w' vs"
    "loaded V (rc_vault_provider R vc pa (getVaultMount env)) w' va"
    and cfg: "cfg = c1\<lparr>cfg_storages := [\<lparr>st_provider = rc_vault_provider R vc pa (getVaultMount env), st_viper = va\<rparr>,
                              \<lparr>st_provider = rc_vault_provider R vc ps (getVaultMount env), st_viper = vs\<rparr>] @ cfg_storages c1\<rparr>"
    using ww by auto
  moreover have "GetString V key cfg = Ok (vp_GetString V key
       (if vp_IsSet V key va then va else if vp_IsSet V key vs then vs
        else if vp_IsSet V key ca then ca else if vp_IsSet V key cs then cs else e))" for key
    unfolding GetString_def by (rule with_viper_four) (simp_all add: cfg c1 st)
  ultimately show ?thesis using e unfolding o'_def Let_def by blast
qed

definition start_viper :: "((string \<times> unit cval) list, unit) viper_ops" where
  "start_viper = sample_viper\<lparr>vp_ReadInConfig := (\<lambda>ps n e. Inr [(''app.name'', VString ''shop''), (''port'', VString ''80'')])\<rparr>"

definition start_clients :: "(unit, unit) remote_clients" where
  "start_clients = \<lparr>rc_consul = (\<lambda>c. None), rc_consul_provider = (\<lambda>c q. sample_provider (''consul-'' @ q)),
     rc_vault = (\<lambda>c. None), rc_vault_provider = (\<lambda>c q m. sample_provider (''vault-'' @ q))\<rparr>"

definition start_env :: environment where
  "start_env k = (if k = ''VAULT_TOKEN_PATH'' then Some ''token'' else None)"

definition start_cfg :: "((string \<times> unit cval) list, unit, unit) cfg_store" where
  "start_cfg = (config_New ''./bootstrap'' ''config'')
    \<lparr>cfg_envViper := Some [(''app.name'', VString ''shop''), (''port'', VString ''80'')],
     cfg_storages := map (\<lambda>h. \<lparr>st_provider = sample_provider h, st_viper = [(''host'', VString h)]\<rparr>)
       [''vault-shop'', ''vault-shared'', ''consul-shop'', ''consul-shared'']\<rparr>"

lemma start_consul: "getConsulConfig start_env = Ok (Some \<lparr>cc_Address = ''consul:8500'', cc_Token = [], cc_TokenFile = []\<rparr>)"
  and start_vault: "getVaultConfig start_env = Ok (Some \<lparr>vc_Address = ''http://vault:8200'', vc_Token = ''token''\<rparr>)"
  by (simp_all add: getConsulConfig_def getVaultConfig_def start_env_def env_or_empty_def)

lemma start_init: "init_config start_viper start_clients start_env [] () = Ok (start_cfg, ())"
  by (simp add: init_config_def applyInitOptions_def env_or_empty_def LoadEnv_def getAppName_def fatal_def
      getConsulClient_def getVaultClient_def start_consul start_vault load_consul_def load_vault_def GetString_def
      GetStringOrDefault_def with_viper_def mustLoadProvider_def LoadFromProvider_def Bootstrap_def start_cfg_def
      start_viper_def sample_viper_def start_clients_def sample_provider_def config_New_def start_env_def Let_def)

lemma init_precedence_witness:
  "GetString start_viper ''host'' start_cfg = Ok ''vault-shop'' \<and> GetString start_viper ''port'' start_cfg = Ok ''80'' \<and>
     (\<exists>va vs ca cs e. \<forall>key. GetString start_viper key start_cfg = Ok (vp_GetString start_viper key
       (if vp_IsSet start_viper key va then va else if vp_IsSet start_viper key vs then vs
        else if vp_IsSet start_viper key ca then ca else if vp_IsSet start_viper key cs then cs else e)))"
proof -
  have "GetString start_viper ''host'' start_cfg = Ok ''vault-shop''" "GetString start_viper ''port'' start_cfg = Ok ''80''"
    by (simp_all add: GetString_def with_viper_def start_viper_def sample_viper_def start_cfg_def)
  with init_precedence [OF start_init start_consul start_vault] show ?thesis by blast
qed

text \<open>
  C40. The start of a process, from the sources of the configuration to the container, when the configuration loads and
  every client can be created (\<open>healthy_env\<close>), for a selection of the seven optional components Kafka, Redis, S3,
  localizer, metrics, tracing and workflow, none twice: \<^verbatim>\<open>New\<close> succeeds, on the configuration loaded, with the
  components in the order of the options between the container and the HTTP server.  The keys bound in the
  container are then exactly those of the configurer and of the clients of Kafka, Redis, S3 and the localizer that
  are selected; metrics and tracing bind nothing, and workflow binds its client only when it runs.  A second
  application gets the same configuration, whatever the sources hold by then.\<close>

theorem new_starts_on_loaded_config:
  assumes "init_config V R osenv [] rw = Ok (cfg, rw')"
    and "healthy_env E" and "distinct ns" and "set ns \<subseteq> set optional_names"
  shows "\<exists>a bindings. application_New V R osenv E (map (\<lambda>n E. with_option E n) ns) (None, rw) w p =
      Ok ((Some cfg, rw'), (a, registry_http (E\<lparr>ae_conf := configurer_of V cfg\<rparr>) ns), Ok ()) \<and>
    bindings_of a = Some bindings \<and>
    dom bindings = service_key ` ({SvcConfigurer} \<union> {s. \<exists>n \<in> set ns. service_of n = Some s}) \<and>
    (\<forall>s \<in> {SvcConfigurer} \<union> {s. \<exists>n \<in> set ns. service_of n = Some s}.
       bindings (service_key s) = Some \<lparr>dep_service = s, dep_injected = True\<rparr>) \<and>
    (\<forall>R2 osenv2 E2 options w2 p2. application_New V R2 osenv2 E2 options (Some cfg, rw') w2 p2 =
       Ok ((Some cfg, rw'), application_NewWithConfig E2 (configurer_of V cfg) options w2 p2))"
proof -
  let ?E = "E\<lparr>ae_conf := configurer_of V cfg\<rparr>"
  have "healthy_env ?E" using assms(2) by (simp add: healthy_env_def plain_services_def)
  from new_binds_selected_clients [OF this assms(3,4), of w p] obtain a bindings where
    a: "app_new ?E (map (with_option ?E) ns) w p = ((a, registry_http ?E ns), Ok ())" "bindings_of a = Some bindings"
      "dom bindings = service_key ` ({SvcConfigurer} \<union> {s. \<exists>n \<in> set ns. service_of n = Some s})"
      "\<forall>s \<in> {SvcConfigurer} \<union> {s. \<exists>n \<in> set ns. service_of n = Some s}.
         bindings (service_key s) = Some \<lparr>dep_service = s, dep_injected = True\<rparr>"
    by blast
  have "application_NewWithConfig E (configurer_of V cfg) (map (\<lambda>n E. with_option E n) ns) w p =
      ((a, registry_http ?E ns), Ok ())"
    using a(1) by (simp add: application_NewWithConfig_def Let_def comp_def)
  then have "application_New V R osenv E (map (\<lambda>n E. with_option E n) ns) (None, rw) w p =
      Ok ((Some cfg, rw'), (a, registry_http ?E ns), Ok ())"
    unfolding application_New_Ok using assms(1) by (intro exI [of _ cfg]) simp
  note new = this
  show ?thesis
    by (intro exI [of _ a] exI [of _ bindings] conjI allI new a(2-4) application_New_again)
qed

lemma new_starts_on_loaded_config_witness:
  "\<exists>a. application_New start_viper start_clients start_env sample_app_env (map (\<lambda>n E. with_option E n) [''kafka'', ''redis'']) (None, ())
     fresh_world 0 =
     Ok ((Some start_cfg, ()), (a, registry_http (sample_app_env\<lparr>ae_conf := configurer_of start_viper start_cfg\<rparr>) [''kafka'', ''redis'']), Ok ())"
proof -
  have "set [''kafka'', ''redis''] \<subseteq> set optional_names" by (simp add: optional_names_def)
  from new_starts_on_loaded_config [OF start_init sample_app_env_healthy _ this, of fresh_world 0] show ?thesis by auto
qed

text \<open>
  The names of the platform's collectors are distinct, so the package is initialised without a panic, whatever the
  default registry holds but the four names of gRPC; a second \<^verbatim>\<open>Init\<close> in one process panics.\<close>

theorem platform_metrics_register:
  assumes "co_Name ` set grpc_collectors \<inter> co_Name ` set default_reg = {}"
    and "sys \<noteq> []" and "distinct (map co_Name sys)" and "co_Name ` set sys \<inter> co_Name ` set platform_collectors = {}"
  shows "metrics_package_init default_reg = Ok (default_reg @ grpc_collectors, platform_collectors) \<and>
    metrics_Init sys platform_collectors = Ok (platform_collectors @ sys) \<and>
    (\<exists>p. metrics_Init sys (platform_collectors @ sys) = Panic p)"
proof -
  have i: "metrics_Init sys platform_collectors = Ok (platform_collectors @ sys)"
    using assms(3,4) by (simp add: metrics_Init_def MustRegister_Ok)
  with metrics_package_init_Ok [OF assms(1)] metrics_Init_twice [OF i assms(2)] show ?thesis by blast
qed

lemma platform_metrics_register_witness:
  "metrics_Init [co ''go_goroutines'' []] platform_collectors = Ok (platform_collectors @ [co ''go_goroutines'' []])"
proof -
  have "co_Name ` set grpc_collectors \<inter> co_Name ` set [] = {}" "[co ''go_goroutines'' []] \<noteq> []"
    "distinct (map co_Name [co ''go_goroutines'' []])"
    "co_Name ` set [co ''go_goroutines'' []] \<inter> co_Name ` set platform_collectors = {}"
    by (simp_all add: platform_collectors_def collector_defs)
  from platform_metrics_register [OF this] show ?thesis by blast
qed

end
